(* ===== verification/JsRegex.thy ===== *)
theory JsRegex
  imports JsString
begin

text \<open>
  The regular expressions of the application. An expression is data; \<open>rests r s\<close> is what the
  backtracking matcher of the language may leave of \<open>s\<close> after matching \<open>r\<close> at its start, in the
  order in which it tries the alternatives (greedy repetition first), so the head of the list is
  the match the language reports. \<open>matches\<close> is the language of an expression, defined without
  any order; \<open>set_rests\<close> says that the matcher finds exactly its words. The anchors are the
  modes of use: \<open>test_full\<close> for \<open>/^r$/\<close>, \<open>test_start\<close> for \<open>/^r/\<close>, \<open>search\<close> for \<open>/r/\<close> and
  \<open>search_end\<close> for \<open>/r$/\<close>.
\<close>

datatype rx =
    Eps
  | Cls "char \<Rightarrow> bool"
  | Cat rx rx
  | Alt rx rx
  | Star rx

function rests :: "rx \<Rightarrow> string \<Rightarrow> string list" where
  "rests Eps s = [s]"
| "rests (Cls P) s = (case s of [] \<Rightarrow> [] | c # t \<Rightarrow> if P c then [t] else [])"
| "rests (Cat a b) s = concat (map (rests b) (rests a s))"
| "rests (Alt a b) s = rests a s @ rests b s"
| "rests (Star r) s =
     concat (map (\<lambda>t. if length t < length s then rests (Star r) t else []) (rests r s)) @ [s]"
  by pat_completeness auto
termination
  by (relation "measures [\<lambda>(r, s). size r, \<lambda>(r, s). length s]") auto

declare rests.simps(5) [simp del]

text \<open>The derived forms the sources write: a literal, \<open>r?\<close>, \<open>r+\<close>, \<open>r{n}\<close>, \<open>r{n,}\<close>.\<close>

fun lit :: "string \<Rightarrow> rx" where
  "lit [] = Eps"
| "lit (c # w) = Cat (Cls ((=) c)) (lit w)"

definition opt :: "rx \<Rightarrow> rx" where
  "opt r = Alt r Eps"

definition plus1 :: "rx \<Rightarrow> rx" where
  "plus1 r = Cat r (Star r)"

fun rep :: "nat \<Rightarrow> rx \<Rightarrow> rx" where
  "rep 0 r = Eps"
| "rep (Suc n) r = Cat r (rep n r)"

definition rep_min :: "nat \<Rightarrow> rx \<Rightarrow> rx" where
  "rep_min n r = Cat (rep n r) (Star r)"

section \<open>Modes of use\<close>

definition test_full :: "rx \<Rightarrow> string \<Rightarrow> bool" where
  "test_full r s \<longleftrightarrow> [] \<in> set (rests r s)"

definition test_start :: "rx \<Rightarrow> string \<Rightarrow> bool" where
  "test_start r s \<longleftrightarrow> rests r s \<noteq> []"

definition match_start :: "rx \<Rightarrow> string \<Rightarrow> string option" where
  "match_start r s =
     (case rests r s of [] \<Rightarrow> None | t # _ \<Rightarrow> Some (take (length s - length t) s))"

text \<open>Leftmost match: what is before it, the match, what is after it.\<close>

fun search :: "rx \<Rightarrow> string \<Rightarrow> (string \<times> string \<times> string) option" where
  "search r [] = (case rests r [] of [] \<Rightarrow> None | t # _ \<Rightarrow> Some ([], [], []))"
| "search r (c # s) =
     (case rests r (c # s) of
        t # _ \<Rightarrow> Some ([], take (length (c # s) - length t) (c # s), t)
      | [] \<Rightarrow> map_option (\<lambda>(a, m, b). (c # a, m, b)) (search r s))"

text \<open>The match of \<open>/r$/\<close>: the longest suffix in the language.\<close>

fun search_end :: "rx \<Rightarrow> string \<Rightarrow> string option" where
  "search_end r [] = (if test_full r [] then Some [] else None)"
| "search_end r (c # s) = (if test_full r (c # s) then Some (c # s) else search_end r s)"

text \<open>\<open>s.replace(/[class]/g, w)\<close>.\<close>

definition replace_class :: "(char \<Rightarrow> bool) \<Rightarrow> string \<Rightarrow> string \<Rightarrow> string" where
  "replace_class P w s = concat (map (\<lambda>c. if P c then w else [c]) s)"

section \<open>The language of an expression\<close>

inductive matches :: "rx \<Rightarrow> string \<Rightarrow> bool" where
  eps: "matches Eps []"
| cls: "P c \<Longrightarrow> matches (Cls P) [c]"
| cat: "matches a u \<Longrightarrow> matches b v \<Longrightarrow> matches (Cat a b) (u @ v)"
| alt_left: "matches a u \<Longrightarrow> matches (Alt a b) u"
| alt_right: "matches b u \<Longrightarrow> matches (Alt a b) u"
| star_stop: "matches (Star r) []"
| star_more: "matches r u \<Longrightarrow> matches (Star r) v \<Longrightarrow> matches (Star r) (u @ v)"

inductive_simps matches_Eps [simp]: "matches Eps u"
inductive_simps matches_Cls: "matches (Cls P) u"
inductive_simps matches_Cat: "matches (Cat a b) u"
inductive_simps matches_Alt: "matches (Alt a b) u"

text \<open>A word of a repetition is empty or starts with a non-empty round.\<close>

lemma matches_Star_cases:
  assumes "matches (Star r) w"
  shows "w = [] \<or> (\<exists>u v. w = u @ v \<and> u \<noteq> [] \<and> matches r u \<and> matches (Star r) v)"
  using assms
proof (induction "Star r" w rule: matches.induct)
  case star_stop
  show ?case by simp
next
  case (star_more u v)
  show ?case
  proof (cases u)
    case Nil
    with star_more show ?thesis by simp
  next
    case (Cons c u')
    with star_more have "u \<noteq> [] \<and> matches r u \<and> matches (Star r) v" by simp
    then show ?thesis by blast
  qed
qed

lemma rests_sound: "t \<in> set (rests r s) \<Longrightarrow> \<exists>u. s = u @ t \<and> matches r u"
proof (induction r s arbitrary: t rule: rests.induct)
  case (1 s)
  then show ?case by simp
next
  case (2 P s)
  then show ?case by (auto simp: matches_Cls split: list.splits if_splits)
next
  case (3 a b s)
  from "3.prems" obtain x where x: "x \<in> set (rests a s)" "t \<in> set (rests b x)" by auto
  from "3.IH"(1) [OF x(1)] obtain u where u: "s = u @ x" "matches a u" by blast
  from "3.IH"(2) [OF x] obtain v where v: "x = v @ t" "matches b v" by blast
  from u v have "s = (u @ v) @ t" "matches (Cat a b) (u @ v)" by (auto intro: matches.cat)
  then show ?case by blast
next
  case (4 a b s)
  then show ?case by (auto simp: matches_Alt)
next
  case (5 r s)
  from "5.prems" consider "t = s"
    | x where "x \<in> set (rests r s)" "length x < length s" "t \<in> set (rests (Star r) x)"
    by (auto simp: rests.simps(5) [of r s] split: if_splits)
  then show ?case
  proof cases
    case 1
    then show ?thesis by (auto intro: matches.star_stop)
  next
    case (2 x)
    from "5.IH"(1) [OF 2(1)] obtain u where u: "s = u @ x" "matches r u" by blast
    from "5.IH"(2) [OF 2] obtain v where v: "x = v @ t" "matches (Star r) v" by blast
    from u v have "s = (u @ v) @ t" "matches (Star r) (u @ v)" by (auto intro: matches.star_more)
    then show ?thesis by blast
  qed
qed

lemma rests_complete: "matches r u \<Longrightarrow> s = u @ t \<Longrightarrow> t \<in> set (rests r s)"
proof (induction r s arbitrary: u t rule: rests.induct)
  case (1 s)
  then show ?case by simp
next
  case (2 P s)
  then show ?case by (auto simp: matches_Cls)
next
  case (3 a b s)
  from "3.prems"(1) obtain v w where vw: "u = v @ w" "matches a v" "matches b w"
    by (auto simp: matches_Cat)
  with "3.prems"(2) have s: "s = v @ (w @ t)" by simp
  from "3.IH"(1) [OF vw(2) s] have x: "w @ t \<in> set (rests a s)" .
  from "3.IH"(2) [OF x vw(3) refl] x show ?case by auto
next
  case (4 a b s)
  then show ?case by (auto simp: matches_Alt)
next
  case (5 r s)
  from matches_Star_cases [OF "5.prems"(1)] show ?case
  proof (elim disjE exE conjE)
    assume "u = []"
    with "5.prems" show ?thesis by (simp add: rests.simps(5) [of r t])
  next
    fix v w assume vw: "u = v @ w" "v \<noteq> []" "matches r v" "matches (Star r) w"
    with "5.prems"(2) have s: "s = v @ (w @ t)" and len: "length (w @ t) < length s" by auto
    from "5.IH"(1) [OF vw(3) s] have x: "w @ t \<in> set (rests r s)" .
    from "5.IH"(2) [OF x len vw(4) refl] x len show ?thesis
      by (auto simp: rests.simps(5) [of r s])
  qed
qed

theorem set_rests: "set (rests r s) = {t. \<exists>u. s = u @ t \<and> matches r u}"
  using rests_sound rests_complete by blast

lemma test_full_iff: "test_full r s \<longleftrightarrow> matches r s"
  by (simp add: test_full_def set_rests)

lemma test_start_iff: "test_start r s \<longleftrightarrow> (\<exists>u t. s = u @ t \<and> matches r u)"
proof -
  have "test_start r s \<longleftrightarrow> set (rests r s) \<noteq> {}"
    by (simp add: test_start_def)
  then show ?thesis by (auto simp: set_rests)
qed

lemma search_end_Some: "search_end r s = Some m \<Longrightarrow> matches r m \<and> (\<exists>a. s = a @ m)"
proof (induction r s rule: search_end.induct)
  case (1 r)
  then show ?case by (auto simp: test_full_iff split: if_splits)
next
  case (2 r c s)
  then show ?case
    by (cases "test_full r (c # s)") (auto simp: test_full_iff)
qed

lemma search_end_None: "search_end r s = None \<longleftrightarrow> (\<forall>a m. s = a @ m \<longrightarrow> \<not> matches r m)"
proof (induction r s rule: search_end.induct)
  case (1 r)
  then show ?case by (auto simp: test_full_iff)
next
  case (2 r c s)
  show ?case
  proof (cases "test_full r (c # s)")
    case True
    then have "matches r (c # s)" and "search_end r (c # s) \<noteq> None"
      by (simp_all add: test_full_iff)
    then show ?thesis by (metis append_Nil)
  next
    case False
    then have "(\<forall>a m. c # s = a @ m \<longrightarrow> \<not> matches r m) \<longleftrightarrow>
        (\<forall>a m. s = a @ m \<longrightarrow> \<not> matches r m)"
      by (auto simp: test_full_iff Cons_eq_append_conv)
    with 2 False show ?thesis by simp
  qed
qed

section \<open>Words of the derived forms\<close>

lemma matches_lit [simp]: "matches (lit w) u \<longleftrightarrow> u = w"
  by (induction w arbitrary: u) (auto simp: matches_Cat matches_Cls)

lemma matches_Cat_Cls [simp]:
  "matches (Cat (Cls P) b) w \<longleftrightarrow> (\<exists>c v. w = c # v \<and> P c \<and> matches b v)"
proof
  show "matches (Cat (Cls P) b) w \<Longrightarrow> \<exists>c v. w = c # v \<and> P c \<and> matches b v"
    by (auto simp: matches_Cat matches_Cls)
next
  assume "\<exists>c v. w = c # v \<and> P c \<and> matches b v"
  then obtain c v where w: "w = [c] @ v" and "P c" "matches b v" by auto
  then show "matches (Cat (Cls P) b) w"
    unfolding w by (intro matches.cat matches.cls)
qed

lemma matches_Cat_lit [simp]: "matches (Cat (lit w) b) v \<longleftrightarrow> (\<exists>t. v = w @ t \<and> matches b t)"
  by (auto simp: matches_Cat)

lemma rests_lit [simp]: "rests (lit w) s = (if startsWith s w then [drop (length w) s] else [])"
  by (induction w arbitrary: s) (auto simp: startsWith_def split: list.splits)

declare lit.simps [simp del]

lemma matches_Cat_opt [simp]: "matches (Cat (opt r) b) v \<longleftrightarrow> matches (Cat r b) v \<or> matches b v"
proof -
  have "matches (Cat (opt r) b) v \<longleftrightarrow>
      (\<exists>x y. v = x @ y \<and> (x = [] \<or> matches r x) \<and> matches b y)"
    by (simp add: opt_def matches_Cat matches_Alt disj_commute)
  also have "\<dots> \<longleftrightarrow> matches (Cat r b) v \<or> matches b v"
    by (auto simp: matches_Cat)
  finally show ?thesis .
qed

lemma matches_opt: "matches (opt r) u \<longleftrightarrow> u = [] \<or> matches r u"
  by (auto simp: opt_def matches_Alt)

lemma matches_rep_Cls [simp]: "matches (rep n (Cls P)) u \<longleftrightarrow> length u = n \<and> list_all P u"
proof (induction n arbitrary: u)
  case 0
  then show ?case by auto
next
  case (Suc n)
  show ?case
    by (cases u) (auto simp: Suc)
qed

lemma matches_Star_Cls [simp]: "matches (Star (Cls P)) u \<longleftrightarrow> list_all P u"
proof
  show "matches (Star (Cls P)) u \<Longrightarrow> list_all P u"
    by (induction "Star (Cls P)" u rule: matches.induct) (auto simp: matches_Cls)
next
  show "list_all P u \<Longrightarrow> matches (Star (Cls P)) u"
  proof (induction u)
    case Nil
    show ?case by (rule matches.star_stop)
  next
    case (Cons c u)
    then have "matches (Star (Cls P)) ([c] @ u)"
      by (intro matches.star_more matches.cls) auto
    then show ?case by simp
  qed
qed

lemma matches_plus_Cls [simp]: "matches (plus1 (Cls P)) u \<longleftrightarrow> u \<noteq> [] \<and> list_all P u"
  by (cases u) (auto simp: plus1_def)

lemma matches_rep_min_Cls [simp]:
  "matches (rep_min n (Cls P)) u \<longleftrightarrow> n \<le> length u \<and> list_all P u"
proof
  assume "matches (rep_min n (Cls P)) u"
  then show "n \<le> length u \<and> list_all P u" by (auto simp: rep_min_def matches_Cat)
next
  assume a: "n \<le> length u \<and> list_all P u"
  then have "list_all P (take n u)" "list_all P (drop n u)"
    by (auto simp: list_all_iff dest: in_set_takeD in_set_dropD)
  with a have "matches (Cat (rep n (Cls P)) (Star (Cls P))) (take n u @ drop n u)"
    by (intro matches.cat) simp_all
  then show "matches (rep_min n (Cls P)) u" by (simp add: rep_min_def)
qed

section \<open>Greedy matches\<close>

lemma rests_Star_Cls:
  "rests (Star (Cls P)) [] = [ [] ]"
  "rests (Star (Cls P)) (c # s) = (if P c then rests (Star (Cls P)) s else []) @ [c # s]"
  by (simp_all add: rests.simps(5) [of "Cls P"])

lemma rests_Star_Cls_hd: "\<exists>ts. rests (Star (Cls P)) s = dropWhile P s # ts"
  by (induction s) (auto simp: rests_Star_Cls)

lemma rests_plus_Cls:
  "rests (plus1 (Cls P)) s =
     (case s of [] \<Rightarrow> [] | c # t \<Rightarrow> if P c then rests (Star (Cls P)) t else [])"
  by (cases s) (simp_all add: plus1_def)

lemma match_start_plus_Cls:
  "match_start (plus1 (Cls P)) s = (if takeWhile P s = [] then None else Some (takeWhile P s))"
proof (cases s)
  case Nil
  then show ?thesis by (simp add: match_start_def rests_plus_Cls)
next
  case (Cons c t)
  obtain ts where ts: "rests (Star (Cls P)) t = dropWhile P t # ts"
    using rests_Star_Cls_hd by blast
  have "take (length t - length (dropWhile P t)) t = takeWhile P t"
    by (metis add_diff_cancel_right' append_eq_conv_conj length_append takeWhile_dropWhile_id)
  moreover have "length (dropWhile P t) \<le> length t" by (rule length_dropWhile_le)
  ultimately show ?thesis
    using Cons ts by (auto simp: match_start_def rests_plus_Cls Suc_diff_le)
qed

lemma search_end_plus_Cls:
  "search_end (plus1 (Cls P)) s =
     (let m = rev (takeWhile P (rev s)) in if m = [] then None else Some m)"
proof (induction s)
  case Nil
  then show ?case by (simp add: test_full_iff)
next
  case (Cons c s)
  show ?case
  proof (cases "list_all P (c # s)")
    case True
    then have tw: "takeWhile P (rev (c # s)) = rev (c # s)"
      by (intro takeWhile_all) (simp add: list_all_iff)
    from True have "search_end (plus1 (Cls P)) (c # s) = Some (c # s)"
      by (simp add: test_full_iff)
    then show ?thesis unfolding tw by simp
  next
    case False
    have "takeWhile P (rev (c # s)) = takeWhile P (rev s)"
    proof (cases "list_all P s")
      case True
      with False have "\<not> P c" and "list_all P (rev s)" by (simp_all add: list_all_iff)
      then have "takeWhile P (rev s @ c # []) = rev s" and "takeWhile P (rev s) = rev s"
        by (blast intro: takeWhile_stop takeWhile_all)+
      then show ?thesis by (simp only: rev.simps)
    next
      case False
      then show ?thesis by (auto simp: takeWhile_append list_all_iff)
    qed
    moreover from False have "search_end (plus1 (Cls P)) (c # s) = search_end (plus1 (Cls P)) s"
      by (auto simp: test_full_iff)
    ultimately show ?thesis using Cons by simp
  qed
qed

lemma replace_class_empty: "replace_class P [] s = filter (\<lambda>c. \<not> P c) s"
  by (induction s) (auto simp: replace_class_def)

lemma replace_class_single: "replace_class P [d] s = map (\<lambda>c. if P c then d else c) s"
  by (induction s) (auto simp: replace_class_def)

end
