(* ===== verification/JsNumber.thy ===== *)
theory JsNumber
  imports JsString
begin

text \<open>
  Numbers. A JavaScript number that the application computes with is a whole number, \<open>NaN\<close> or
  an infinity (page numbers, block numbers, ids, timestamps); whole numbers are rounded to the
  nearest double, ties to even, and overflow to an infinity, exactly as \<open>parseInt\<close> and the
  product of two numbers do. A \<open>bigint\<close> is an \<open>int\<close>. The positive and the negative zero are one
  value, as \<open>===\<close> sees them.

  The last sections read and write numerals in a base, for \<open>parseInt\<close>, \<open>Number\<close>, \<open>BigInt\<close> and
  \<open>toString\<close>.
\<close>

datatype jsnum = NaN | PosInf | NegInf | Num int

section \<open>Rounding to a double\<close>

fun bit_len :: "nat \<Rightarrow> nat" where
  "bit_len n = (if n = 0 then 0 else Suc (bit_len (n div 2)))"

declare bit_len.simps [simp del]

text \<open>53 bits of precision; \<open>None\<close> is overflow.\<close>

definition double_of :: "nat \<Rightarrow> nat option" where
  "double_of n =
     (let u = 2 ^ (bit_len n - 53); q = n div u; r = n mod u;
          q' = (if u < 2 * r \<or> (2 * r = u \<and> odd q) then Suc q else q)
      in if q' * u < 2 ^ 1024 then Some (q' * u) else None)"

definition num_of :: "int \<Rightarrow> jsnum" where
  "num_of i =
     (case double_of (nat \<bar>i\<bar>) of
        None \<Rightarrow> (if i < 0 then NegInf else PosInf)
      | Some m \<Rightarrow> Num (sgn i * int m))"

lemma bit_len_bound: "n < 2 ^ k \<Longrightarrow> bit_len n \<le> k"
proof (induction n arbitrary: k rule: bit_len.induct)
  case (1 n)
  show ?case
  proof (cases "n = 0")
    case True
    then show ?thesis by (simp add: bit_len.simps)
  next
    case False
    with "1.prems" obtain k' where k: "k = Suc k'" by (cases k) auto
    with "1.prems" have "n div 2 < 2 ^ k'" by simp
    with "1.IH" False k show ?thesis by (subst bit_len.simps) simp
  qed
qed

lemma double_of_exact: "n < 2 ^ 53 \<Longrightarrow> double_of n = Some n"
proof -
  assume n: "n < 2 ^ 53"
  then have "bit_len n - 53 = 0" using bit_len_bound [of n 53] by simp
  moreover have "(2::nat) ^ 53 < 2 ^ 1024" by (rule power_strict_increasing) simp_all
  with n have "n < 2 ^ 1024" by (rule less_trans)
  ultimately show ?thesis by (simp add: double_of_def)
qed

text \<open>A safe integer is represented exactly.\<close>

lemma num_of_safe [simp]: "\<bar>i\<bar> < 2 ^ 53 \<Longrightarrow> num_of i = Num i"
  by (simp add: num_of_def double_of_exact nat_less_iff sgn_mult_abs)

lemma num_of_not_NaN [simp]: "num_of i \<noteq> NaN"
  by (auto simp: num_of_def split: option.splits)

lemma num_of_nonneg: "0 \<le> i \<Longrightarrow> num_of i = PosInf \<or> (\<exists>m. num_of i = Num (int m))"
  by (cases "i = 0") (auto simp: num_of_def split: option.splits)

section \<open>Operators\<close>

fun isNaN :: "jsnum \<Rightarrow> bool" where
  "isNaN NaN = True"
| "isNaN _ = False"

text \<open>\<open>a < b\<close>: false when one side is \<open>NaN\<close>.\<close>

fun num_less :: "jsnum \<Rightarrow> jsnum \<Rightarrow> bool" where
  "num_less (Num a) (Num b) = (a < b)"
| "num_less NegInf (Num b) = True"
| "num_less NegInf PosInf = True"
| "num_less (Num a) PosInf = True"
| "num_less _ _ = False"

definition num_le :: "jsnum \<Rightarrow> jsnum \<Rightarrow> bool" where
  "num_le a b \<longleftrightarrow> \<not> isNaN a \<and> \<not> isNaN b \<and> \<not> num_less b a"

definition num_eq :: "jsnum \<Rightarrow> jsnum \<Rightarrow> bool" where
  "num_eq a b \<longleftrightarrow> a = b \<and> a \<noteq> NaN"

text \<open>\<open>Boolean(a)\<close>.\<close>

definition truthy_num :: "jsnum \<Rightarrow> bool" where
  "truthy_num a \<longleftrightarrow> a \<noteq> NaN \<and> a \<noteq> Num 0"

definition num_min :: "jsnum \<Rightarrow> jsnum \<Rightarrow> jsnum" where
  "num_min a b = (if isNaN a \<or> isNaN b then NaN else if num_less b a then b else a)"

fun num_mul :: "jsnum \<Rightarrow> jsnum \<Rightarrow> jsnum" where
  "num_mul NaN _ = NaN"
| "num_mul _ NaN = NaN"
| "num_mul (Num a) (Num b) = num_of (a * b)"
| "num_mul (Num a) PosInf = (if a = 0 then NaN else if 0 < a then PosInf else NegInf)"
| "num_mul (Num a) NegInf = (if a = 0 then NaN else if 0 < a then NegInf else PosInf)"
| "num_mul PosInf (Num b) = (if b = 0 then NaN else if 0 < b then PosInf else NegInf)"
| "num_mul NegInf (Num b) = (if b = 0 then NaN else if 0 < b then NegInf else PosInf)"
| "num_mul PosInf PosInf = PosInf"
| "num_mul PosInf NegInf = NegInf"
| "num_mul NegInf PosInf = NegInf"
| "num_mul NegInf NegInf = PosInf"

fun num_add :: "jsnum \<Rightarrow> jsnum \<Rightarrow> jsnum" where
  "num_add NaN _ = NaN"
| "num_add _ NaN = NaN"
| "num_add (Num a) (Num b) = num_of (a + b)"
| "num_add PosInf NegInf = NaN"
| "num_add NegInf PosInf = NaN"
| "num_add PosInf _ = PosInf"
| "num_add _ PosInf = PosInf"
| "num_add NegInf _ = NegInf"
| "num_add _ NegInf = NegInf"

text \<open>
  \<open>Math.ceil(a / b)\<close> for whole \<open>0 \<le> a < 2 ^ 53\<close> and \<open>0 < b\<close>. The quotient rounded to a double
  is a whole number only when \<open>b\<close> divides \<open>a\<close> (a quotient that is no whole number is at least
  \<open>1 / b\<close> away from one, more than half a unit in its last place), so its ceiling is the exact one.
\<close>

definition ceil_div :: "int \<Rightarrow> int \<Rightarrow> int" where
  "ceil_div a b = - ((- a) div b)"

lemma ceil_div_bounds:
  assumes "0 < b"
  shows "a \<le> ceil_div a b * b" and "(ceil_div a b - 1) * b < a"
proof -
  have "(- a) div b * b \<le> - a" and "- a < ((- a) div b + 1) * b"
    using assms by (simp_all add: div_mult_mod_eq minus_mod_eq_div_mult [symmetric]
        algebra_simps mult_div_mod_eq [symmetric] pos_mod_bound pos_mod_sign)
      (smt (verit) pos_mod_sign pos_mod_bound div_mult_mod_eq mult.commute)+
  then show "a \<le> ceil_div a b * b" and "(ceil_div a b - 1) * b < a"
    by (simp_all add: ceil_div_def algebra_simps)
qed

lemma ceil_div_pos: "0 < b \<Longrightarrow> 0 < a \<Longrightarrow> 1 \<le> ceil_div a b"
  using ceil_div_bounds(1) [of b a] by (smt (verit) mult_nonneg_nonpos2 zero_less_mult_iff)

lemma ceil_div_0 [simp]: "ceil_div 0 b = 0"
  by (simp add: ceil_div_def)

section \<open>Numerals\<close>

definition digit_char :: "nat \<Rightarrow> char" where
  "digit_char d = char_of (if d < 10 then 48 + d else 87 + d)"

definition digit_val :: "char \<Rightarrow> nat" where
  "digit_val c =
     (if is_digit c then code c - 48
      else if is_lower c then code c - 87
      else if is_upper c then code c - 55 else 36)"

definition is_numeral :: "nat \<Rightarrow> char \<Rightarrow> bool" where
  "is_numeral b c \<longleftrightarrow> digit_val c < b"

definition read_base :: "nat \<Rightarrow> string \<Rightarrow> nat" where
  "read_base b s = foldl (\<lambda>n c. n * b + digit_val c) 0 s"

function show_base :: "nat \<Rightarrow> nat \<Rightarrow> string" where
  "show_base b n =
     (if n < b \<or> b < 2 then [digit_char n] else show_base b (n div b) @ [digit_char (n mod b)])"
  by pat_completeness auto
termination
  by (relation "measure snd") auto

declare show_base.simps [simp del]

text \<open>\<open>n.toString()\<close> for a natural number and for an integer.\<close>

abbreviation show_nat :: "nat \<Rightarrow> string" where
  "show_nat n \<equiv> show_base 10 n"

definition show_int :: "int \<Rightarrow> string" where
  "show_int i = (if i < 0 then ''-'' @ show_nat (nat (- i)) else show_nat (nat i))"

lemma digit_val_char: "d < 36 \<Longrightarrow> digit_val (digit_char d) = d"
  by (auto simp: digit_val_def digit_char_def char_class_defs)

lemma is_numeral_digit_char: "d < b \<Longrightarrow> b \<le> 36 \<Longrightarrow> is_numeral b (digit_char d)"
  by (simp add: is_numeral_def digit_val_char)

lemma is_numeral_10 [simp]: "is_numeral 10 = is_digit"
  by (rule ext) (auto simp: is_numeral_def digit_val_def char_class_defs)

lemma is_numeral_16 [simp]: "is_numeral 16 = is_hex"
  by (rule ext) (auto simp: is_numeral_def digit_val_def char_class_defs)

lemma digit_char_0 [simp]: "digit_char 0 = CHR ''0''"
  by (simp add: code_inject [symmetric] digit_char_def) (simp add: code_def)

lemma read_base_snoc [simp]: "read_base b (s @ [c]) = read_base b s * b + digit_val c"
  by (simp add: read_base_def)

lemma read_base_Nil [simp]: "read_base b [] = 0"
  by (simp add: read_base_def)

lemma foldl_read: "foldl (\<lambda>n c. n * b + digit_val c) k s = k * b ^ length s + read_base b s"
proof (induction s rule: rev_induct)
  case Nil
  show ?case by simp
next
  case (snoc c s)
  then show ?case by (simp add: read_base_def algebra_simps)
qed

lemma read_base_append: "read_base b (s @ t) = read_base b s * b ^ length t + read_base b t"
  unfolding read_base_def [of b "s @ t"] foldl_append foldl_read [of b _ t]
  by (simp add: read_base_def [of b s])

lemma read_base_Cons: "read_base b (c # s) = digit_val c * b ^ length s + read_base b s"
  using read_base_append [of b "[c]" s] by (simp add: read_base_def)

lemma read_base_zero: "read_base b (CHR ''0'' # s) = read_base b s"
  by (simp add: read_base_Cons digit_val_def char_class_defs code_def)

lemma read_show_base: "2 \<le> b \<Longrightarrow> b \<le> 36 \<Longrightarrow> read_base b (show_base b n) = n"
proof (induction b n rule: show_base.induct)
  case (1 b n)
  show ?case
  proof (cases "n < b")
    case True
    with "1.prems" show ?thesis
      by (subst show_base.simps) (simp add: read_base_Cons digit_val_char)
  next
    case False
    from "1.prems" have "n mod b < 36" by (intro order.strict_trans2 [OF mod_less_divisor]) simp_all
    with "1" False show ?thesis
      by (subst show_base.simps) (simp add: digit_val_char)
  qed
qed

lemma show_base_numeral: "2 \<le> b \<Longrightarrow> b \<le> 36 \<Longrightarrow> list_all (is_numeral b) (show_base b n)"
proof (induction b n rule: show_base.induct)
  case (1 b n)
  then show ?case
    by (subst show_base.simps) (auto simp: is_numeral_digit_char)
qed

lemma show_base_nonempty [simp]: "show_base b n \<noteq> []"
  by (subst show_base.simps) simp

lemma show_nat_digits [simp]: "list_all is_digit (show_nat n)"
  using show_base_numeral [of 10 n] by simp

lemma read_show_nat [simp]: "read_base 10 (show_nat n) = n"
  by (simp add: read_show_base)

lemma read_base_bound: "list_all (is_numeral b) s \<Longrightarrow> read_base b s < b ^ length s"
proof (induction s rule: rev_induct)
  case Nil
  show ?case by simp
next
  case (snoc c s)
  then have "read_base b s + 1 \<le> b ^ length s" and "digit_val c < b"
    by (auto simp: is_numeral_def)
  then have "(read_base b s + 1) * b \<le> b ^ length s * b" by (intro mult_le_mono1)
  with \<open>digit_val c < b\<close> show ?case by (simp add: algebra_simps)
qed

text \<open>A numeral without a leading zero is what \<open>toString\<close> writes for its value.\<close>

lemma show_read_base:
  assumes "2 \<le> b" and "b \<le> 10" and "list_all (is_numeral b) s" and "s \<noteq> []"
    and "hd s \<noteq> CHR ''0'' \<or> length s = 1"
  shows "show_base b (read_base b s) = s"
  using assms(3-)
proof (induction s rule: rev_induct)
  case Nil
  then show ?case by simp
next
  case (snoc c s)
  have dc: "digit_char (digit_val x) = x" if "is_numeral b x" for x
    using that assms(2)
    by (auto simp: is_numeral_def digit_val_def digit_char_def char_class_defs code_def
        split: if_splits)
  show ?case
  proof (cases "s = []")
    case True
    with snoc.prems have "is_numeral b c" by simp
    with True dc show ?thesis
      by (subst show_base.simps) (simp add: is_numeral_def read_base_Cons)
  next
    case False
    then obtain x t where s: "s = x # t" by (cases s) auto
    with snoc.prems False have x: "x \<noteq> CHR ''0''" "is_numeral b x" by auto
    have "digit_val x \<noteq> 0"
    proof
      assume "digit_val x = 0"
      then have "digit_char (digit_val x) = CHR ''0''" by simp
      with dc [OF x(2)] x(1) show False by simp
    qed
    then have "1 \<le> digit_val x * b ^ length t" using assms(1) by (simp add: Suc_le_eq)
    then have pos: "1 \<le> read_base b s" unfolding s read_base_Cons by (rule trans_le_add1)
    from snoc.prems have c: "digit_val c < b" "is_numeral b c" by (auto simp: is_numeral_def)
    from pos have "1 * b \<le> read_base b s * b" by (rule mult_le_mono1)
    then have ge: "\<not> read_base b s * b + digit_val c < b" by linarith
    have "(read_base b s * b + digit_val c) div b = read_base b s"
      using c(1) assms(1) by simp
    moreover have "show_base b (read_base b s) = s"
      using snoc.IH snoc.prems False x s by auto
    ultimately show ?thesis
      using ge c dc assms(1) by (subst show_base.simps) simp
  qed
qed

section \<open>Conversions from strings\<close>

text \<open>\<open>parseInt(s)\<close> without a radix.\<close>

definition parseInt :: "string \<Rightarrow> jsnum" where
  "parseInt s =
     (let t = dropWhile is_space s;
          neg = startsWith t ''-'';
          u = (if neg \<or> startsWith t ''+'' then drop 1 t else t);
          hex = startsWith u ''0x'' \<or> startsWith u ''0X'';
          b = (if hex then 16 else 10);
          ds = takeWhile (is_numeral b) (if hex then drop 2 u else u)
      in if ds = [] then NaN
         else num_of ((if neg then -1 else 1) * int (read_base b ds)))"

lemma parseInt_digits:
  assumes "s \<noteq> []" and "list_all is_digit s"
  shows "parseInt s = num_of (int (read_base 10 s))"
proof -
  obtain c t where s: "s = c # t" and c: "is_digit c" using assms by (cases s) auto
  then have sp: "dropWhile is_space s = s"
    and sign: "startsWith s ''-'' = False" "startsWith s ''+'' = False"
    by (auto simp: startsWith_def char_class_defs code_def)
  have hex: "startsWith s ''0x'' = False" "startsWith s ''0X'' = False"
    using assms(2) by (auto simp: startsWith_iff char_class_defs code_def)
  have all: "takeWhile is_digit s = s"
    using assms(2) by (rule takeWhile_all)
  show ?thesis
    unfolding parseInt_def Let_def sp sign hex using assms(1) by (simp add: all hex)
qed

text \<open>
  \<open>BigInt(s)\<close> for a string: surrounding white space is ignored, the empty string is 0, a literal
  is decimal or has a prefix; anything else throws a \<open>SyntaxError\<close>.
\<close>

definition prefixed :: "char \<Rightarrow> string \<Rightarrow> bool" where
  "prefixed c s \<longleftrightarrow> startsWith s [CHR ''0'', c]"

definition parse_radix :: "nat \<Rightarrow> string \<Rightarrow> nat option" where
  "parse_radix b ds =
     (if ds \<noteq> [] \<and> list_all (is_numeral b) ds then Some (read_base b ds) else None)"

definition toBigInt :: "string \<Rightarrow> int result" where
  "toBigInt s =
     (let t = trim s in
      if t = [] then Inr 0
      else if prefixed CHR ''x'' t \<or> prefixed CHR ''X'' t
        then of_opt SyntaxError (map_option int (parse_radix 16 (drop 2 t)))
      else if prefixed CHR ''o'' t \<or> prefixed CHR ''O'' t
        then of_opt SyntaxError (map_option int (parse_radix 8 (drop 2 t)))
      else if prefixed CHR ''b'' t \<or> prefixed CHR ''B'' t
        then of_opt SyntaxError (map_option int (parse_radix 2 (drop 2 t)))
      else if startsWith t ''-''
        then of_opt SyntaxError (map_option (\<lambda>n. - int n) (parse_radix 10 (drop 1 t)))
      else if startsWith t ''+''
        then of_opt SyntaxError (map_option int (parse_radix 10 (drop 1 t)))
      else of_opt SyntaxError (map_option int (parse_radix 10 t)))"

lemma toBigInt_hex:
  assumes "ds \<noteq> []" and "list_all is_hex ds"
  shows "toBigInt (''0x'' @ ds) = Inr (int (read_base 16 ds))"
proof -
  have "list_all (\<lambda>c. \<not> is_space c) (''0x'' @ ds)"
    using assms(2) by (auto simp: list_all_iff char_class_defs code_def)
  then have "trim (''0x'' @ ds) = ''0x'' @ ds" by (rule trim_no_space)
  with assms show ?thesis
    by (simp add: toBigInt_def prefixed_def startsWith_def parse_radix_def)
qed

text \<open>
  \<open>Number(s)\<close> on strings of letters and digits (the only strings the application converts, its
  block numbers): a decimal literal with an optional exponent, or a literal with a prefix.
\<close>

definition toNumber :: "string \<Rightarrow> jsnum" where
  "toNumber s =
     (let t = trim s;
          num = (\<lambda>x. case x of None \<Rightarrow> NaN | Some n \<Rightarrow> num_of (int n));
          ds = takeWhile is_digit t; rest = dropWhile is_digit t
      in if t = [] then Num 0
         else if prefixed CHR ''x'' t \<or> prefixed CHR ''X'' t then num (parse_radix 16 (drop 2 t))
         else if prefixed CHR ''o'' t \<or> prefixed CHR ''O'' t then num (parse_radix 8 (drop 2 t))
         else if prefixed CHR ''b'' t \<or> prefixed CHR ''B'' t then num (parse_radix 2 (drop 2 t))
         else if ds = [] then NaN
         else if rest = [] then num_of (int (read_base 10 ds))
         else if hd rest = CHR ''e'' \<or> hd rest = CHR ''E''
           then num (map_option (\<lambda>k. read_base 10 ds * 10 ^ k) (parse_radix 10 (tl rest)))
         else NaN)"

end
