(* ===== verification/JsSort.thy ===== *)
theory JsSort
  imports JsString "HOL-Library.Multiset"
begin

text \<open>
  \<open>Array.prototype.sort\<close>. The language promises a stable sort for a consistent comparison
  function; the model inserts each element after the ones that are not greater, as the engine's
  insertion sort of short arrays does. The interface \<open>comparator\<close> states what consistent means;
  inside it the result is shown to be sorted, stable, and the only list with these properties, so
  any other stable algorithm gives the same array. Interpretations follow for the default order
  (code units) here, and for each comparison function of the application where it is defined.
\<close>

fun insert_by :: "('a \<Rightarrow> 'a \<Rightarrow> int) \<Rightarrow> 'a \<Rightarrow> 'a list \<Rightarrow> 'a list" where
  "insert_by cmp x [] = [x]"
| "insert_by cmp x (y # ys) =
     (if cmp x y < 0 then x # y # ys else y # insert_by cmp x ys)"

definition js_sort :: "('a \<Rightarrow> 'a \<Rightarrow> int) \<Rightarrow> 'a list \<Rightarrow> 'a list" where
  "js_sort cmp xs = foldl (\<lambda>acc x. insert_by cmp x acc) [] xs"

lemma js_sort_Nil [simp]: "js_sort cmp [] = []"
  by (simp add: js_sort_def)

lemma js_sort_snoc [simp]: "js_sort cmp (xs @ [x]) = insert_by cmp x (js_sort cmp xs)"
  by (simp add: js_sort_def)

lemma mset_insert_by [simp]: "mset (insert_by cmp x ys) = add_mset x (mset ys)"
  by (induction ys) auto

lemma mset_js_sort [simp]: "mset (js_sort cmp xs) = mset xs"
  by (induction xs rule: rev_induct) auto

lemma set_js_sort [simp]: "set (js_sort cmp xs) = set xs"
  by (metis mset_js_sort set_mset_mset)

lemma length_js_sort [simp]: "length (js_sort cmp xs) = length xs"
  by (metis mset_js_sort size_mset)

lemma distinct_js_sort [simp]: "distinct (js_sort cmp xs) = distinct xs"
  by (metis mset_js_sort distinct_count_atmost_1 set_mset_mset)

lemma set_insert_by [simp]: "set (insert_by cmp x ys) = insert x (set ys)"
  by (metis mset_insert_by set_mset_add_mset_insert set_mset_mset)

lemma insert_by_cong:
  "(\<And>y. y \<in> set ys \<Longrightarrow> cmp x y = cmp' x y) \<Longrightarrow> insert_by cmp x ys = insert_by cmp' x ys"
  by (induction ys) auto

text \<open>The comparison of an element with itself is never asked for when there are no duplicates.\<close>

lemma js_sort_cong_distinct:
  assumes "distinct xs"
    and "\<And>x y. x \<in> set xs \<Longrightarrow> y \<in> set xs \<Longrightarrow> x \<noteq> y \<Longrightarrow> cmp x y = cmp' x y"
  shows "js_sort cmp xs = js_sort cmp' xs"
  using assms
proof (induction xs rule: rev_induct)
  case Nil
  show ?case by simp
next
  case (snoc x xs)
  have "js_sort cmp xs = js_sort cmp' xs" using snoc by simp
  moreover have "insert_by cmp x (js_sort cmp' xs) = insert_by cmp' x (js_sort cmp' xs)"
    using snoc.prems by (intro insert_by_cong) auto
  ultimately show ?case by simp
qed

lemma map_insert_by:
  "map f (insert_by (\<lambda>a b. cmp (f a) (f b)) x ys) = insert_by cmp (f x) (map f ys)"
  by (induction ys) auto

lemma map_js_sort: "map f (js_sort (\<lambda>a b. cmp (f a) (f b)) xs) = js_sort cmp (map f xs)"
  by (induction xs rule: rev_induct) (auto simp: map_insert_by)

section \<open>Consistent comparison functions\<close>

locale comparator =
  fixes cmp :: "'a \<Rightarrow> 'a \<Rightarrow> int"
  assumes less_swap: "cmp a b < 0 \<longleftrightarrow> 0 < cmp b a"
    and le_trans: "cmp a b \<le> 0 \<Longrightarrow> cmp b c \<le> 0 \<Longrightarrow> cmp a c \<le> 0"
begin

lemma refl [simp]: "cmp a a = 0"
  using less_swap [of a a] by linarith

lemma le_swap: "cmp a b \<le> 0 \<longleftrightarrow> 0 \<le> cmp b a"
  using less_swap [of b a] by linarith

lemma eq_swap: "cmp a b = 0 \<longleftrightarrow> cmp b a = 0"
  using less_swap [of a b] less_swap [of b a] by linarith

lemma eq_trans: "cmp a b = 0 \<Longrightarrow> cmp b c = 0 \<Longrightarrow> cmp a c = 0"
  by (metis eq_swap le_swap le_trans order_antisym order_refl)

lemma sorted_insert_by:
  "sorted_wrt (\<lambda>a b. cmp a b \<le> 0) ys \<Longrightarrow> sorted_wrt (\<lambda>a b. cmp a b \<le> 0) (insert_by cmp x ys)"
proof (induction ys)
  case Nil
  show ?case by simp
next
  case (Cons y ys)
  then show ?case
    using le_swap [of y x] less_swap [of x y] by (auto intro: le_trans [of x y])
qed

lemma sorted_js_sort: "sorted_wrt (\<lambda>a b. cmp a b \<le> 0) (js_sort cmp xs)"
  by (induction xs rule: rev_induct) (auto intro: sorted_insert_by)

lemma filter_insert_by:
  assumes "sorted_wrt (\<lambda>a b. cmp a b \<le> 0) ys"
  shows "filter (\<lambda>y. cmp z y = 0) (insert_by cmp x ys) =
    filter (\<lambda>y. cmp z y = 0) (ys @ [x])"
  using assms
proof (induction ys)
  case Nil
  show ?case by simp
next
  case (Cons y ys)
  show ?case
  proof (cases "cmp x y < 0")
    case True
    have "cmp z w \<noteq> 0" if z: "cmp z x = 0" and w: "w \<in> set (y # ys)" for w
    proof
      assume "cmp z w = 0"
      with z have "cmp x w = 0" by (meson eq_swap eq_trans)
      moreover have "cmp y w \<le> 0" using w Cons.prems by auto
      ultimately have "cmp y x \<le> 0" by (metis le_trans eq_swap order_refl)
      with True show False by (simp add: less_swap)
    qed
    then have "cmp z x = 0 \<Longrightarrow> filter (\<lambda>y. cmp z y = 0) (y # ys) = []"
      by (auto simp: filter_empty_conv)
    with True show ?thesis by (cases "cmp z x = 0") (auto split: if_splits)
  next
    case False
    with Cons show ?thesis by auto
  qed
qed

lemma stable_js_sort: "filter (\<lambda>y. cmp z y = 0) (js_sort cmp xs) = filter (\<lambda>y. cmp z y = 0) xs"
  by (induction xs rule: rev_induct) (auto simp: filter_insert_by sorted_js_sort)

lemma sorted_stable_unique:
  assumes "sorted_wrt (\<lambda>a b. cmp a b \<le> 0) ys" and "sorted_wrt (\<lambda>a b. cmp a b \<le> 0) zs"
    and "\<And>x. filter (\<lambda>y. cmp x y = 0) ys = filter (\<lambda>y. cmp x y = 0) zs"
  shows "ys = zs"
  using assms
proof (induction ys arbitrary: zs)
  case Nil
  show ?case
  proof (cases zs)
    case (Cons z zs')
    with Nil.prems(3) [of z] show ?thesis by simp
  qed simp
next
  case (Cons y ys)
  obtain z zs' where zs: "zs = z # zs'"
    using Cons.prems(3) [of y] by (cases zs) auto
  have "y \<in> set (filter (\<lambda>w. cmp y w = 0) (y # ys))" by simp
  then have "y \<in> set zs" unfolding Cons.prems(3) by simp
  moreover have "z \<in> set (filter (\<lambda>w. cmp z w = 0) zs)" by (simp add: zs)
  then have "z \<in> set (y # ys)" unfolding Cons.prems(3) [symmetric] by (simp only: set_filter mem_Collect_eq)
  ultimately have "cmp z y \<le> 0" "cmp y z \<le> 0"
    using Cons.prems(1,2) zs by auto
  then have "cmp y z = 0" using le_swap [of z y] by simp
  with Cons.prems(3) [of y] zs have yz: "y = z" by simp
  have "ys = zs'"
  proof (rule Cons.IH)
    show "sorted_wrt (\<lambda>a b. cmp a b \<le> 0) ys" "sorted_wrt (\<lambda>a b. cmp a b \<le> 0) zs'"
      using Cons.prems(1,2) zs by auto
    show "filter (\<lambda>y. cmp x y = 0) ys = filter (\<lambda>y. cmp x y = 0) zs'" for x
      using Cons.prems(3) [of x] zs yz by (auto split: if_splits)
  qed
  with zs yz show ?case by simp
qed

theorem js_sort_unique:
  assumes "sorted_wrt (\<lambda>a b. cmp a b \<le> 0) ys"
    and "\<And>x. filter (\<lambda>y. cmp x y = 0) ys = filter (\<lambda>y. cmp x y = 0) xs"
  shows "ys = js_sort cmp xs"
  by (rule sorted_stable_unique [OF assms(1) sorted_js_sort]) (simp only: assms(2) stable_js_sort)

end

text \<open>A comparison that tells all elements apart: the result depends on the elements only.\<close>

locale strict_comparator = comparator +
  assumes eq_imp: "cmp a b = 0 \<Longrightarrow> a = b"
begin

lemma js_sort_mset:
  assumes "mset xs = mset ys"
  shows "js_sort cmp xs = js_sort cmp ys"
proof (rule js_sort_unique [OF sorted_js_sort])
  fix x
  have e: "(\<lambda>y. cmp x y = 0) = (=) x"
    by (auto dest: eq_imp)
  have "filter ((=) x) zs = replicate (count (mset zs) x) x" for zs
    by (induction zs) auto
  then show "filter (\<lambda>y. cmp x y = 0) (js_sort cmp xs) = filter (\<lambda>y. cmp x y = 0) ys"
    unfolding e by (simp add: assms)
qed

end

section \<open>Comparisons made from others\<close>

text \<open>The elements with a flag first, ties left to another comparison.\<close>

definition flag_first :: "('a \<Rightarrow> bool) \<Rightarrow> ('a \<Rightarrow> 'a \<Rightarrow> int) \<Rightarrow> 'a \<Rightarrow> 'a \<Rightarrow> int" where
  "flag_first f cmp a b =
     (if f a \<and> \<not> f b then -1 else if f b \<and> \<not> f a then 1 else cmp a b)"

text \<open>
  Objects are compared by a key (a name, a number of tokens), possibly after a flag (being a
  favourite). Both are consistent when the comparison of the keys is.
\<close>

locale keyed = comparator base for base :: "'k \<Rightarrow> 'k \<Rightarrow> int" +
  fixes key :: "'a \<Rightarrow> 'k"

sublocale keyed \<subseteq> by_key: comparator "\<lambda>a b. base (key a) (key b)"
  by unfold_locales (rule less_swap, rule le_trans)

locale flagged = keyed base key for base :: "'k \<Rightarrow> 'k \<Rightarrow> int" and key :: "'a \<Rightarrow> 'k" +
  fixes flag :: "'a \<Rightarrow> bool"

sublocale flagged \<subseteq> by_flag: comparator "flag_first flag (\<lambda>a b. base (key a) (key b))"
proof
  show "flag_first flag (\<lambda>a b. base (key a) (key b)) a b < 0 \<longleftrightarrow>
      0 < flag_first flag (\<lambda>a b. base (key a) (key b)) b a" for a b
    using less_swap [of "key a" "key b"] by (simp add: flag_first_def)
  show "flag_first flag (\<lambda>a b. base (key a) (key b)) a c \<le> 0"
    if "flag_first flag (\<lambda>a b. base (key a) (key b)) a b \<le> 0"
      and "flag_first flag (\<lambda>a b. base (key a) (key b)) b c \<le> 0" for a b c
    using that le_trans [of "key a" "key b" "key c"]
    by (cases "flag a"; cases "flag b"; cases "flag c"; simp add: flag_first_def)
qed

context flagged
begin

text \<open>No element without the flag stands before one that has it.\<close>

lemma flags_first:
  "sorted_wrt (\<lambda>a b. flag b \<longrightarrow> flag a)
     (js_sort (flag_first flag (\<lambda>a b. base (key a) (key b))) xs)"
  by (rule sorted_wrt_mono_rel [OF _ by_flag.sorted_js_sort])
    (auto simp: flag_first_def split: if_splits)

end

section \<open>The default order\<close>

text \<open>\<open>xs.sort()\<close> on strings compares code units.\<close>

fun compare_units :: "string \<Rightarrow> string \<Rightarrow> int" where
  "compare_units [] [] = 0"
| "compare_units [] (d # t) = -1"
| "compare_units (c # s) [] = 1"
| "compare_units (c # s) (d # t) =
     (if code c < code d then -1 else if code d < code c then 1 else compare_units s t)"

lemma compare_units_swap: "compare_units a b = - compare_units b a"
  by (induction a b rule: compare_units.induct) auto

lemma compare_units_eq: "compare_units a b = 0 \<Longrightarrow> a = b"
  by (induction a b rule: compare_units.induct) (auto simp: code_inject split: if_splits)

lemma compare_units_trans:
  "compare_units a b \<le> 0 \<Longrightarrow> compare_units b c \<le> 0 \<Longrightarrow> compare_units a c \<le> 0"
proof (induction a b arbitrary: c rule: compare_units.induct)
  case 1
  then show ?case by simp
next
  case (2 d t)
  then show ?case by (cases c) auto
next
  case (3 x s)
  then show ?case by simp
next
  case (4 x s d t)
  show ?case
  proof (cases c)
    case Nil
    with "4.prems" show ?thesis by simp
  next
    case (Cons y u)
    with "4.prems" have "code x \<le> code d" "code d \<le> code y"
      by (auto split: if_splits)
    then consider "code x < code y" | "code x = code d" "code d = code y" by linarith
    then show ?thesis
    proof cases
      case 1
      with Cons show ?thesis by simp
    next
      case 2
      with "4.prems" Cons have "compare_units s t \<le> 0" "compare_units t u \<le> 0" by simp_all
      with "4.IH" 2 have "compare_units s u \<le> 0" by simp
      with Cons 2 show ?thesis by simp
    qed
  qed
qed

interpretation units: strict_comparator compare_units
proof
  show "compare_units a b < 0 \<longleftrightarrow> 0 < compare_units b a" for a b
    by (simp add: compare_units_swap [of a b])
  show "compare_units a b \<le> 0 \<Longrightarrow> compare_units b c \<le> 0 \<Longrightarrow> compare_units a c \<le> 0" for a b c
    by (rule compare_units_trans)
  show "compare_units a b = 0 \<Longrightarrow> a = b" for a b
    by (rule compare_units_eq)
qed

definition sort_default :: "string list \<Rightarrow> string list" where
  "sort_default xs = js_sort compare_units xs"

lemma sort_default_mset: "mset xs = mset ys \<Longrightarrow> sort_default xs = sort_default ys"
  unfolding sort_default_def by (rule units.js_sort_mset)

section \<open>Differences of numbers\<close>

text \<open>The comparison functions \<open>(a, b) => a - b\<close> and \<open>(a, b) => b - a\<close>.\<close>

interpretation int_diff: strict_comparator "\<lambda>a b. a - b :: int"
  by unfold_locales auto

interpretation int_desc: strict_comparator "\<lambda>a b. b - a :: int"
  by unfold_locales auto

end
