(* ===== verification/JsObject.thy ===== *)
theory JsObject
  imports Prelude "HOL-Library.AList"
begin

text \<open>
  Plain objects used as dictionaries, and \<open>Map\<close>s: the properties in the order in which they were
  added. Writing a present key keeps its place. (Keys that are canonical array indices would be
  enumerated first; denoms, addresses and chain ids are not of that form, and where numeric keys
  occur, in the proposals of a page, the order of enumeration is not used.)
\<close>

type_synonym 'v obj = "(string \<times> 'v) list"

abbreviation obj_get :: "('k \<times> 'v) list \<Rightarrow> 'k \<Rightarrow> 'v option" where
  "obj_get \<equiv> map_of"

abbreviation obj_set :: "'k \<Rightarrow> 'v \<Rightarrow> ('k \<times> 'v) list \<Rightarrow> ('k \<times> 'v) list" where
  "obj_set \<equiv> AList.update"

definition obj_keys :: "('k \<times> 'v) list \<Rightarrow> 'k list" where
  "obj_keys m = map fst m"

definition obj_values :: "('k \<times> 'v) list \<Rightarrow> 'v list" where
  "obj_values m = map snd m"

text \<open>Every object has each key once.\<close>

definition obj_wf :: "('k \<times> 'v) list \<Rightarrow> bool" where
  "obj_wf m \<longleftrightarrow> distinct (map fst m)"

text \<open>Copying the entries of \<open>b\<close> into \<open>a\<close>, one after the other.\<close>

definition obj_assign :: "('k \<times> 'v) list \<Rightarrow> ('k \<times> 'v) list \<Rightarrow> ('k \<times> 'v) list" where
  "obj_assign a b = foldl (\<lambda>m (k, v). obj_set k v m) a b"

lemma obj_get_set [simp]: "obj_get (obj_set k v m) = (obj_get m)(k \<mapsto> v)"
  by (rule update_conv')

lemma obj_wf_Nil [simp]: "obj_wf []"
  by (simp add: obj_wf_def)

lemma obj_wf_set [simp]: "obj_wf m \<Longrightarrow> obj_wf (obj_set k v m)"
  by (simp add: obj_wf_def distinct_update)

lemma set_obj_keys [simp]: "set (obj_keys m) = dom (obj_get m)"
  by (simp add: obj_keys_def dom_map_of_conv_image_fst)

lemma obj_wf_assign: "obj_wf a \<Longrightarrow> obj_wf (obj_assign a b)"
  by (induction b arbitrary: a) (auto simp: obj_assign_def)

lemma obj_assign_Nil [simp]: "obj_assign a [] = a"
  by (simp add: obj_assign_def)

lemma obj_assign_Cons [simp]: "obj_assign a ((k, v) # b) = obj_assign (obj_set k v a) b"
  by (simp add: obj_assign_def)

lemma obj_assign_append: "obj_assign a (b @ c) = obj_assign (obj_assign a b) c"
  by (simp add: obj_assign_def)

lemma obj_get_assign: "obj_wf b \<Longrightarrow> obj_get (obj_assign a b) = obj_get a ++ obj_get b"
proof (induction b arbitrary: a)
  case Nil
  show ?case by simp
next
  case (Cons e b)
  obtain k v where e: "e = (k, v)" by force
  from Cons.prems have "obj_wf b" and k: "k \<notin> dom (obj_get b)"
    by (auto simp: obj_wf_def e dom_map_of_conv_image_fst)
  with Cons.IH [of "obj_set k v a"] show ?case
    by (auto simp: e map_add_def fun_eq_iff split: option.splits)
qed

lemma obj_get_in: "obj_get m k = Some v \<Longrightarrow> (k, v) \<in> set m"
  by (rule map_of_SomeD)

lemma obj_get_wf: "obj_wf m \<Longrightarrow> obj_get m k = Some v \<longleftrightarrow> (k, v) \<in> set m"
  unfolding obj_wf_def by (rule map_of_eq_Some_iff)

section \<open>The interface of a key-value store\<close>

text \<open>
  What the application asks of a store it writes by key: objects and \<open>Map\<close>s here, the browser's
  local storage in the rollapp component. Building a store from a list of items keeps the last
  item of each key.
\<close>

locale kv_store =
  fixes get :: "'s \<Rightarrow> 'k \<Rightarrow> 'v option"
    and put :: "'k \<Rightarrow> 'v \<Rightarrow> 's \<Rightarrow> 's"
    and empty :: "'s"
  assumes get_empty: "get empty k = None"
    and get_put: "get (put k v s) k' = (if k' = k then Some v else get s k')"
begin

lemma get_foldl:
  "get (foldl (\<lambda>m x. put (key x) (val x) m) s xs) k =
     (case List.find (\<lambda>x. key x = k) (rev xs) of None \<Rightarrow> get s k | Some x \<Rightarrow> Some (val x))"
proof (induction xs rule: rev_induct)
  case Nil
  show ?case by simp
next
  case (snoc x xs)
  then show ?case by (auto simp: get_put)
qed

lemma get_build_Some:
  assumes "get (foldl (\<lambda>m x. put (key x) (val x) m) empty xs) k = Some v"
  shows "\<exists>x\<in>set xs. key x = k \<and> val x = v"
proof -
  from assms obtain x where "List.find (\<lambda>x. key x = k) (rev xs) = Some x" and v: "val x = v"
    by (auto simp: get_foldl get_empty split: option.splits)
  with find_Some_in [OF this(1)] show ?thesis by auto
qed

lemma get_build_None:
  "get (foldl (\<lambda>m x. put (key x) (val x) m) empty xs) k = None \<longleftrightarrow> (\<forall>x\<in>set xs. key x \<noteq> k)"
proof -
  have "get (foldl (\<lambda>m x. put (key x) (val x) m) empty xs) k = None \<longleftrightarrow>
      List.find (\<lambda>x. key x = k) (rev xs) = None"
    by (auto simp: get_foldl get_empty split: option.splits)
  then show ?thesis by (auto simp: find_None_iff)
qed

lemma get_build_distinct:
  assumes "distinct (map key xs)" and "x \<in> set xs"
  shows "get (foldl (\<lambda>m x. put (key x) (val x) m) empty xs) (key x) = Some (val x)"
proof -
  have "List.find (\<lambda>y. key y = key x) (rev xs) = Some x"
    using assms by (intro find_unique) (auto simp: distinct_map inj_on_def)
  then show ?thesis by (simp add: get_foldl)
qed

end

interpretation obj: kv_store obj_get obj_set "[]"
  by unfold_locales auto

end
