(* ===== verification/Settings.thy ===== *)
theory Settings
  imports JsString
begin

text \<open>
  The constants of \<open>web-app/src/consts\<close>: page sizes and parameter names, the kinds of chain, the
  paths of the application with their breadcrumb names, the statuses of a proposal, the tabs of
  the address page, the modules with parameters, the theme modes and the store's action names.
\<close>

section \<open>Settings\<close>

definition ADDRESS_SUMMARY_COINS_PAGE_SIZE :: nat where
  [cfg_defs]: "ADDRESS_SUMMARY_COINS_PAGE_SIZE = 10"

definition DEFAULT_PAGINATION_SIZE :: nat where
  [cfg_defs]: "DEFAULT_PAGINATION_SIZE = 25"

definition MAX_PAGINATION_SIZE :: nat where
  [cfg_defs]: "MAX_PAGINATION_SIZE = 100"

definition PAGE_SIZE_PARAM_NAME :: string where
  [cfg_defs]: "PAGE_SIZE_PARAM_NAME = ''ps''"

definition PAGE_PARAM_NAME :: string where
  [cfg_defs]: "PAGE_PARAM_NAME = ''p''"

definition DEFAULT_CACHE_DURATION :: nat where
  [cfg_defs]: "DEFAULT_CACHE_DURATION = 10"

text \<open>The string enumerations are datatypes with the text of each member.\<close>

datatype ChainType = EVM | WASM

fun ChainType_text :: "ChainType \<Rightarrow> string" where
  "ChainType_text EVM = ''evm''"
| "ChainType_text WASM = ''wasm''"

section \<open>Paths\<close>

datatype Path = OVERVIEW | BLOCKS | BLOCK | TRANSACTIONS | TRANSACTION | ADDRESS | VALIDATORS
  | PROPOSALS | PROPOSAL | PARAMS

fun Path_text :: "Path \<Rightarrow> string" where
  "Path_text OVERVIEW = ''/''"
| "Path_text BLOCKS = ''/blocks''"
| "Path_text BLOCK = ''/block''"
| "Path_text TRANSACTIONS = ''/txs''"
| "Path_text TRANSACTION = ''/tx''"
| "Path_text ADDRESS = ''/address''"
| "Path_text VALIDATORS = ''/governors''"
| "Path_text PROPOSALS = ''/proposals''"
| "Path_text PROPOSAL = ''/proposal''"
| "Path_text PARAMS = ''/params''"

fun BreadcrumbName :: "Path \<Rightarrow> string" where
  "BreadcrumbName OVERVIEW = ''Overview''"
| "BreadcrumbName BLOCKS = ''Blocks''"
| "BreadcrumbName BLOCK = ''Blocks''"
| "BreadcrumbName TRANSACTIONS = ''Transactions''"
| "BreadcrumbName TRANSACTION = ''Transactions''"
| "BreadcrumbName ADDRESS = ''Address''"
| "BreadcrumbName VALIDATORS = ''Governors''"
| "BreadcrumbName PROPOSALS = ''Proposals''"
| "BreadcrumbName PROPOSAL = ''Proposal''"
| "BreadcrumbName PARAMS = ''Params''"

definition all_paths :: "Path list" where
  "all_paths = [OVERVIEW, BLOCKS, BLOCK, TRANSACTIONS, TRANSACTION, ADDRESS, VALIDATORS, PROPOSALS,
     PROPOSAL, PARAMS]"

text \<open>\<open>BreadcrumbName[text as Path]\<close>: \<open>undefined\<close> for any other text.\<close>

definition breadcrumb_of :: "string \<Rightarrow> string option" where
  "breadcrumb_of t = map_option BreadcrumbName (List.find (\<lambda>p. Path_text p = t) all_paths)"

lemma all_paths_complete: "p \<in> set all_paths"
  by (cases p) (simp_all add: all_paths_def)

lemma Path_text_inject: "Path_text p = Path_text q \<longleftrightarrow> p = q"
  by (cases p; cases q; simp)

lemma breadcrumb_of_text [simp]: "breadcrumb_of (Path_text p) = Some (BreadcrumbName p)"
proof -
  have "List.find (\<lambda>q. Path_text q = Path_text p) all_paths = Some p"
    by (rule find_unique) (auto simp: all_paths_complete Path_text_inject)
  then show ?thesis by (simp add: breadcrumb_of_def)
qed

section \<open>Proposals\<close>

datatype ProposalStatus =
    PROPOSAL_STATUS_UNSPECIFIED
  | PROPOSAL_STATUS_DEPOSIT_PERIOD
  | PROPOSAL_STATUS_VOTING_PERIOD
  | PROPOSAL_STATUS_PASSED
  | PROPOSAL_STATUS_REJECTED
  | PROPOSAL_STATUS_FAILED
  | UNRECOGNIZED

fun ProposalStatus_text :: "ProposalStatus \<Rightarrow> string" where
  "ProposalStatus_text PROPOSAL_STATUS_UNSPECIFIED = ''PROPOSAL_STATUS_UNSPECIFIED''"
| "ProposalStatus_text PROPOSAL_STATUS_DEPOSIT_PERIOD = ''PROPOSAL_STATUS_DEPOSIT_PERIOD''"
| "ProposalStatus_text PROPOSAL_STATUS_VOTING_PERIOD = ''PROPOSAL_STATUS_VOTING_PERIOD''"
| "ProposalStatus_text PROPOSAL_STATUS_PASSED = ''PROPOSAL_STATUS_PASSED''"
| "ProposalStatus_text PROPOSAL_STATUS_REJECTED = ''PROPOSAL_STATUS_REJECTED''"
| "ProposalStatus_text PROPOSAL_STATUS_FAILED = ''PROPOSAL_STATUS_FAILED''"
| "ProposalStatus_text UNRECOGNIZED = ''UNRECOGNIZED''"

fun PROPOSAL_STATUS_DISPLAY :: "ProposalStatus \<Rightarrow> string" where
  "PROPOSAL_STATUS_DISPLAY PROPOSAL_STATUS_UNSPECIFIED = ''Unspecified''"
| "PROPOSAL_STATUS_DISPLAY PROPOSAL_STATUS_DEPOSIT_PERIOD = ''Depositing Period''"
| "PROPOSAL_STATUS_DISPLAY PROPOSAL_STATUS_VOTING_PERIOD = ''Voting Period''"
| "PROPOSAL_STATUS_DISPLAY PROPOSAL_STATUS_PASSED = ''Passed''"
| "PROPOSAL_STATUS_DISPLAY PROPOSAL_STATUS_REJECTED = ''Rejected''"
| "PROPOSAL_STATUS_DISPLAY PROPOSAL_STATUS_FAILED = ''Failed''"
| "PROPOSAL_STATUS_DISPLAY UNRECOGNIZED = ''Unrecognized''"

definition all_statuses :: "ProposalStatus list" where
  "all_statuses = [PROPOSAL_STATUS_UNSPECIFIED, PROPOSAL_STATUS_DEPOSIT_PERIOD,
     PROPOSAL_STATUS_VOTING_PERIOD, PROPOSAL_STATUS_PASSED, PROPOSAL_STATUS_REJECTED,
     PROPOSAL_STATUS_FAILED, UNRECOGNIZED]"

text \<open>A status arrives as a text; this is the member it is equal to.\<close>

definition status_of :: "string \<Rightarrow> ProposalStatus option" where
  "status_of t = List.find (\<lambda>p. ProposalStatus_text p = t) all_statuses"

lemma all_statuses_complete: "p \<in> set all_statuses"
  by (cases p) (simp_all add: all_statuses_def)

lemma ProposalStatus_text_inject: "ProposalStatus_text p = ProposalStatus_text q \<longleftrightarrow> p = q"
  by (cases p; cases q; simp)

lemma status_of_text [simp]: "status_of (ProposalStatus_text p) = Some p"
  unfolding status_of_def
  by (rule find_unique) (auto simp: all_statuses_complete ProposalStatus_text_inject)

lemma status_of_Some: "status_of t = Some p \<longleftrightarrow> t = ProposalStatus_text p"
  by (auto simp: status_of_def dest!: find_Some_in) (simp add: status_of_def [symmetric])

section \<open>The address page\<close>

datatype AddressTransactionType = TRANSACTIONS_TAB | SENT_TRANSACTIONS | ERC20_TRANSFER_TAB
  | NFT_TRANSFER

fun AddressTransactionType_text :: "AddressTransactionType \<Rightarrow> string" where
  "AddressTransactionType_text TRANSACTIONS_TAB = ''''"
| "AddressTransactionType_text SENT_TRANSACTIONS = ''senttxs''"
| "AddressTransactionType_text ERC20_TRANSFER_TAB = ''tokentransfers''"
| "AddressTransactionType_text NFT_TRANSFER = ''nfttransfers''"

definition IBC_COIN_PREFIX :: string where
  [cfg_defs]: "IBC_COIN_PREFIX = ''ibc/''"

definition DYM_ADDRESS_PREFIX :: string where
  [cfg_defs]: "DYM_ADDRESS_PREFIX = ''dym1''"

section \<open>Modules, theme, actions\<close>

definition MODULES :: "string list" where
  [cfg_defs]: "MODULES = [''auth'', ''bank'', ''distribution'', ''erc20'', ''evm'', ''gov'',
     ''hub-genesis'', ''ibc-transfer'', ''mint'', ''sequencers'', ''staking'']"

datatype ThemeMode = LIGHT | DARK

fun ThemeMode_text :: "ThemeMode \<Rightarrow> string" where
  "ThemeMode_text LIGHT = ''light''"
| "ThemeMode_text DARK = ''dark''"

definition THEME_COOKIE_NAME :: string where
  [cfg_defs]: "THEME_COOKIE_NAME = ''theme''"

datatype RollappActionTypes =
    POPULATE_CHAIN_DATA_BY_PATHNAME
  | UPDATE_DENOMS_METADATA
  | RE_ORDER_ROLLAPPS

end
