(* ===== verification/RpcTypes.thy ===== *)
theory RpcTypes
  imports JsNumber JsObject
begin

text \<open>
  The data the application receives over JSON-RPC: one record per interface of
  \<open>web-app/src/consts/rpcResTypes.ts\<close>, with the interface's fields in its order. A field that may be
  missing is an \<open>option\<close>; the field \<open>logs\<close> of a receipt is declared as an array but the code also
  meets \<open>null\<close> there, so it is an \<open>option\<close> too. A dictionary is an \<open>obj\<close>. A field of type
  \<open>any\<close> is a JSON value. Counters, heights and times are whole numbers (\<open>int\<close>).
\<close>

datatype json =
    JNull
  | JBool bool
  | JNumber int
  | JString string
  | JArray "json list"
  | JObject "(string \<times> json) list"

section \<open>Responses\<close>

record rpcError =
  rpc_code :: int
  rpc_message :: string

record 'r rpcResponse =
  rr_jsonrpc :: string
  rr_id :: int
  rr_result :: "'r option"
  rr_error :: "rpcError option"

section \<open>Chain and blocks\<close>

record bech32Prefixes =
  b32_addr :: string
  b32_cons :: string
  b32_val :: string

record fee =
  fee_amount :: "string obj"
  fee_gasLimit :: int

record chainInfo =
  ci_bech32 :: bech32Prefixes
  ci_chainId :: string
  ci_chainType :: string
  ci_denoms :: "string obj"
  ci_latestBlock :: int
  ci_latestBlockTimeEpochUTC :: int

record latestBlockNumber =
  lb_latestBlock :: int
  lb_latestBlockTimeEpochUTC :: int

record evmTxBrief =
  etb_action :: string
  etb_sig :: string

record transactionInBlock =
  tib_code :: int
  tib_fee :: fee
  tib_gasLimit :: int
  tib_gasUsed :: int
  tib_hash :: string
  tib_messages :: "string list"
  tib_type :: string
  tib_evmTx :: "evmTxBrief option"

record proposer =
  pr_consensusAddress :: string
  pr_moniker :: string

record block =
  bl_hash :: string
  bl_height :: int
  bl_timeEpochUTC :: int
  bl_txs :: "transactionInBlock list"
  bl_proposer :: "proposer option"

record recentBlock =
  rb_hash :: string
  rb_height :: int
  rb_timeEpochUTC :: int
  rb_txsCount :: int
  rb_proposer :: "proposer option"

record recentBlocks =
  rbs_blocks :: "recentBlock list"
  rbs_latestBlock :: int
  rbs_latestBlockTimeEpochUTC :: int
  rbs_pageNumber :: int
  rbs_pageSize :: int

section \<open>Transactions\<close>

record transactionGas =
  gas_limit :: int
  gas_used :: int

record eventAttribute =
  attr_key :: string
  attr_value :: string

record event =
  ev_type :: string
  ev_attributes :: "eventAttribute list"

record msg =
  msg_content :: json
  msg_idx :: int
  msg_type :: string
  msg_protoContent :: json

record evmTx =
  et_blockHash :: string
  et_blockNumber :: string
  et_from :: string
  et_gas :: string
  et_gasPrice :: string
  et_maxFeePerGas :: string
  et_maxPriorityFeePerGas :: string
  et_hash :: string
  et_input :: "string option"
  et_nonce :: string
  et_to :: "string option"
  et_transactionIndex :: string
  et_value :: "string option"
  et_type :: string
  et_accessList :: "string list option"
  et_chainId :: string
  et_v :: string
  et_r :: string
  et_s :: string

record evmLog =
  log_address :: string
  log_topics :: "string list"
  log_data :: string
  log_logIndex :: string

record evmReceipt =
  er_blockHash :: string
  er_blockNumber :: string
  er_contractAddress :: "string option"
  er_cumulativeGasUsed :: string
  er_effectiveGasPrice :: string
  er_from :: string
  er_gasUsed :: string
  er_logs :: "evmLog list option"
  er_logsBloom :: string
  er_status :: string
  er_to :: "string option"
  er_transactionHash :: string
  er_transactionIndex :: string
  er_type :: string

datatype TxMode = COSMOS | EVM_GENERAL_TRANSFER | EVM_CONTRACT_CALL | EVM_CONTRACT_DEPLOY

text \<open>
  What \<open>getErc20ContractInfo\<close> leaves for an address: the contract's data, or, when the call for
  this address failed, an object with the field \<open>error\<close> only, all other fields \<open>undefined\<close>.
\<close>

record erc20ContractInfo =
  ec_name :: "string option"
  ec_symbol :: "string option"
  ec_decimals :: "int option"
  ec_error :: "rpcError option"

record txResult =
  res_code :: int
  res_events :: "event list"
  res_gas :: transactionGas
  res_success :: bool

record transaction =
  tx_hash :: string
  tx_height :: int
  tx_msgs :: "msg list option"
  tx_evmTx :: "evmTx option"
  tx_evmReceipt :: "evmReceipt option"
  tx_mode :: "TxMode option"
  tx_evmContractAddressToErc20ContractInfo :: "(string \<times> erc20ContractInfo) list option"
  tx_result :: "txResult option"

section \<open>Accounts and tokens\<close>

record denomUnit =
  du_denom :: string
  du_exponent :: int

record denomMetadata =
  dm_denomUnits :: "denomUnit list"
  dm_base :: string
  dm_name :: string
  dm_symbol :: string
  dm_highestExponent :: int

type_synonym accountBalances = "string obj"

type_synonym denomsMetadata = "denomMetadata obj"

record accountStaking =
  as_rewards :: string
  as_staking :: "string obj"

record contractAccountInfo =
  ct_name :: "string option"
  ct_symbol :: "string option"
  ct_decimals :: "int option"

record accountAddress =
  aa_cosmos :: string
  aa_evm :: string

record account =
  acc_address :: accountAddress
  acc_balances :: accountBalances
  acc_staking :: "accountStaking option"
  acc_txsCount :: int
  acc_typeUrl :: string
  acc_contract :: "contractAccountInfo option"

record erc20Balance =
  eb_balance :: string
  eb_contract :: string
  eb_decimals :: int
  eb_display :: string

record erc20Balances =
  ebs_account :: string
  ebs_erc20Balances :: "erc20Balance list"

record cw20Balances =
  cbs_account :: string
  cbs_cw20Balances :: "erc20Balance list"

section \<open>Validators\<close>

record validatorAddress =
  va_consensusAddress :: string
  va_validatorAddress :: string

record validatorStaking =
  vs_rewards :: string
  vs_staking :: "string obj"
  vs_validatorCommission :: string
  vs_validatorOutstandingRewards :: string

record validatorDescription =
  vd_details :: string
  vd_identity :: string
  vd_moniker :: string
  vd_securityContract :: string
  vd_website :: string

record commissionRates =
  cr_rate :: string
  cr_max_rate :: string
  cr_max_change_rate :: string

record validatorCommission =
  vc_commission_rates :: commissionRates
  vc_update_time :: string

record validatorBody =
  vb_commission :: validatorCommission
  vb_consensusPubkey :: json
  vb_delegatorShares :: string
  vb_description :: validatorDescription
  vb_jailed :: bool
  vb_minSelfDelegation :: string
  vb_status :: string
  vb_tokens :: string
  vb_unbondingHeight :: int
  vb_unbondingTime :: string
  vb_votingPower :: int

record validator =
  val_address :: validatorAddress
  val_staking :: validatorStaking
  val_validator :: validatorBody

text \<open>An entry of the validator list; \<open>tokens\<close> may be missing, as the list component expects.\<close>

record validatorEntry =
  ve_consAddress :: string
  ve_pubKeyType :: string
  ve_valAddress :: string
  ve_votingPower :: int
  ve_moniker :: string
  ve_commission :: string
  ve_tokens :: "string option"
  ve_tokensDecimals :: int

type_synonym validatorList = "validatorEntry obj"

section \<open>Governance\<close>

record tallyResult =
  tr_abstain :: string
  tr_no :: string
  tr_noWithVeto :: string
  tr_yes :: string

record upgradePlan =
  up_height :: string
  up_info :: string
  up_name :: "string option"
  up_time :: string

record paramChange =
  pc_key :: string
  pc_subspace :: string
  pc_value :: string

record proposalContent =
  prc_type :: string
  prc_description :: string
  prc_title :: "string option"
  prc_changes :: "paramChange list"

record protoContent =
  pro_type :: string
  pro_authority :: string
  pro_plan :: "upgradePlan option"
  pro_content :: "proposalContent option"

record govMessage =
  gm_protoContent :: protoContent
  gm_type :: string

record govProposal =
  gp_depositEndTimeEpochUTC :: int
  gp_finalTallyResult :: tallyResult
  gp_id :: int
  gp_messages :: "govMessage list"
  gp_metadata :: string
  gp_status :: string
  gp_submitTimeEpochUTC :: int
  gp_totalDeposit :: "string obj"
  gp_votingEndTimeEpochUTC :: int
  gp_votingStartTimeEpochUTC :: int

record govProposals =
  gps_pageNo :: int
  gps_pageSize :: int
  gps_proposals :: "(int \<times> govProposal) list"

end
