(* ===== verification/BigNumber.thy ===== *)
theory BigNumber
  imports Complex_Main JsNumber
begin

text \<open>
  The arbitrary-precision decimals of the package \<open>big.js\<close>. The package is not part of the
  repository: its operations are a parameter, the record \<open>big_ops\<close>, of every definition that uses
  them, and the interface \<open>big_number\<close> states its documented behaviour through the rational value
  of a number: exact sum, difference and product; a quotient rounded half up to 20 decimal places
  (the default \<open>DP\<close> and \<open>RM\<close>); \<open>round\<close> with the same mode; plain notation for \<open>toString\<close> (the
  application sets \<open>PE\<close> and \<open>NE\<close> to a million). The last section gives decimals with a scale as a
  concrete instance.
\<close>

record 'b big_ops =
  big_of :: "string \<Rightarrow> 'b option"         \<comment> \<open>\<open>new Big(s)\<close>; \<open>None\<close> throws\<close>
  big_int :: "int \<Rightarrow> 'b"                  \<comment> \<open>\<open>new Big(n)\<close>\<close>
  big_pow10 :: "int \<Rightarrow> 'b"                \<comment> \<open>\<open>new Big(10 ** n)\<close>\<close>
  big_add :: "'b \<Rightarrow> 'b \<Rightarrow> 'b"
  big_sub :: "'b \<Rightarrow> 'b \<Rightarrow> 'b"
  big_mul :: "'b \<Rightarrow> 'b \<Rightarrow> 'b"
  big_div :: "'b \<Rightarrow> 'b \<Rightarrow> 'b option"      \<comment> \<open>\<open>None\<close> throws\<close>
  big_round :: "nat \<Rightarrow> 'b \<Rightarrow> 'b"
  big_cmp :: "'b \<Rightarrow> 'b \<Rightarrow> int"
  big_str :: "'b \<Rightarrow> string"

definition invalid_number :: js_error where
  "invalid_number = Error ''[big.js] Invalid number''"

definition division_by_zero :: js_error where
  "division_by_zero = Error ''[big.js] Division by zero''"

definition new_big :: "'b big_ops \<Rightarrow> string \<Rightarrow> 'b result" where
  "new_big B s = of_opt invalid_number (big_of B s)"

definition div_big :: "'b big_ops \<Rightarrow> 'b \<Rightarrow> 'b \<Rightarrow> 'b result" where
  "div_big B x y = of_opt division_by_zero (big_div B x y)"

section \<open>Plain notation\<close>

text \<open>The value of a numeral in plain notation: digits, with a sign or a fraction or both.\<close>

definition plain_abs :: "string \<Rightarrow> rat option" where
  "plain_abs u =
     (let ip = takeWhile is_digit u; r = dropWhile is_digit u
      in if ip = [] then None
         else if r = [] then Some (of_nat (read_base 10 ip))
         else if hd r = CHR ''.'' \<and> tl r \<noteq> [] \<and> list_all is_digit (tl r)
           then Some (of_nat (read_base 10 ip) +
                      of_nat (read_base 10 (tl r)) / 10 ^ length (tl r))
         else None)"

definition plain_value :: "string \<Rightarrow> rat option" where
  "plain_value s =
     (if startsWith s ''-'' then map_option uminus (plain_abs (drop 1 s)) else plain_abs s)"

definition round_half_up :: "nat \<Rightarrow> rat \<Rightarrow> rat" where
  "round_half_up n q = sgn q * of_int \<lfloor>\<bar>q\<bar> * 10 ^ n + 1 / 2\<rfloor> / 10 ^ n"

lemma not_digit_dot [simp]: "\<not> is_digit CHR ''.''" "\<not> is_digit CHR '',''" "\<not> is_digit CHR ''-''"
  by (simp_all add: is_digit_def code_def)

lemma plain_abs_digits: "s \<noteq> [] \<Longrightarrow> list_all is_digit s \<Longrightarrow> plain_abs s = Some (of_nat (read_base 10 s))"
  by (simp add: plain_abs_def takeWhile_all dropWhile_all)

lemma plain_value_digits:
  assumes "s \<noteq> []" and "list_all is_digit s"
  shows "plain_value s = Some (of_nat (read_base 10 s))"
proof -
  have "startsWith s ''-'' = False"
    using assms by (auto simp: startsWith_iff)
  with assms show ?thesis by (simp add: plain_value_def plain_abs_digits)
qed

lemma plain_abs_fraction:
  assumes "ip \<noteq> []" "list_all is_digit ip" "fp \<noteq> []" "list_all is_digit fp"
  shows "plain_abs (ip @ CHR ''.'' # fp) =
    Some (of_nat (read_base 10 ip) + of_nat (read_base 10 fp) / 10 ^ length fp)"
  using assms by (simp add: plain_abs_def takeWhile_stop dropWhile_stop Let_def)

lemma floor_half [simp]: "\<lfloor>1 / 2 :: rat\<rfloor> = 0"
  by (rule floor_unique) simp_all

lemma round_half_up_exact:
  assumes "q * 10 ^ n = of_int i"
  shows "round_half_up n q = q"
proof -
  have a: "\<bar>q\<bar> * 10 ^ n = of_int \<bar>i\<bar>"
    using arg_cong [OF assms, of abs] by (simp add: abs_mult)
  have "\<lfloor>of_int \<bar>i\<bar> + 1 / 2 :: rat\<rfloor> = \<bar>i\<bar>"
    by (rule floor_unique) linarith+
  then have "round_half_up n q = sgn q * of_int \<bar>i\<bar> / 10 ^ n"
    by (simp add: round_half_up_def a)
  also have "\<dots> = sgn q * (\<bar>q\<bar> * 10 ^ n) / 10 ^ n" by (simp add: a)
  also have "\<dots> = q" by (simp add: sgn_mult_abs)
  finally show ?thesis .
qed

text \<open>A rounded number is a whole number of units in the last place, at most half a unit away.\<close>

lemma round_half_up_units: "\<exists>i. round_half_up n q * 10 ^ n = of_int i"
proof -
  let ?m = "\<lfloor>\<bar>q\<bar> * 10 ^ n + 1 / 2\<rfloor>"
  have r: "round_half_up n q * 10 ^ n = sgn q * of_int ?m"
    by (simp add: round_half_up_def)
  consider "sgn q = 1" | "sgn q = 0" | "sgn q = -1" by (metis sgn_if)
  then show ?thesis
  proof cases
    case 1
    then show ?thesis unfolding r by simp
  next
    case 2
    then have "round_half_up n q * 10 ^ n = of_int 0" unfolding r by simp
    then show ?thesis by blast
  next
    case 3
    then have "round_half_up n q * 10 ^ n = of_int (- ?m)" unfolding r by simp
    then show ?thesis by blast
  qed
qed

lemma round_half_up_abs: "\<bar>round_half_up n q\<bar> = of_int \<lfloor>\<bar>q\<bar> * 10 ^ n + 1 / 2\<rfloor> / 10 ^ n"
proof (cases "q = 0")
  case True
  then show ?thesis by (simp add: round_half_up_def)
next
  case False
  have "0 \<le> \<lfloor>\<bar>q\<bar> * 10 ^ n + 1 / 2\<rfloor>"
    by (simp add: le_floor_iff add_nonneg_nonneg)
  with False show ?thesis by (simp add: round_half_up_def abs_mult)
qed

lemma round_half_up_nonneg: "0 \<le> q \<Longrightarrow> 0 \<le> round_half_up n q"
  by (simp add: round_half_up_def le_floor_iff add_nonneg_nonneg sgn_if)

lemma round_half_up_error: "\<bar>round_half_up n q - q\<bar> \<le> 1 / (2 * 10 ^ n)"
proof -
  let ?m = "\<lfloor>\<bar>q\<bar> * 10 ^ n + 1 / 2\<rfloor>"
  have m: "of_int ?m \<le> \<bar>q\<bar> * 10 ^ n + 1 / 2" "\<bar>q\<bar> * 10 ^ n + 1 / 2 < of_int ?m + 1"
    by linarith+
  have "round_half_up n q - q = sgn q * (of_int ?m / 10 ^ n - \<bar>q\<bar>)"
    by (simp add: round_half_up_def algebra_simps abs_mult_sgn)
  then have "\<bar>round_half_up n q - q\<bar> \<le> \<bar>of_int ?m / 10 ^ n - \<bar>q\<bar>\<bar>"
    by (simp add: abs_mult sgn_if)
  also have "of_int ?m / 10 ^ n - \<bar>q\<bar> = (of_int ?m - \<bar>q\<bar> * 10 ^ n) / 10 ^ n"
    by (simp add: diff_divide_distrib)
  also have "\<bar>\<dots>\<bar> = \<bar>of_int ?m - \<bar>q\<bar> * 10 ^ n\<bar> / 10 ^ n"
    by (simp add: abs_divide)
  also have "\<dots> \<le> (1 / 2) / 10 ^ n"
  proof (rule divide_right_mono)
    show "\<bar>of_int ?m - \<bar>q\<bar> * 10 ^ n\<bar> \<le> 1 / 2" using m by linarith
  qed simp
  finally show ?thesis by (simp add: mult.commute)
qed

section \<open>The interface\<close>

locale big_number =
  fixes B :: "'b big_ops" and val :: "'b \<Rightarrow> rat"
  assumes of_plain: "plain_value s = Some q \<Longrightarrow> \<exists>x. big_of B s = Some x \<and> val x = q"
    and of_invalid: "list_all (\<lambda>c. \<not> is_digit c) s \<Longrightarrow> big_of B s = None"
    and val_int [simp]: "val (big_int B i) = of_int i"
    and val_pow10 [simp]: "-6 \<le> d \<Longrightarrow> d \<le> 22 \<Longrightarrow> val (big_pow10 B d) = 10 powi d"
    and val_add [simp]: "val (big_add B x y) = val x + val y"
    and val_sub [simp]: "val (big_sub B x y) = val x - val y"
    and val_mul [simp]: "val (big_mul B x y) = val x * val y"
    and div_zero: "val y = 0 \<Longrightarrow> big_div B x y = None"
    and val_div: "val y \<noteq> 0 \<Longrightarrow>
      \<exists>z. big_div B x y = Some z \<and> val z = round_half_up 20 (val x / val y)"
    and val_round [simp]: "val (big_round B n x) = round_half_up n (val x)"
    and cmp_val: "big_cmp B x y = (if val x < val y then -1 else if val x = val y then 0 else 1)"
    and str_plain: "plain_value (big_str B x) = Some (val x)"
    and str_int: "val x = of_int i \<Longrightarrow> big_str B x = show_int i"
begin

lemma new_big_plain: "plain_value s = Some q \<Longrightarrow> \<exists>x. new_big B s = Inr x \<and> val x = q"
  using of_plain [of s q] by (auto simp: new_big_def)

lemma new_big_digits:
  "s \<noteq> [] \<Longrightarrow> list_all is_digit s \<Longrightarrow> \<exists>x. new_big B s = Inr x \<and> val x = of_nat (read_base 10 s)"
  by (intro new_big_plain plain_value_digits)

lemma new_big_invalid: "list_all (\<lambda>c. \<not> is_digit c) s \<Longrightarrow> new_big B s = Inl invalid_number"
  by (simp add: new_big_def of_invalid)

lemma div_big_ok:
  "val y \<noteq> 0 \<Longrightarrow> \<exists>z. div_big B x y = Inr z \<and> val z = round_half_up 20 (val x / val y)"
  using val_div [of y x] by (auto simp: div_big_def)

lemma div_big_zero: "val y = 0 \<Longrightarrow> div_big B x y = Inl division_by_zero"
  by (simp add: div_big_def div_zero)

lemma str_no_comma: "CHR '','' \<notin> set (big_str B x)"
proof -
  have abs: "CHR '','' \<notin> set u" if "plain_abs u \<noteq> None" for u
  proof -
    have "u = takeWhile is_digit u @ dropWhile is_digit u" by simp
    moreover have "CHR '','' \<notin> set (takeWhile is_digit u)"
      by (auto dest: set_takeWhileD)
    moreover have "CHR '','' \<notin> set (dropWhile is_digit u)"
    proof (cases "dropWhile is_digit u")
      case (Cons c t)
      with that have "c = CHR ''.''" "list_all is_digit t"
        by (auto simp: plain_abs_def Let_def split: if_splits)
      with Cons show ?thesis by (auto simp: list_all_iff)
    next
      case Nil
      show ?thesis unfolding Nil by simp
    qed
    ultimately show ?thesis by (metis Un_iff set_append)
  qed
  show ?thesis
  proof (cases "startsWith (big_str B x) ''-''")
    case True
    then obtain t where "big_str B x = CHR ''-'' # t" by (auto simp: startsWith_iff)
    with str_plain [of x] abs [of t] show ?thesis
      by (auto simp: plain_value_def startsWith_def)
  next
    case False
    with str_plain [of x] abs [of "big_str B x"] show ?thesis
      by (auto simp: plain_value_def)
  qed
qed

text \<open>\<open>cmp\<close> is a consistent comparison: it orders by value.\<close>

lemma cmp_simps:
  "big_cmp B x y < 0 \<longleftrightarrow> val x < val y" "big_cmp B x y = 0 \<longleftrightarrow> val x = val y"
  "0 < big_cmp B x y \<longleftrightarrow> val y < val x" "big_cmp B x y \<le> 0 \<longleftrightarrow> val x \<le> val y"
  by (auto simp: cmp_val)

end

section \<open>A concrete instance: decimals with a scale\<close>

text \<open>\<open>Dec c s\<close> stands for \<open>c / 10 ^ s\<close>.\<close>

datatype dec = Dec int nat

fun dec_val :: "dec \<Rightarrow> rat" where
  "dec_val (Dec c s) = of_int c / 10 ^ s"

definition div_half_up :: "int \<Rightarrow> int \<Rightarrow> int" where
  "div_half_up n d = sgn n * sgn d * ((2 * \<bar>n\<bar> + \<bar>d\<bar>) div (2 * \<bar>d\<bar>))"

fun dec_add :: "dec \<Rightarrow> dec \<Rightarrow> dec" where
  "dec_add (Dec a s) (Dec b t) = Dec (a * 10 ^ t + b * 10 ^ s) (s + t)"

fun dec_sub :: "dec \<Rightarrow> dec \<Rightarrow> dec" where
  "dec_sub (Dec a s) (Dec b t) = Dec (a * 10 ^ t - b * 10 ^ s) (s + t)"

fun dec_mul :: "dec \<Rightarrow> dec \<Rightarrow> dec" where
  "dec_mul (Dec a s) (Dec b t) = Dec (a * b) (s + t)"

fun dec_div :: "dec \<Rightarrow> dec \<Rightarrow> dec option" where
  "dec_div (Dec a s) (Dec b t) =
     (if b = 0 then None else Some (Dec (div_half_up (a * 10 ^ t * 10 ^ 20) (b * 10 ^ s)) 20))"

fun dec_round :: "nat \<Rightarrow> dec \<Rightarrow> dec" where
  "dec_round n (Dec a s) = Dec (div_half_up (a * 10 ^ n) (10 ^ s)) n"

fun dec_cmp :: "dec \<Rightarrow> dec \<Rightarrow> int" where
  "dec_cmp (Dec a s) (Dec b t) = sgn (a * 10 ^ t - b * 10 ^ s)"

text \<open>Trailing zeros of the fraction are dropped before printing.\<close>

fun dec_norm :: "int \<Rightarrow> nat \<Rightarrow> int \<times> nat" where
  "dec_norm c 0 = (c, 0)"
| "dec_norm c (Suc s) = (if c mod 10 = 0 then dec_norm (c div 10) s else (c, Suc s))"

definition dec_abs_str :: "nat \<Rightarrow> nat \<Rightarrow> string" where
  "dec_abs_str c s =
     (let fp = show_nat (c mod 10 ^ s)
      in show_nat (c div 10 ^ s) @
         (if s = 0 then [] else CHR ''.'' # replicate (s - length fp) CHR ''0'' @ fp))"

fun dec_str :: "dec \<Rightarrow> string" where
  "dec_str (Dec c s) =
     (let (a, t) = dec_norm c s
      in (if a < 0 then ''-'' else []) @ dec_abs_str (nat \<bar>a\<bar>) t)"

definition dec_of :: "string \<Rightarrow> dec option" where
  "dec_of s =
     (let neg = startsWith s ''-''; u = (if neg then drop 1 s else s);
          ip = takeWhile is_digit u; r = dropWhile is_digit u; sg = (if neg then -1 else 1)
      in if ip = [] then None
         else if r = [] then Some (Dec (sg * int (read_base 10 ip)) 0)
         else if hd r = CHR ''.'' \<and> tl r \<noteq> [] \<and> list_all is_digit (tl r)
           then Some (Dec (sg * int (read_base 10 (ip @ tl r))) (length (tl r)))
         else None)"

definition dec_pow10 :: "int \<Rightarrow> dec" where
  "dec_pow10 d = (if 0 \<le> d then Dec (10 ^ nat d) 0 else Dec 1 (nat (- d)))"

definition dec_ops :: "dec big_ops" where
  "dec_ops = \<lparr>big_of = dec_of, big_int = (\<lambda>i. Dec i 0), big_pow10 = dec_pow10,
     big_add = dec_add, big_sub = dec_sub, big_mul = dec_mul, big_div = dec_div,
     big_round = dec_round, big_cmp = dec_cmp, big_str = dec_str\<rparr>"

lemma div_half_up_val:
  assumes "d \<noteq> 0"
  shows "of_int (div_half_up n d) =
    (sgn (of_int n / of_int d) * of_int \<lfloor>\<bar>of_int n / of_int d :: rat\<bar> + 1 / 2\<rfloor> :: rat)"
proof -
  have "\<bar>of_int n / of_int d :: rat\<bar> + 1 / 2 = of_int (2 * \<bar>n\<bar> + \<bar>d\<bar>) / of_int (2 * \<bar>d\<bar>)"
    using assms by (simp add: field_simps)
  then have "\<lfloor>\<bar>of_int n / of_int d :: rat\<bar> + 1 / 2\<rfloor> = (2 * \<bar>n\<bar> + \<bar>d\<bar>) div (2 * \<bar>d\<bar>)"
    by (simp only: floor_divide_of_int_eq)
  moreover have "sgn (of_int n / of_int d :: rat) = of_int (sgn n * sgn d)"
    using assms by (auto simp: sgn_if zero_less_divide_iff)
  ultimately show ?thesis by (simp add: div_half_up_def)
qed

lemma dec_norm_val: "dec_norm c s = (a, t) \<Longrightarrow> (of_int a / 10 ^ t :: rat) = of_int c / 10 ^ s"
proof (induction c s rule: dec_norm.induct)
  case (1 c)
  then show ?case by simp
next
  case (2 c s)
  show ?case
  proof (cases "c mod 10 = 0")
    case True
    then have "c = 10 * (c div 10)" by auto
    then have "(of_int c :: rat) = 10 * of_int (c div 10)"
      by (metis of_int_mult of_int_numeral)
    with 2 True show ?thesis by simp
  next
    case False
    with 2 show ?thesis by simp
  qed
qed

lemma dec_norm_whole: "dec_norm (i * 10 ^ s) s = (i, 0)"
  by (induction s) simp_all

lemma length_show_base: "n < b ^ k \<Longrightarrow> 0 < k \<Longrightarrow> 2 \<le> b \<Longrightarrow> length (show_base b n) \<le> k"
proof (induction b n arbitrary: k rule: show_base.induct)
  case (1 b n)
  show ?case
  proof (cases "n < b")
    case True
    with "1.prems" show ?thesis by (subst show_base.simps) simp
  next
    case False
    then have "k \<noteq> Suc 0" using "1.prems" by auto
    with "1.prems" obtain j where j: "k = Suc j" "0 < j" by (cases k) auto
    with "1.prems" have "n div b < b ^ j"
      by (simp add: less_mult_imp_div_less mult.commute)
    with "1.IH" False "1.prems" j show ?thesis by (subst show_base.simps) simp
  qed
qed

lemma read_replicate_zero: "read_base b (replicate k CHR ''0'' @ s) = read_base b s"
  by (induction k) (simp_all add: read_base_zero)

lemma dec_abs_str_plain: "plain_abs (dec_abs_str c s) = Some (of_nat c / 10 ^ s)"
proof (cases "s = 0")
  case True
  then show ?thesis by (simp add: dec_abs_str_def plain_abs_digits)
next
  case False
  let ?fp = "show_nat (c mod 10 ^ s)"
  let ?z = "replicate (s - length ?fp) CHR ''0''"
  have len: "length ?fp \<le> s" using False by (intro length_show_base) simp_all
  have "list_all is_digit (?z @ ?fp)"
    by (simp add: list_all_iff is_digit_def code_def) (use show_nat_digits in \<open>auto simp: list_all_iff is_digit_def code_def\<close>)
  then have "plain_abs (show_nat (c div 10 ^ s) @ CHR ''.'' # ?z @ ?fp) =
      Some (of_nat (c div 10 ^ s) + of_nat (c mod 10 ^ s) / 10 ^ s)"
    using len by (subst plain_abs_fraction) (simp_all add: read_replicate_zero)
  moreover have "(of_nat (c div 10 ^ s) + of_nat (c mod 10 ^ s) / 10 ^ s :: rat) = of_nat c / 10 ^ s"
  proof -
    have "(of_nat c :: rat) = of_nat (c div 10 ^ s * 10 ^ s + c mod 10 ^ s)"
      by (simp only: div_mult_mod_eq)
    also have "\<dots> = of_nat (c div 10 ^ s) * 10 ^ s + of_nat (c mod 10 ^ s)"
      by (simp only: of_nat_add of_nat_mult of_nat_power of_nat_numeral)
    finally have "(of_nat c :: rat) / 10 ^ s =
        (of_nat (c div 10 ^ s) * 10 ^ s + of_nat (c mod 10 ^ s)) / 10 ^ s" by (simp only:)
    then show ?thesis by (simp add: add_divide_distrib)
  qed
  ultimately show ?thesis using False by (simp add: dec_abs_str_def Let_def)
qed

lemma dec_abs_str_no_sign: "\<not> startsWith (dec_abs_str c s) ''-''"
proof -
  obtain x t where x: "show_nat (c div 10 ^ s) = x # t"
    by (cases "show_nat (c div 10 ^ s)") auto
  with show_nat_digits [of "c div 10 ^ s"] have "is_digit x" by simp
  with x show ?thesis by (auto simp: dec_abs_str_def startsWith_def Let_def)
qed

lemma dec_str_plain: "plain_value (dec_str x) = Some (dec_val x)"
proof (cases x)
  case (Dec c s)
  obtain a t where n: "dec_norm c s = (a, t)" by force
  have v: "dec_val x = of_int a / 10 ^ t" using dec_norm_val [OF n] Dec by simp
  show ?thesis
  proof (cases "a < 0")
    case True
    then have "(of_nat (nat \<bar>a\<bar>) :: rat) = - of_int a" by simp
    with True Dec n v show ?thesis
      by (simp add: plain_value_def startsWith_def dec_abs_str_plain)
  next
    case False
    then have f: "(of_nat (nat \<bar>a\<bar>) :: rat) = of_int a" by simp
    have "dec_str x = dec_abs_str (nat \<bar>a\<bar>) t" using False Dec n by simp
    then show ?thesis
      using dec_abs_str_no_sign [of "nat \<bar>a\<bar>" t]
      unfolding v f [symmetric] by (simp add: plain_value_def dec_abs_str_plain)
  qed
qed

lemma dec_str_int:
  assumes "dec_val x = of_int i"
  shows "dec_str x = show_int i"
proof (cases x)
  case (Dec c s)
  with assms have "(of_int c :: rat) = of_int (i * 10 ^ s)" by (simp add: field_simps)
  then have "c = i * 10 ^ s" by (simp only: of_int_eq_iff)
  then have "dec_norm c s = (i, 0)" by (simp add: dec_norm_whole)
  with Dec show ?thesis by (simp add: dec_abs_str_def show_int_def)
qed

lemma dec_of_plain: "plain_value s = Some q \<Longrightarrow> \<exists>x. dec_of s = Some x \<and> dec_val x = q"
  by (auto simp: plain_value_def plain_abs_def dec_of_def Let_def read_base_append field_simps
      split: if_splits)

lemma dec_of_invalid: "list_all (\<lambda>c. \<not> is_digit c) s \<Longrightarrow> dec_of s = None"
proof -
  assume a: "list_all (\<lambda>c. \<not> is_digit c) s"
  have "takeWhile is_digit u = []" if "set u \<subseteq> set s" for u
    using that a by (cases u) (auto simp: list_all_iff)
  then have "takeWhile is_digit s = []" "takeWhile is_digit (drop 1 s) = []"
    by (auto dest: in_set_dropD)
  then show ?thesis by (auto simp: dec_of_def Let_def)
qed

lemma dec_scale: "(of_int a / 10 ^ s < (of_int b / 10 ^ t :: rat)) \<longleftrightarrow> a * 10 ^ t < b * 10 ^ s"
proof -
  have "(of_int a / 10 ^ s < (of_int b / 10 ^ t :: rat)) \<longleftrightarrow>
      (of_int (a * 10 ^ t) :: rat) < of_int (b * 10 ^ s)"
    by (simp add: field_simps)
  then show ?thesis by (simp only: of_int_less_iff)
qed

lemma dec_pow10_val: "dec_val (dec_pow10 d) = 10 powi d"
  by (simp add: dec_pow10_def power_int_def power_one_over)

interpretation dec: big_number dec_ops dec_val
proof
  fix x y :: dec and s :: string and q :: rat and i d :: int and n :: nat
  show "plain_value s = Some q \<Longrightarrow> \<exists>x. big_of dec_ops s = Some x \<and> dec_val x = q"
    using dec_of_plain by (simp add: dec_ops_def)
  show "list_all (\<lambda>c. \<not> is_digit c) s \<Longrightarrow> big_of dec_ops s = None"
    by (simp add: dec_ops_def dec_of_invalid)
  show "dec_val (big_int dec_ops i) = of_int i"
    by (simp add: dec_ops_def)
  show "dec_val (big_pow10 dec_ops d) = 10 powi d" if "-6 \<le> d" "d \<le> 22"
    by (simp add: dec_ops_def dec_pow10_val)
  show "dec_val (big_add dec_ops x y) = dec_val x + dec_val y"
    by (cases x; cases y) (simp add: dec_ops_def field_simps power_add)
  show "dec_val (big_sub dec_ops x y) = dec_val x - dec_val y"
    by (cases x; cases y) (simp add: dec_ops_def field_simps power_add)
  show "dec_val (big_mul dec_ops x y) = dec_val x * dec_val y"
    by (cases x; cases y) (simp add: dec_ops_def power_add)
  show "dec_val y = 0 \<Longrightarrow> big_div dec_ops x y = None"
    by (cases x; cases y) (simp add: dec_ops_def)
  show "\<exists>z. big_div dec_ops x y = Some z \<and>
      dec_val z = round_half_up 20 (dec_val x / dec_val y)" if "dec_val y \<noteq> 0"
  proof -
    obtain a s' b t where xy: "x = Dec a s'" "y = Dec b t" by (cases x; cases y) auto
    with that have b: "b \<noteq> 0" by simp
    let ?n = "a * 10 ^ t * 10 ^ 20" and ?d = "b * 10 ^ s'"
    have q: "of_int ?n / of_int ?d = (dec_val x / dec_val y) * 10 ^ 20"
      using b by (simp add: xy field_simps)
    have "of_int (div_half_up ?n ?d) =
        (sgn (of_int ?n / of_int ?d) * of_int \<lfloor>\<bar>of_int ?n / of_int ?d :: rat\<bar> + 1 / 2\<rfloor> :: rat)"
      using b by (intro div_half_up_val) simp
    then have "of_int (div_half_up ?n ?d) / 10 ^ 20 = round_half_up 20 (dec_val x / dec_val y)"
      unfolding q by (simp add: round_half_up_def sgn_mult abs_mult)
    with b xy show ?thesis by (simp add: dec_ops_def)
  qed
  show "dec_val (big_round dec_ops n x) = round_half_up n (dec_val x)"
  proof (cases x)
    case (Dec a s')
    have q: "of_int (a * 10 ^ n) / of_int (10 ^ s') = (dec_val x * 10 ^ n :: rat)"
      by (simp add: Dec field_simps)
    have "of_int (div_half_up (a * 10 ^ n) (10 ^ s')) = (sgn (of_int (a * 10 ^ n) / of_int (10 ^ s'))
        * of_int \<lfloor>\<bar>of_int (a * 10 ^ n) / of_int (10 ^ s') :: rat\<bar> + 1 / 2\<rfloor> :: rat)"
      by (rule div_half_up_val) simp
    then show ?thesis
      unfolding q by (simp add: Dec dec_ops_def round_half_up_def sgn_mult abs_mult)
  qed
  show "big_cmp dec_ops x y =
      (if dec_val x < dec_val y then -1 else if dec_val x = dec_val y then 0 else 1)"
  proof -
    obtain a s' b t where xy: "x = Dec a s'" "y = Dec b t" by (cases x; cases y) auto
    have "dec_val x < dec_val y \<longleftrightarrow> a * 10 ^ t < b * 10 ^ s'"
      and "dec_val y < dec_val x \<longleftrightarrow> b * 10 ^ s' < a * 10 ^ t"
      by (simp_all only: xy dec_val.simps dec_scale)
    then show ?thesis by (auto simp: xy dec_ops_def sgn_if)
  qed
  show "plain_value (big_str dec_ops x) = Some (dec_val x)"
    by (simp add: dec_ops_def dec_str_plain)
  show "dec_val x = of_int i \<Longrightarrow> big_str dec_ops x = show_int i"
    by (simp add: dec_ops_def dec_str_int)
qed

end
