(* ===== verification/NumberFormat.thy ===== *)
theory NumberFormat
  imports BigNumber
begin

text \<open>
  \<open>web-app/src/utils/number.ts\<close>: thousands separators, chain amounts, hexadecimal to decimal and
  the comparison of decimal strings. An operand the source types as \<open>number | Big | string\<close> is a
  \<open>'b numeric\<close>.
\<close>

datatype 'b numeric = FromString string | FromBig 'b | FromInt int

definition to_big :: "'b big_ops \<Rightarrow> 'b numeric \<Rightarrow> 'b result" where
  "to_big B v =
     (case v of FromBig x \<Rightarrow> Inr x | FromString s \<Rightarrow> new_big B s | FromInt i \<Rightarrow> Inr (big_int B i))"

section \<open>Thousands separators\<close>

text \<open>
  \<open>s.replace(/\B(?=(\d{3})+$)/g, ',')\<close>: a comma goes before a position when the rest of the string
  is a positive multiple of three digits and the position is no word boundary, that is, the code
  unit before it is a word character too. \<open>prev\<close> is that code unit.
\<close>

fun add_commas :: "char option \<Rightarrow> string \<Rightarrow> string" where
  "add_commas prev [] = []"
| "add_commas prev (c # s) =
     (if (case prev of None \<Rightarrow> False | Some p \<Rightarrow> is_word p)
         \<and> length (c # s) mod 3 = 0 \<and> list_all is_digit (c # s)
      then [CHR '',''] else []) @ c # add_commas (Some c) s"

definition formatNumberString :: "string \<Rightarrow> string" where
  "formatNumberString value =
     (let splitted = split_on CHR ''.'' value;
          splitted = splitted[0 := add_commas None (splitted ! 0)]
      in if length splitted = 1 then splitted ! 0 else join ''.'' splitted)"

definition formatNumber :: "'b big_ops \<Rightarrow> 'b numeric \<Rightarrow> string result" where
  "formatNumber B value = rmap (\<lambda>x. formatNumberString (big_str B x)) (to_big B value)"

section \<open>Conversions and amounts\<close>

definition hexToDec :: "string \<Rightarrow> string result" where
  "hexToDec hexStr =
     (let hexStr = (if length hexStr mod 2 \<noteq> 0 then ''0x0'' @ drop 2 hexStr else hexStr)
      in rmap show_int (toBigInt hexStr))"

definition divideAmountByDecimals :: "'b big_ops \<Rightarrow> 'b numeric \<Rightarrow> int \<Rightarrow> 'b result" where
  "divideAmountByDecimals B amount decimals =
     rbind (to_big B amount) (\<lambda>a. div_big B a (big_pow10 B decimals))"

text \<open>The default of a missing \<open>value\<close> is \<open>new Big(0)\<close>, of \<open>decimals\<close> 0.\<close>

definition formatBlockchainAmount ::
    "'b big_ops \<Rightarrow> 'b numeric option \<Rightarrow> int \<Rightarrow> nat option \<Rightarrow> string result" where
  "formatBlockchainAmount B value decimals fixed =
     rbind (divideAmountByDecimals B
              (case value of None \<Rightarrow> FromBig (big_int B 0) | Some v \<Rightarrow> v) decimals)
       (\<lambda>result. formatNumber B (FromBig
          (case fixed of None \<Rightarrow> result | Some n \<Rightarrow> big_round B n result)))"

definition compareNumberString :: "'b big_ops \<Rightarrow> string \<Rightarrow> string \<Rightarrow> int result" where
  "compareNumberString B a b =
     rbind (new_big B a) (\<lambda>x. rmap (\<lambda>y. big_cmp B x y) (new_big B b))"

section \<open>Facts about the separators\<close>

definition strip_commas :: "string \<Rightarrow> string" where
  "strip_commas s = filter (\<lambda>c. c \<noteq> CHR '','') s"

lemma strip_add_commas: "CHR '','' \<notin> set s \<Longrightarrow> strip_commas (add_commas p s) = s"
  by (induction p s rule: add_commas.induct) (auto simp: strip_commas_def)

lemma strip_commas_append: "strip_commas (s @ t) = strip_commas s @ strip_commas t"
  by (simp add: strip_commas_def)

lemma strip_commas_none: "CHR '','' \<notin> set s \<Longrightarrow> strip_commas s = s"
  unfolding strip_commas_def by (rule filter_True) auto

lemma strip_join:
  "sep = [CHR ''.''] \<Longrightarrow> strip_commas (join sep ps) = join sep (map strip_commas ps)"
  by (induction sep ps rule: join.induct) (auto simp: strip_commas_def)

lemma formatNumberString_eq:
  "formatNumberString value =
     join ''.'' (add_commas None (hd (split_on CHR ''.'' value)) # tl (split_on CHR ''.'' value))"
proof (cases "split_on CHR ''.'' value")
  case Nil
  then show ?thesis by simp
next
  case (Cons p ps)
  then show ?thesis by (cases ps) (simp_all add: formatNumberString_def)
qed

lemma set_join_part: "q \<in> set qs \<Longrightarrow> set q \<subseteq> set (join sep qs)"
  by (induction sep qs rule: join.induct) auto

lemma strip_formatNumberString:
  assumes "CHR '','' \<notin> set s"
  shows "strip_commas (formatNumberString s) = s"
proof -
  obtain p ps where p: "split_on CHR ''.'' s = p # ps"
    by (cases "split_on CHR ''.'' s") auto
  have s: "join ''.'' (p # ps) = s" unfolding p [symmetric] by simp
  have parts: "CHR '','' \<notin> set q" if "q \<in> set (p # ps)" for q
    using set_join_part [OF that, of "''.''"] assms unfolding s by blast
  then have "map strip_commas ps = ps" and "CHR '','' \<notin> set p"
    by (auto intro!: map_idI strip_commas_none)
  then show ?thesis
    by (simp add: formatNumberString_eq p strip_join strip_add_commas s)
qed

text \<open>The reference: the digits in groups of three from the right, joined with commas.\<close>

function groups3 :: "string \<Rightarrow> string list" where
  "groups3 s = (if length s \<le> 3 then [s]
     else groups3 (take (length s - 3) s) @ [drop (length s - 3) s])"
  by pat_completeness auto
termination
  by (relation "measure length") auto

declare groups3.simps [simp del]

lemma concat_groups3 [simp]: "concat (groups3 s) = s"
proof (induction s rule: groups3.induct)
  case (1 s)
  then show ?case by (subst groups3.simps) simp
qed

lemma groups3_lengths:
  "s \<noteq> [] \<Longrightarrow> \<forall>g\<in>set (groups3 s). 1 \<le> length g \<and> length g \<le> 3"
proof (induction s rule: groups3.induct)
  case (1 s)
  show ?case
  proof (cases "length s \<le> 3")
    case True
    with "1.prems" show ?thesis by (subst groups3.simps) (simp add: Suc_le_eq)
  next
    case False
    then have "take (length s - 3) s \<noteq> []" by auto
    note ih = "1.IH" [OF False this]
    have "length (drop (length s - 3) s) = 3" using False by simp
    moreover have "groups3 s = groups3 (take (length s - 3) s) @ [drop (length s - 3) s]"
      using False by (subst groups3.simps) simp
    ultimately show ?thesis using ih by (metis Un_iff empty_iff empty_set list.simps(15) insert_iff
      one_le_numeral order_refl set_append)
  qed
qed

lemma join_snoc: "ps \<noteq> [] \<Longrightarrow> join sep (ps @ [q]) = join sep ps @ sep @ q"
  by (induction sep ps rule: join.induct) auto

lemma groups3_nonempty [simp]: "groups3 s \<noteq> []"
  by (subst groups3.simps) simp

text \<open>A prefix that leaves a multiple of three digits is separated as if it stood alone.\<close>

lemma add_commas_short:
  assumes "list_all is_digit t" and "length t = 3" and "is_word p"
  shows "add_commas (Some p) t = CHR '','' # t"
proof -
  obtain a b c where "t = [a, b, c]"
    using assms(2) by (auto simp: length_Suc_conv numeral_3_eq_3)
  with assms show ?thesis by simp
qed

lemma add_commas_split:
  assumes "list_all is_digit t" and "length t = 3" and "s \<noteq> []" and "list_all is_digit s"
  shows "add_commas p (s @ t) = add_commas p s @ CHR '','' # t"
  using assms(3,4)
proof (induction s arbitrary: p)
  case Nil
  then show ?case by simp
next
  case (Cons c s)
  have "length (c # s @ t) = length (c # s) + 3" using assms(2) by simp
  then have m: "length (c # s @ t) mod 3 = length (c # s) mod 3" by (metis mod_add_self2)
  have tail: "add_commas (Some c) (s @ t) = add_commas (Some c) s @ CHR '','' # t"
  proof (cases "s = []")
    case True
    with Cons.prems assms(1,2) show ?thesis
      by (simp add: add_commas_short is_digit_word)
  next
    case False
    with Cons show ?thesis by simp
  qed
  with Cons.prems assms(1) m show ?case by simp
qed

lemma add_commas_none_short:
  assumes "length s \<le> 3"
  shows "add_commas None s = s"
proof -
  have "add_commas (Some p) t = t" if "length t < 3" for p t
    using that
  proof (induction t arbitrary: p)
    case (Cons c t)
    then have "length (c # t) mod 3 \<noteq> 0" by simp
    with Cons show ?case by simp
  qed simp
  then show ?thesis using assms by (cases s) auto
qed

lemma add_commas_groups:
  "list_all is_digit s \<Longrightarrow> add_commas None s = join '','' (groups3 s)"
proof (induction s rule: groups3.induct)
  case (1 s)
  show ?case
  proof (cases "length s \<le> 3")
    case True
    then show ?thesis by (subst groups3.simps) (simp add: add_commas_none_short)
  next
    case False
    let ?u = "take (length s - 3) s" and ?t = "drop (length s - 3) s"
    have u: "list_all is_digit ?u" "list_all is_digit ?t"
      using "1.prems" by (auto simp: list_all_iff dest: in_set_takeD in_set_dropD)
    have "add_commas None (?u @ ?t) = add_commas None ?u @ CHR '','' # ?t"
      using u False by (intro add_commas_split) auto
    also have "\<dots> = join '','' (groups3 ?u @ [?t])"
      using "1.IH" u False by (simp add: join_snoc)
    also have "groups3 ?u @ [?t] = groups3 s"
      using False by (subst (2) groups3.simps) simp
    finally show ?thesis by simp
  qed
qed

section \<open>Facts about amounts\<close>

context big_number
begin

lemma to_big_int [simp]: "to_big B (FromInt i) = Inr (big_int B i)"
  by (simp add: to_big_def)

lemma to_big_big [simp]: "to_big B (FromBig x) = Inr x"
  by (simp add: to_big_def)

lemma divide_exact:
  assumes "to_big B amount = Inr a" and "val a = of_int n" and "0 \<le> d" and "d \<le> 20"
  shows "\<exists>x. divideAmountByDecimals B amount d = Inr x \<and> val x * 10 ^ nat d = of_int n"
proof -
  have p: "val (big_pow10 B d) = 10 ^ nat d"
    using assms(3,4) by (simp add: power_int_def)
  obtain z where z: "div_big B a (big_pow10 B d) = Inr z"
    and v: "val z = round_half_up 20 (of_int n / 10 ^ nat d)"
    using div_big_ok [of "big_pow10 B d" a] p assms(2) by auto
  have "(10::rat) ^ 20 = 10 ^ nat d * 10 ^ (20 - nat d)"
    using assms(3,4) by (simp add: power_add [symmetric])
  then have "of_int n / 10 ^ nat d * 10 ^ 20 =
      of_int n / 10 ^ nat d * (10 ^ nat d * (10 ^ (20 - nat d) :: rat))"
    by (rule arg_cong)
  also have "\<dots> = of_int (n * 10 ^ (20 - nat d))" by simp
  finally have "of_int n / 10 ^ nat d * 10 ^ 20 = (of_int (n * 10 ^ (20 - nat d)) :: rat)" .
  then have "val z = of_int n / 10 ^ nat d"
    unfolding v by (rule round_half_up_exact)
  with assms(1) z show ?thesis by (simp add: divideAmountByDecimals_def)
qed

lemma formatNumber_strip: "formatNumber B (FromBig x) = Inr s \<Longrightarrow> strip_commas s = big_str B x"
  by (auto simp: formatNumber_def strip_formatNumberString str_no_comma)

text \<open>Formatting a whole amount loses nothing, up to 20 decimals.\<close>

lemma formatBlockchainAmount_exact:
  assumes "to_big B v = Inr a" and "val a = of_int n" and "0 \<le> d" and "d \<le> 20"
  shows "\<exists>s q. formatBlockchainAmount B (Some v) d None = Inr s \<and>
    plain_value (strip_commas s) = Some q \<and> q * 10 ^ nat d = of_int n"
proof -
  obtain x where x: "divideAmountByDecimals B v d = Inr x" "val x * 10 ^ nat d = of_int n"
    using divide_exact [OF assms] by blast
  then have "formatBlockchainAmount B (Some v) d None = Inr (formatNumberString (big_str B x))"
    by (simp add: formatBlockchainAmount_def formatNumber_def)
  moreover have "plain_value (strip_commas (formatNumberString (big_str B x))) = Some (val x)"
    by (simp add: strip_formatNumberString str_no_comma str_plain)
  ultimately show ?thesis using x(2) by blast
qed

lemma compareNumberString_ok:
  assumes "plain_value a = Some p" and "plain_value b = Some q"
  shows "compareNumberString B a b = Inr (if p < q then -1 else if p = q then 0 else 1)"
proof -
  obtain x y where "new_big B a = Inr x" "val x = p" "new_big B b = Inr y" "val y = q"
    using new_big_plain [OF assms(1)] new_big_plain [OF assms(2)] by blast
  then show ?thesis by (simp add: compareNumberString_def cmp_val)
qed

end

lemma hexToDec_hex:
  assumes "ds \<noteq> []" and "list_all is_hex ds"
  shows "hexToDec (''0x'' @ ds) = Inr (show_nat (read_base 16 ds))"
proof (cases "length ds mod 2 = 0")
  case True
  then have "length (''0x'' @ ds) mod 2 = 0" by simp
  with assms show ?thesis
    using toBigInt_hex [of ds] by (simp add: hexToDec_def show_int_def)
next
  case False
  then have "length (''0x'' @ ds) mod 2 \<noteq> 0" by simp
  moreover have "toBigInt (''0x0'' @ ds) = Inr (int (read_base 16 ds))"
    using toBigInt_hex [of "CHR ''0'' # ds"] assms(2)
    by (simp add: read_base_zero is_hex_def is_digit_def code_def)
  ultimately show ?thesis by (simp add: hexToDec_def show_int_def)
qed

end
