(* ===== verification/Common.thy ===== *)
theory Common
  imports JsRegex NumberFormat Settings RpcTypes
begin

text \<open>
  \<open>web-app/src/utils/common.ts\<close>: the paths of a rollapp, the page and page size of a list as they
  come from the query string, the amounts and denoms of the chain's coins, message names and the
  block-number test of the search box. A parameter the query string may lack is an \<open>option\<close>.
\<close>

section \<open>Paths\<close>

definition not_slash :: "char \<Rightarrow> bool" where
  "not_slash c \<longleftrightarrow> c \<noteq> CHR ''/''"

text \<open>\<open>pathname.match(/^\/[^\/]*/)![0]\<close>\<close>

definition getRollappPathFromPathname :: "string \<Rightarrow> string result" where
  "getRollappPathFromPathname pathname =
     of_opt TypeError (match_start (Cat (lit ''/'') (Star (Cls not_slash))) pathname)"

text \<open>
  \<open>/(?<=^\/[^\/]*\/)not-found$/\<close>: the look-behind reaches the start of the path, so the whole path
  is matched.
\<close>

definition isNotFoundPath :: "string \<Rightarrow> bool" where
  "isNotFoundPath pathname \<longleftrightarrow>
     test_full (Cat (lit ''/'') (Cat (Star (Cls not_slash)) (lit ''/not-found''))) pathname"

text \<open>A missing second part is \<open>undefined\<close>, which the template prints.\<close>

definition getNewPathByRollapp :: "string \<Rightarrow> string \<Rightarrow> string" where
  "getNewPathByRollapp pathname newPath =
     (let slittedPath = split_on CHR ''/'' pathname in
      if 1 < length slittedPath
      then (if slittedPath ! 1 \<noteq> [] then ''/'' else []) @ slittedPath ! 1 @ newPath
      else ''undefined'' @ newPath)"

section \<open>Pages\<close>

definition getNumberFromStringParam :: "string option \<Rightarrow> jsnum" where
  "getNumberFromStringParam param =
     (case param of
        None \<Rightarrow> NaN
      | Some s \<Rightarrow> if \<not> test_full (plus1 (Cls is_digit)) s then NaN else parseInt s)"

definition getValidPageSize :: "jsnum \<Rightarrow> jsnum" where
  "getValidPageSize pageSize =
     (if isNaN pageSize \<or> num_eq pageSize (Num 0) then Num (int DEFAULT_PAGINATION_SIZE)
      else num_min pageSize (Num (int MAX_PAGINATION_SIZE)))"

text \<open>\<open>Math.ceil(total / pageSize)\<close> for a whole \<open>total\<close> that is not negative.\<close>

definition pages_of :: "nat \<Rightarrow> jsnum \<Rightarrow> jsnum" where
  "pages_of count pageSize =
     (case pageSize of
        NaN \<Rightarrow> NaN
      | PosInf \<Rightarrow> Num 0
      | NegInf \<Rightarrow> Num 0
      | Num s \<Rightarrow> if s = 0 then (if count = 0 then NaN else PosInf) else Num (ceil_div (int count) s))"

definition getValidPage :: "jsnum \<Rightarrow> jsnum \<Rightarrow> nat option \<Rightarrow> jsnum" where
  "getValidPage page pageSize totalRows =
     (if isNaN page \<or> num_le page (Num 0) then Num 0
      else case totalRows of
        None \<Rightarrow> page
      | Some t \<Rightarrow>
          num_min (if t = 0 then Num 0 else num_add (pages_of t pageSize) (Num (- 1))) page)"

definition getPageAndPageSizeFromStringParam ::
    "string option \<Rightarrow> string option \<Rightarrow> nat option \<Rightarrow> jsnum \<times> jsnum" where
  "getPageAndPageSizeFromStringParam pageSizeParam pageParam totalRows =
     (let pageSize = getValidPageSize (getNumberFromStringParam pageSizeParam);
          page = getValidPage (getNumberFromStringParam pageParam) pageSize totalRows
      in (pageSize, page))"

definition getOffsetFromPageAndPageSize :: "jsnum \<Rightarrow> jsnum \<Rightarrow> jsnum" where
  "getOffsetFromPageAndPageSize page pageSize =
     (if isNaN page \<or> num_less page (Num 0) then Num 0 else num_mul page pageSize)"

section \<open>Amounts and names\<close>

definition getAmount :: "string \<Rightarrow> string" where
  "getAmount rpcAmountStr =
     (case match_start (plus1 (Cls is_digit)) rpcAmountStr of Some m \<Rightarrow> m | None \<Rightarrow> ''0'')"

definition getDenom :: "string \<Rightarrow> string option" where
  "getDenom rpcAmountStr = search_end (plus1 (Cls is_lower)) rpcAmountStr"

text \<open>\<open>word.replace(/\B(?=[A-Z])/g, ' ')\<close>: a space before a capital that follows a word character.\<close>

fun space_words :: "char option \<Rightarrow> string \<Rightarrow> string" where
  "space_words prev [] = []"
| "space_words prev (c # s) =
     (if (case prev of None \<Rightarrow> False | Some p \<Rightarrow> is_word p) \<and> is_upper c then '' '' else [])
     @ c # space_words (Some c) s"

definition addSpaceBetweenWords :: "string \<Rightarrow> string" where
  "addSpaceBetweenWords word = space_words None word"

text \<open>\<open>typeUrl.match(/(?<=\.)[^\.]+$/)\<close>: the first end of the string after a dot and without one.\<close>

fun after_dot :: "string \<Rightarrow> string option" where
  "after_dot [] = None"
| "after_dot (c # s) =
     (if c = CHR ''.'' \<and> test_full (plus1 (Cls (\<lambda>d. d \<noteq> CHR ''.''))) s then Some s else after_dot s)"

definition getPrototypeFromTypeUrl :: "string \<Rightarrow> string" where
  "getPrototypeFromTypeUrl typeUrl =
     (case after_dot typeUrl of
        None \<Rightarrow> addSpaceBetweenWords typeUrl
      | Some m \<Rightarrow> addSpaceBetweenWords m)"

definition formatRpcAmount :: "'b big_ops \<Rightarrow> string \<Rightarrow> denomsMetadata \<Rightarrow> string result" where
  "formatRpcAmount B amountStr denomsMetadata =
     (let amount = getAmount amountStr; denom = getDenom amountStr in
      case denom of
        None \<Rightarrow> formatBlockchainAmount B (Some (FromString amount)) 0 None
      | Some d \<Rightarrow>
          (case obj_get denomsMetadata d of
             None \<Rightarrow> rmap (\<lambda>a. a @ '' '' @ toUpperCase d)
                       (formatBlockchainAmount B (Some (FromString amount)) 0 None)
           | Some m \<Rightarrow> rmap (\<lambda>a. a @ '' '' @ dm_symbol m)
                       (formatBlockchainAmount B (Some (FromString amount))
                          (dm_highestExponent m) None)))"

definition isBlockNo :: "string \<Rightarrow> bool" where
  "isBlockNo valueToCheck \<longleftrightarrow>
     test_full (Alt (plus1 (Cls is_digit)) (Cat (opt (lit ''0x'')) (plus1 (Cls is_hex)))) valueToCheck"

section \<open>Facts about paths\<close>

lemma match_start_path:
  "match_start (Cat (lit ''/'') (Star (Cls not_slash))) (CHR ''/'' # s) =
     Some (CHR ''/'' # takeWhile not_slash s)"
proof -
  obtain ts where ts: "rests (Star (Cls not_slash)) s = dropWhile not_slash s # ts"
    using rests_Star_Cls_hd by blast
  have "take (length s - length (dropWhile not_slash s)) s = takeWhile not_slash s"
    by (metis add_diff_cancel_right' append_eq_conv_conj length_append takeWhile_dropWhile_id)
  moreover have "length (dropWhile not_slash s) \<le> length s" by (rule length_dropWhile_le)
  ultimately show ?thesis by (simp add: match_start_def ts Suc_diff_le)
qed

lemma rollapp_path_slash:
  "getRollappPathFromPathname (CHR ''/'' # s) = Inr (CHR ''/'' # takeWhile not_slash s)"
  by (simp add: getRollappPathFromPathname_def match_start_path)

lemma rollapp_path_Inr:
  "getRollappPathFromPathname s = Inr p \<longleftrightarrow> (\<exists>t. s = CHR ''/'' # t \<and> p = CHR ''/'' # takeWhile not_slash t)"
proof (cases s)
  case Nil
  then show ?thesis by (simp add: getRollappPathFromPathname_def match_start_def)
next
  case (Cons c t)
  show ?thesis
  proof (cases "c = CHR ''/''")
    case True
    then show ?thesis using Cons by (auto simp: rollapp_path_slash)
  next
    case False
    then show ?thesis using Cons by (auto simp: getRollappPathFromPathname_def match_start_def)
  qed
qed

text \<open>A path that is one segment is found again in front of any page of the rollapp.\<close>

lemma rollapp_path_append:
  assumes "list_all not_slash seg" and "rest = [] \<or> startsWith rest ''/''"
  shows "getRollappPathFromPathname (CHR ''/'' # seg @ rest) = Inr (CHR ''/'' # seg)"
proof -
  from assms(2) have "takeWhile not_slash (seg @ rest) = seg"
  proof
    assume "rest = []"
    with assms(1) show ?thesis by (simp add: takeWhile_all)
  next
    assume "startsWith rest ''/''"
    then obtain r where "rest = CHR ''/'' # r" by (cases rest) (auto simp: startsWith_def)
    with assms(1) show ?thesis by (simp add: takeWhile_stop not_slash_def)
  qed
  then show ?thesis by (simp add: rollapp_path_slash)
qed

lemma new_path_eq:
  assumes "list_all not_slash seg" and "seg \<noteq> []" and "rest = [] \<or> startsWith rest ''/''"
  shows "getNewPathByRollapp (''/'' @ seg @ rest) p = ''/'' @ seg @ p"
proof -
  have seg: "CHR ''/'' \<notin> set seg" using assms(1) by (auto simp: not_slash_def list_all_iff)
  have "split_on CHR ''/'' (seg @ rest) ! 0 = seg"
  proof (cases rest)
    case Nil
    then show ?thesis by (simp add: split_on_none [OF seg])
  next
    case (Cons c t)
    then have "c = CHR ''/''" using assms(3) by simp
    with Cons show ?thesis by (simp add: split_on_append [OF seg])
  qed
  then show ?thesis using assms(2) by (simp add: getNewPathByRollapp_def)
qed

lemma isNotFoundPath_iff:
  "isNotFoundPath s \<longleftrightarrow> (\<exists>seg. list_all not_slash seg \<and> s = ''/'' @ seg @ ''/not-found'')"
  by (auto simp: isNotFoundPath_def test_full_iff matches_Cat [of "Star _"])

section \<open>Facts about pages\<close>

lemma number_param_cases:
  obtains "getNumberFromStringParam p = NaN"
  | "getNumberFromStringParam p = PosInf"
  | n where "getNumberFromStringParam p = Num (int n)"
proof (cases "\<exists>s. p = Some s \<and> s \<noteq> [] \<and> list_all is_digit s")
  case True
  then obtain s where "p = Some s" "s \<noteq> []" "list_all is_digit s" by blast
  then have n: "getNumberFromStringParam p = num_of (int (read_base 10 s))"
    by (simp add: getNumberFromStringParam_def test_full_iff parseInt_digits)
  have "num_of (int (read_base 10 s)) = PosInf \<or> (\<exists>m. num_of (int (read_base 10 s)) = Num (int m))"
    by (rule num_of_nonneg) simp
  with n that show thesis by metis
next
  case False
  then have "getNumberFromStringParam p = NaN"
    by (auto simp: getNumberFromStringParam_def test_full_iff split: option.splits)
  with that show thesis by blast
qed

lemma valid_page_size:
  "\<exists>s. getValidPageSize (getNumberFromStringParam p) = Num (int s) \<and> 1 \<le> s \<and> s \<le> MAX_PAGINATION_SIZE"
proof (cases p rule: number_param_cases)
  case 1
  then show ?thesis
    by (intro exI [of _ DEFAULT_PAGINATION_SIZE]) (simp add: getValidPageSize_def cfg_defs)
next
  case 2
  then show ?thesis
    by (intro exI [of _ MAX_PAGINATION_SIZE])
      (simp add: getValidPageSize_def num_eq_def num_min_def cfg_defs)
next
  case (3 n)
  then show ?thesis
    by (intro exI [of _ "if n = 0 then DEFAULT_PAGINATION_SIZE else min n MAX_PAGINATION_SIZE"])
      (auto simp: getValidPageSize_def num_eq_def num_min_def cfg_defs)
qed

lemma num_add_minus1: "\<bar>i\<bar> < 2 ^ 52 \<Longrightarrow> num_add (Num i) (Num (- 1)) = Num (i - 1)"
  by (simp add: num_of_safe)

lemma ceil_div_le: "0 < b \<Longrightarrow> 0 \<le> a \<Longrightarrow> ceil_div a b \<le> a"
proof -
  assume b: "0 < b" and a: "0 \<le> a"
  show "ceil_div a b \<le> a"
  proof (rule ccontr)
    assume "\<not> ceil_div a b \<le> a"
    then have "a \<le> ceil_div a b - 1" by simp
    then have "a * 1 \<le> (ceil_div a b - 1) * b" using a b by (intro mult_mono) auto
    with ceil_div_bounds(2) [OF b, of a] show False by simp
  qed
qed

lemma valid_page:
  assumes "1 \<le> s" and "t < 2 ^ 52"
  shows "\<exists>q. getValidPage (getNumberFromStringParam p) (Num (int s)) (Some t) = Num (int q) \<and>
    (if t = 0 then q = 0 else q * s < t)"
proof -
  let ?last = "if t = 0 then Num 0 else num_add (pages_of t (Num (int s))) (Num (- 1))"
  have "\<exists>l. ?last = Num (int l) \<and> (if t = 0 then l = 0 else l * s < t)"
  proof (cases "t = 0")
    case False
    let ?c = "ceil_div (int t) (int s)"
    have c: "1 \<le> ?c" "?c \<le> int t" "(?c - 1) * int s < int t"
      using assms(1) False ceil_div_pos [of "int s" "int t"] ceil_div_le [of "int s" "int t"]
        ceil_div_bounds(2) [of "int s" "int t"] by auto
    have "\<bar>?c\<bar> < 2 ^ 52" using c(1,2) assms(2) by (simp add: zless_nat_eq_int_zless [symmetric])
    then have "?last = Num (?c - 1)"
      using False assms(1) num_add_minus1 [of ?c] by (simp add: pages_of_def)
    moreover obtain l where l: "?c - 1 = int l" using c(1) by (metis nonneg_int_cases diff_ge_0_iff_ge)
    moreover from c(3) have "l * s < t" unfolding l by (metis of_nat_less_iff of_nat_mult)
    ultimately show ?thesis using False by auto
  qed auto
  then obtain l where l: "?last = Num (int l)" "if t = 0 then l = 0 else l * s < t" by blast
  show ?thesis
  proof (cases p rule: number_param_cases)
    case 1
    then show ?thesis using assms by (intro exI [of _ 0]) (simp add: getValidPage_def)
  next
    case 2
    then have "getValidPage (getNumberFromStringParam p) (Num (int s)) (Some t) = Num (int l)"
      using l(1) by (simp add: getValidPage_def num_le_def num_min_def)
    with l(2) show ?thesis by blast
  next
    case (3 n)
    show ?thesis
    proof (cases "n = 0")
      case True
      with 3 assms show ?thesis by (intro exI [of _ 0]) (simp add: getValidPage_def num_le_def)
    next
      case False
      with 3 l(1) have "getValidPage (getNumberFromStringParam p) (Num (int s)) (Some t) =
          Num (int (min l n))"
        by (auto simp: getValidPage_def num_le_def num_min_def)
      moreover have "if t = 0 then min l n = 0 else min l n * s < t"
        using l(2) by (auto intro: le_less_trans [OF mult_le_mono1 [OF min.cobounded1]])
      ultimately show ?thesis by blast
    qed
  qed
qed

section \<open>Facts about amounts and names\<close>

lemma getAmount_digits: "getAmount s \<noteq> [] \<and> list_all is_digit (getAmount s)"
  by (auto simp: getAmount_def match_start_plus_Cls is_digit_def code_def split: if_splits)

lemma getAmount_eq:
  "getAmount s = (if takeWhile is_digit s = [] then ''0'' else takeWhile is_digit s)"
  by (simp add: getAmount_def match_start_plus_Cls)

lemma getDenom_eq:
  "getDenom s = (let m = rev (takeWhile is_lower (rev s)) in if m = [] then None else Some m)"
  by (simp only: getDenom_def search_end_plus_Cls)

lemma isBlockNo_iff:
  "isBlockNo s \<longleftrightarrow> (\<exists>ds. ds \<noteq> [] \<and> list_all is_hex ds \<and> (s = ds \<or> s = ''0x'' @ ds))"
proof -
  have "list_all is_digit s \<Longrightarrow> list_all is_hex s" for s
    by (auto simp: list_all_iff is_digit_hex)
  then show ?thesis
    by (auto simp: isBlockNo_def test_full_iff matches_Alt)
qed

lemma after_dot_eq:
  "after_dot s = (let m = rev (takeWhile (\<lambda>c. c \<noteq> CHR ''.'') (rev s)) in
     if m = [] \<or> CHR ''.'' \<notin> set s then None else Some m)"
proof (induction s)
  case Nil
  show ?case by simp
next
  case (Cons c s)
  let ?P = "\<lambda>c. c \<noteq> CHR ''.''"
  show ?case
  proof (cases "CHR ''.'' \<in> set s")
    case True
    then have "takeWhile ?P (rev s @ [c]) = takeWhile ?P (rev s)"
      by (auto simp: takeWhile_append)
    moreover have "\<not> list_all ?P s" using True by (auto simp: list_all_iff)
    ultimately show ?thesis using Cons True by (simp add: test_full_iff)
  next
    case False
    then have s: "list_all ?P s" by (auto simp: list_all_iff)
    then have "takeWhile ?P (rev s) = rev s" by (intro takeWhile_all) (simp add: list_all_iff)
    moreover have "takeWhile ?P (rev s @ [c]) = (if c = CHR ''.'' then rev s else rev s @ [c])"
      using s by (auto simp: takeWhile_append list_all_iff)
    ultimately show ?thesis using Cons False s by (auto simp: test_full_iff Let_def)
  qed
qed

lemma prototype_of_type:
  assumes "CHR ''.'' \<notin> set name" and "name \<noteq> []"
  shows "getPrototypeFromTypeUrl (pre @ ''.'' @ name) = addSpaceBetweenWords name"
proof -
  have "takeWhile (\<lambda>c. c \<noteq> CHR ''.'') (rev name @ CHR ''.'' # rev pre) = rev name"
    using assms(1) by (intro takeWhile_stop) (auto simp: list_all_iff)
  then show ?thesis using assms(2) by (simp add: getPrototypeFromTypeUrl_def after_dot_eq)
qed

text \<open>The spaces are the only thing added.\<close>

lemma space_words_strip:
  "CHR '' '' \<notin> set s \<Longrightarrow> filter (\<lambda>c. c \<noteq> CHR '' '') (space_words p s) = s"
  by (induction p s rule: space_words.induct) auto

lemma parseInt_hex:
  assumes "ds \<noteq> []" and "list_all is_hex ds"
  shows "parseInt (''0x'' @ ds) = num_of (int (read_base 16 ds))"
proof -
  have "\<not> is_space CHR ''0''" by (simp add: is_space_def code_def)
  with assms show ?thesis by (simp add: parseInt_def takeWhile_all)
qed

lemma parseInt_letter:
  assumes "is_hex c" and "\<not> is_digit c"
  shows "parseInt (c # s) = NaN"
proof -
  have "\<not> is_space c" and "c \<noteq> CHR ''-''" and "c \<noteq> CHR ''+''" and "c \<noteq> CHR ''0''"
    using assms by (auto simp: char_class_defs code_def)
  with assms(2) show ?thesis by (simp add: parseInt_def)
qed

lemma parseInt_digit:
  assumes "is_digit c" and "list_all is_hex s"
  shows "parseInt (c # s) \<noteq> NaN"
proof -
  have c: "\<not> is_space c" "c \<noteq> CHR ''-''" "c \<noteq> CHR ''+''"
    using assms(1) by (auto simp: char_class_defs code_def)
  have "\<not> is_hex CHR ''x''" "\<not> is_hex CHR ''X''" by (auto simp: char_class_defs code_def)
  then have "\<not> startsWith (c # s) ''0x''" "\<not> startsWith (c # s) ''0X''"
    using assms(2) by (cases s; auto)+
  with c assms(1) show ?thesis by (auto simp: parseInt_def Let_def)
qed

lemma amount_denom:
  assumes "amount \<noteq> []" and "list_all is_digit amount" and "d \<noteq> []" and "list_all is_lower d"
  shows "getAmount (amount @ d) = amount" and "getDenom (amount @ d) = Some d"
proof -
  obtain c t where d: "d = c # t" "\<not> is_digit c"
    using assms(3,4) by (cases d) (auto simp: is_digit_def is_lower_def)
  with assms(1,2) show "getAmount (amount @ d) = amount" by (simp add: getAmount_eq takeWhile_stop)
  obtain xs x where a: "amount = xs @ [x]" "\<not> is_lower x"
    using assms(1,2) by (cases amount rule: rev_cases) (auto simp: is_digit_def is_lower_def)
  have "takeWhile is_lower (rev d @ x # rev xs) = rev d"
    using assms(4) a(2) by (intro takeWhile_stop) (simp_all add: list_all_iff)
  then show "getDenom (amount @ d) = Some d" using assms(3) a(1) by (simp add: getDenom_eq)
qed

section \<open>Properties\<close>

text \<open>
  C10: Whatever the query string holds, the page size is between 1 and the maximum, and the page
  exists: it is page 0 of an empty list, and otherwise its first row is a row of the list.
\<close>

theorem page_params_in_range:
  assumes "count < 2 ^ 52"
  shows "\<exists>s q. getPageAndPageSizeFromStringParam psParam pParam (Some count) =
      (Num (int s), Num (int q)) \<and> 1 \<le> s \<and> s \<le> MAX_PAGINATION_SIZE \<and>
      (if count = 0 then q = 0 else q * s < count)"
proof -
  obtain s where s: "getValidPageSize (getNumberFromStringParam psParam) = Num (int s)"
      "1 \<le> s" "s \<le> MAX_PAGINATION_SIZE"
    using valid_page_size by blast
  with valid_page [OF s(2) assms] show ?thesis
    by (auto simp: getPageAndPageSizeFromStringParam_def Let_def)
qed

lemma page_params_in_range_witness:
  "\<exists>s q. getPageAndPageSizeFromStringParam (Some ''1000'') (Some ''9'') (Some 30) =
      (Num (int s), Num (int q)) \<and> 1 \<le> s \<and> s \<le> MAX_PAGINATION_SIZE \<and>
      (if (30::nat) = 0 then q = 0 else q * s < 30)"
  by (rule page_params_in_range) simp

text \<open>
  The paths the application builds lead back to their rollapp: from any page under a rollapp's
  path, the path built for another page of it has the same rollapp path.
\<close>

theorem rollapp_path_roundtrip:
  assumes "list_all not_slash seg" and "seg \<noteq> []" and "rest = [] \<or> startsWith rest ''/''"
  shows "getRollappPathFromPathname (getNewPathByRollapp (''/'' @ seg @ rest) (Path_text p)) =
    Inr (''/'' @ seg)"
proof -
  have "startsWith (Path_text p) ''/''" by (cases p) simp_all
  then show ?thesis
    unfolding new_path_eq [OF assms] using rollapp_path_append [OF assms(1)] by simp
qed

lemma rollapp_path_roundtrip_witness:
  "getRollappPathFromPathname (getNewPathByRollapp (''/'' @ ''nim'' @ ''/block/12'') (Path_text BLOCKS)) =
    Inr (''/'' @ ''nim'')"
  by (rule rollapp_path_roundtrip) (simp_all add: not_slash_def)

text \<open>
  The block-number test and \<open>parseInt\<close> disagree: of the strings that pass the test, exactly
  those that start with a letter are parsed to \<open>NaN\<close>, while a decimal numeral and a hexadecimal
  one with its prefix are parsed to their value.
\<close>

theorem block_no_parse:
  assumes "isBlockNo s"
  shows "(parseInt s = NaN \<longleftrightarrow> \<not> is_digit (hd s)) \<and>
    (list_all is_digit s \<longrightarrow>
      parseInt s = num_of (int (read_base 10 s))) \<and>
    (startsWith s ''0x'' \<longrightarrow>
      parseInt s = num_of (int (read_base 16 (drop 2 s))))"
proof -
  have x: "\<not> is_hex CHR ''x''" by (simp add: char_class_defs code_def)
  obtain ds where ds: "ds \<noteq> []" "list_all is_hex ds" and s: "s = ds \<or> s = ''0x'' @ ds"
    using assms by (auto simp: isBlockNo_iff)
  have c1: "parseInt s = NaN \<longleftrightarrow> \<not> is_digit (hd s)"
  proof (cases "s = ds")
    case True
    with ds obtain c t where "s = c # t" "is_hex c" "list_all is_hex t" by (cases s) auto
    then show ?thesis using parseInt_letter parseInt_digit by fastforce
  next
    case False
    with s parseInt_hex [OF ds] show ?thesis by (simp add: is_digit_def code_def)
  qed
  have c2: "list_all is_digit s \<Longrightarrow> parseInt s = num_of (int (read_base 10 s))"
    using assms by (intro parseInt_digits) (auto simp: isBlockNo_iff)
  have c3: "parseInt s = num_of (int (read_base 16 (drop 2 s)))" if "startsWith s ''0x''"
  proof -
    from that obtain t where t: "s = ''0x'' @ t" by (auto simp: startsWith_iff)
    with s ds x have "t = ds" by auto
    with t parseInt_hex [OF ds] show ?thesis by simp
  qed
  show ?thesis using c1 c2 c3 by blast
qed

lemma block_no_parse_witness:
  "parseInt ''ab12'' = NaN \<and> parseInt ''17'' = num_of (int (read_base 10 ''17'')) \<and>
   parseInt ''0x1f'' = num_of (int (read_base 16 (drop 2 ''0x1f'')))"
proof (intro conjI)
  have "list_all is_hex ''ab12''" "list_all is_hex ''17''" "list_all is_hex ''1f''"
    by (simp_all add: char_class_defs code_def)
  then have d: "isBlockNo ''ab12''" "isBlockNo ''17''" "isBlockNo (''0x'' @ ''1f'')"
    unfolding isBlockNo_iff by blast+
  show "parseInt ''ab12'' = NaN"
    using block_no_parse [OF d(1), THEN conjunct1] by (simp add: is_digit_def code_def)
  show "parseInt ''17'' = num_of (int (read_base 10 ''17''))"
    using d(2) by (rule block_no_parse [THEN conjunct2, THEN conjunct1, THEN mp]) (simp add: is_digit_def code_def)
  show "parseInt ''0x1f'' = num_of (int (read_base 16 (drop 2 ''0x1f'')))"
    using block_no_parse [OF d(3), THEN conjunct2, THEN conjunct2] by simp
qed

text \<open>
  C11: A coin of the chain is shown without loss: for an amount written as digits followed by a
  denom of small letters with known metadata (up to 20 decimals), the text is a decimal number
  and the symbol, and the number times the denom's power of ten is the amount.
\<close>

theorem rpc_amount_exact:
  assumes "big_number B val" and "amount \<noteq> []" and "list_all is_digit amount"
    and "d \<noteq> []" and "list_all is_lower d" and "obj_get meta d = Some m"
    and "0 \<le> dm_highestExponent m" and "dm_highestExponent m \<le> 20"
  shows "\<exists>num q. formatRpcAmount B (amount @ d) meta = Inr (num @ '' '' @ dm_symbol m) \<and>
    plain_value (strip_commas num) = Some q \<and>
    q * 10 ^ nat (dm_highestExponent m) = of_nat (read_base 10 amount)"
proof -
  obtain x where x: "new_big B amount = Inr x" "val x = of_nat (read_base 10 amount)"
    using big_number.new_big_digits [OF assms(1-3)] by blast
  then have "to_big B (FromString amount) = Inr x" and "val x = of_int (int (read_base 10 amount))"
    by (simp_all add: to_big_def)
  from big_number.formatBlockchainAmount_exact [OF assms(1) this assms(7,8)] show ?thesis
    using amount_denom [OF assms(2-5)] assms(6) by (auto simp: formatRpcAmount_def)
qed

lemma rpc_amount_exact_witness:
  "\<exists>num q. formatRpcAmount dec_ops (''1250'' @ ''anim'')
        [(''anim'', \<lparr>dm_denomUnits = [], dm_base = ''anim'', dm_name = ''Nim'', dm_symbol = ''NIM'',
                   dm_highestExponent = 18\<rparr>)] = Inr (num @ '' '' @ ''NIM'') \<and>
    plain_value (strip_commas num) = Some q \<and> q * 10 ^ 18 = of_nat (read_base 10 ''1250'')"
  using rpc_amount_exact [OF dec.big_number_axioms, of "''1250''" "''anim''"
      "[(''anim'', \<lparr>dm_denomUnits = [], dm_base = ''anim'', dm_name = ''Nim'', dm_symbol = ''NIM'',
         dm_highestExponent = 18\<rparr>)]"
      "\<lparr>dm_denomUnits = [], dm_base = ''anim'', dm_name = ''Nim'', dm_symbol = ''NIM'',
         dm_highestExponent = 18\<rparr>"]
  by (simp add: is_digit_def is_lower_def code_def)

end
