(* ===== verification/Address.thy ===== *)
theory Address
  imports Common JsSort
begin

text \<open>
  \<open>web-app/src/utils/address.ts\<close> and the expressions of \<open>web-app/src/consts/address.ts\<close>: which
  strings are addresses and transaction hashes, the class \<open>RollappAddress\<close>, and the texts the
  address page shows. The packages \<open>bech32\<close> and \<open>@ethersproject/address\<close> are the record
  \<open>addr_ops\<close>, the collation of \<open>localeCompare\<close> a comparison function; \<open>addr_codec\<close> states what
  the two packages document.
\<close>

section \<open>Which strings are addresses\<close>

definition is_bech32_char :: "char \<Rightarrow> bool" where
  "is_bech32_char c \<longleftrightarrow> c \<in> set ''qpzry9x8gf2tvdw0s3jn54khce6mua7l''"

definition EVM_ADDRESS_REGEX :: rx where
  "EVM_ADDRESS_REGEX = Cat (opt (lit ''0x'')) (rep 40 (Cls is_hex))"

definition COSMOS_ADDRESS_REGEX :: rx where
  "COSMOS_ADDRESS_REGEX =
     Cat (plus1 (Cls is_lower)) (Cat (lit ''1'') (rep_min 38 (Cls is_bech32_char)))"

definition TX_HASH_ADDRESS_REGEX :: rx where
  "TX_HASH_ADDRESS_REGEX = Cat (opt (lit ''0x'')) (rep 64 (Cls is_hex))"

definition isEvmAddress :: "string \<Rightarrow> bool" where
  "isEvmAddress value = test_full EVM_ADDRESS_REGEX value"

definition isCosmosAddress :: "string \<Rightarrow> bool" where
  "isCosmosAddress value = test_full COSMOS_ADDRESS_REGEX value"

definition isTxHash :: "string \<Rightarrow> bool" where
  "isTxHash value = test_full TX_HASH_ADDRESS_REGEX value"

section \<open>The class \<open>RollappAddress\<close>\<close>

record addr_ops =
  bech32_decode :: "string \<Rightarrow> (string \<times> nat list) result"
  bech32_fromWords :: "nat list \<Rightarrow> nat list result"
  bech32_toWords :: "nat list \<Rightarrow> nat list"
  bech32_encode :: "string \<Rightarrow> nat list \<Rightarrow> string result"
  eth_getAddress :: "string \<Rightarrow> string result"

record RollappAddress =
  ra_address :: "nat list"
  ra_prefix :: string

text \<open>
  \<open>Buffer.from(hex, 'hex')\<close> reads pairs of digits up to the first that is none, and
  \<open>toString('hex')\<close> writes two small digits for a byte.
\<close>

fun hex_bytes :: "string \<Rightarrow> nat list" where
  "hex_bytes (a # b # s) =
     (if is_hex a \<and> is_hex b then (digit_val a * 16 + digit_val b) # hex_bytes s else [])"
| "hex_bytes _ = []"

definition bytes_hex :: "nat list \<Rightarrow> string" where
  "bytes_hex bs = concat (map (\<lambda>b. [digit_char (b div 16), digit_char (b mod 16)]) bs)"

text \<open>\<open>s.replace(p, '')\<close>: the first occurrence.\<close>

fun remove_first :: "string \<Rightarrow> string \<Rightarrow> string" where
  "remove_first p [] = []"
| "remove_first p (c # s) =
     (if startsWith (c # s) p then drop (length p) (c # s) else c # remove_first p s)"

definition fromBech32 ::
    "addr_ops \<Rightarrow> string \<Rightarrow> string option \<Rightarrow> bool \<Rightarrow> RollappAddress result" where
  "fromBech32 A bech32Address pref throwErr =
     rbind (bech32_decode A bech32Address) (\<lambda>(dprefix, dwords).
       if throwErr \<and> pref \<noteq> None \<and> pref \<noteq> Some [] \<and> pref \<noteq> Some dprefix
       then Inl (Error ''Unmatched prefix'')
       else rmap (\<lambda>bytes. \<lparr>ra_address = bytes,
                    ra_prefix = (case pref of Some (c # p) \<Rightarrow> c # p | _ \<Rightarrow> dprefix)\<rparr>)
              (bech32_fromWords A dwords))"

definition fromHex :: "string \<Rightarrow> string \<Rightarrow> RollappAddress" where
  "fromHex hex pref =
     (let hex = remove_first ''0x'' hex in \<lparr>ra_address = hex_bytes hex, ra_prefix = pref\<rparr>)"

definition toBech32 :: "addr_ops \<Rightarrow> RollappAddress \<Rightarrow> string result" where
  "toBech32 A this =
     (let words = bech32_toWords A (ra_address this) in bech32_encode A (ra_prefix this) words)"

definition toHex :: "addr_ops \<Rightarrow> RollappAddress \<Rightarrow> bool \<Rightarrow> string result" where
  "toHex A this checksum =
     (let hex = bytes_hex (ra_address this) in
      if length hex = 0 then Inl (Error ''Empty address'')
      else if checksum then eth_getAddress A hex
      else Inr (''0x'' @ hex))"

section \<open>Prefixes and texts\<close>

record Bech32Config =
  bech32PrefixAccAddr :: string
  bech32PrefixAccPub :: string
  bech32PrefixValAddr :: string
  bech32PrefixValPub :: string
  bech32PrefixConsAddr :: string
  bech32PrefixConsPub :: string

text \<open>The four optional prefixes keep their defaults at every call of the program.\<close>

definition getDefaultBech32Config :: "string \<Rightarrow> Bech32Config" where
  "getDefaultBech32Config mainPrefix =
     (let validatorPrefix = ''val''; consensusPrefix = ''cons''; publicPrefix = ''pub'';
          operatorPrefix = ''oper''
      in \<lparr>bech32PrefixAccAddr = mainPrefix,
          bech32PrefixAccPub = mainPrefix @ publicPrefix,
          bech32PrefixValAddr = mainPrefix @ validatorPrefix @ operatorPrefix,
          bech32PrefixValPub = mainPrefix @ validatorPrefix @ operatorPrefix @ publicPrefix,
          bech32PrefixConsAddr = mainPrefix @ validatorPrefix @ consensusPrefix,
          bech32PrefixConsPub = mainPrefix @ validatorPrefix @ consensusPrefix @ publicPrefix\<rparr>)"

record BalanceWithMetadata =
  bwm_balance :: string
  bwm_metadata :: "denomMetadata option"

type_synonym BalancesWithMetadata = "BalanceWithMetadata obj"

definition getSymbolToDisplay :: "string \<Rightarrow> BalancesWithMetadata \<Rightarrow> string result" where
  "getSymbolToDisplay denom accountBalances =
     rmap (\<lambda>b. case bwm_metadata b of Some m \<Rightarrow> dm_symbol m | None \<Rightarrow> denom)
       (of_opt TypeError (obj_get accountBalances denom))"

text \<open>
  The keys of the object itself are compared, so \<open>getSymbolToDisplay\<close> does not throw inside the
  comparison; \<open>symbol_text\<close> is its value.
\<close>

definition symbol_text :: "BalancesWithMetadata \<Rightarrow> string \<Rightarrow> string" where
  "symbol_text accountBalances denom =
     (case getSymbolToDisplay denom accountBalances of Inl _ \<Rightarrow> denom | Inr s \<Rightarrow> s)"

definition toSortedDenoms ::
    "(string \<Rightarrow> string \<Rightarrow> int) \<Rightarrow> BalancesWithMetadata \<Rightarrow> string list" where
  "toSortedDenoms localeCompare accountBalances =
     js_sort (\<lambda>a b. localeCompare (symbol_text accountBalances a) (symbol_text accountBalances b))
       (obj_keys accountBalances)"

definition getAccountType :: "account \<Rightarrow> string" where
  "getAccountType acc =
     (case acc_contract acc of
        Some contract \<Rightarrow>
          ''Smart Contract'' @
          (case ct_name contract of Some (c # s) \<Rightarrow> '': '' @ c # s | _ \<Rightarrow> []) @
          (case ct_symbol contract of Some (c # s) \<Rightarrow> '' ('' @ (c # s) @ '')'' | _ \<Rightarrow> [])
      | None \<Rightarrow>
          if acc_typeUrl acc \<noteq> [] then getPrototypeFromTypeUrl (acc_typeUrl acc) else ''Account'')"

definition getShortAddress :: "string \<Rightarrow> string" where
  "getShortAddress address = take 17 address @ ''...'' @ drop (length address - 6) address"

section \<open>Facts\<close>

lemma isEvmAddress_iff:
  "isEvmAddress s \<longleftrightarrow> (\<exists>h. length h = 40 \<and> list_all is_hex h \<and> (s = h \<or> s = ''0x'' @ h))"
  by (auto simp: isEvmAddress_def EVM_ADDRESS_REGEX_def test_full_iff)

lemma isTxHash_iff:
  "isTxHash s \<longleftrightarrow> (\<exists>h. length h = 64 \<and> list_all is_hex h \<and> (s = h \<or> s = ''0x'' @ h))"
  by (auto simp: isTxHash_def TX_HASH_ADDRESS_REGEX_def test_full_iff)

lemma isCosmosAddress_iff:
  "isCosmosAddress s \<longleftrightarrow> (\<exists>p d. s = p @ ''1'' @ d \<and> p \<noteq> [] \<and> list_all is_lower p \<and>
     38 \<le> length d \<and> list_all is_bech32_char d)"
  by (auto simp: isCosmosAddress_def COSMOS_ADDRESS_REGEX_def test_full_iff
      matches_Cat [of "plus1 _"])

lemma is_hex_digit_char: "d < 16 \<Longrightarrow> is_hex (digit_char d)"
  using is_numeral_digit_char [of d 16] by simp

lemma digit_val_hex: "is_hex c \<Longrightarrow> digit_val c < 16"
  using is_numeral_16 by (metis is_numeral_def)

lemma hex_bytes_hex: "list_all (\<lambda>b. b < 256) bs \<Longrightarrow> hex_bytes (bytes_hex bs) = bs"
proof (induction bs)
  case (Cons b bs)
  then have "b div 16 < 16" "b mod 16 < 16" by auto
  with Cons show ?case by (simp add: bytes_hex_def is_hex_digit_char digit_val_char)
qed (simp add: bytes_hex_def)

lemma bytes_hex_hex [simp]:
  "list_all (\<lambda>b. b < 256) bs \<Longrightarrow> list_all is_hex (bytes_hex bs)"
  by (induction bs) (auto simp: bytes_hex_def is_hex_digit_char)

lemma hex_bytes_bound: "list_all (\<lambda>b. b < 256) (hex_bytes s)"
proof (induction s rule: hex_bytes.induct)
  case (1 a b s)
  then show ?case using digit_val_hex [of a] digit_val_hex [of b] by auto
qed auto

lemma digit_char_val: "is_hex c \<Longrightarrow> digit_char (digit_val c) = lower_char c"
  by (auto simp: code_inject [symmetric] code_lower_char digit_char_def digit_val_def
      char_class_defs)

lemma bytes_hex_bytes:
  "even (length s) \<Longrightarrow> list_all is_hex s \<Longrightarrow> bytes_hex (hex_bytes s) = toLowerCase s"
proof (induction s rule: hex_bytes.induct)
  case (1 a b s)
  then show ?case using digit_val_hex [of b]
    by (simp add: bytes_hex_def toLowerCase_def digit_char_val)
qed (auto simp: bytes_hex_def toLowerCase_def)

lemma remove_0x_hex: "list_all is_hex h \<Longrightarrow> remove_first ''0x'' h = h"
proof (induction h)
  case (Cons c h)
  have "\<not> is_hex CHR ''x''" by (simp add: char_class_defs code_def)
  with Cons.prems have "\<not> startsWith h ''x''" by (cases h) auto
  with Cons show ?case by simp
qed simp

lemma remove_0x_prefix [simp]: "remove_first ''0x'' (CHR ''0'' # CHR ''x'' # h) = h"
  by simp

lemma fromHex_digits:
  assumes "list_all is_hex h" and "s = h \<or> s = ''0x'' @ h"
  shows "fromHex s p = \<lparr>ra_address = hex_bytes h, ra_prefix = p\<rparr>"
  using assms by (auto simp: fromHex_def remove_0x_hex)

section \<open>The interface of the two packages\<close>

text \<open>
  The words of the bytes give the bytes back, what was encoded decodes to what it was encoded
  from, and the checksummed form of an address of 40 digits differs in the case of letters only.
\<close>

locale addr_codec =
  fixes A :: addr_ops
  assumes words_bytes: "list_all (\<lambda>b. b < 256) bs \<Longrightarrow> bech32_fromWords A (bech32_toWords A bs) = Inr bs"
    and decode_encode: "bech32_encode A p ws = Inr s \<Longrightarrow> bech32_decode A s = Inr (p, ws)"
    and checksum: "length h = 40 \<Longrightarrow> list_all is_hex h \<Longrightarrow>
      \<exists>a. eth_getAddress A h = Inr (''0x'' @ a) \<and> toLowerCase a = toLowerCase h"
begin

lemma fromBech32_toBech32:
  assumes "list_all (\<lambda>b. b < 256) (ra_address a)" and "toBech32 A a = Inr s"
    and "pref = None \<or> pref = Some (ra_prefix a)"
  shows "fromBech32 A s pref throwErr = Inr a"
proof -
  from assms(2) have "bech32_decode A s = Inr (ra_prefix a, bech32_toWords A (ra_address a))"
    by (intro decode_encode) (simp add: toBech32_def)
  with assms(1,3) show ?thesis
    by (auto simp: fromBech32_def words_bytes split: option.splits list.splits)
qed

lemma fromBech32_other:
  assumes "toBech32 A a = Inr s" and "p \<noteq> []" and "p \<noteq> ra_prefix a"
  shows "fromBech32 A s (Some p) True = Inl (Error ''Unmatched prefix'')"
proof -
  from assms(1) have "bech32_decode A s = Inr (ra_prefix a, bech32_toWords A (ra_address a))"
    by (intro decode_encode) (simp add: toBech32_def)
  with assms(2,3) show ?thesis by (simp add: fromBech32_def)
qed

lemma toHex_fromHex:
  assumes "length h = 40" and "list_all is_hex h" and "s = h \<or> s = ''0x'' @ h"
  shows "\<exists>a. toHex A (fromHex s p) checksum = Inr (''0x'' @ a) \<and> toLowerCase a = toLowerCase h"
proof -
  have b: "bytes_hex (hex_bytes h) = toLowerCase h" using assms(1,2) by (simp add: bytes_hex_bytes)
  have n: "length (toLowerCase h) = 40" "toLowerCase h \<noteq> []" "list_all is_hex (toLowerCase h)"
    using assms(1,2) by (auto simp flip: length_greater_0_conv)
  show ?thesis
  proof (cases checksum)
    case True
    with checksum [OF n(1,3)] show ?thesis using n(2)
      by (simp add: toHex_def fromHex_digits [OF assms(2,3)] b)
  next
    case False
    then show ?thesis using n(2) by (simp add: toHex_def fromHex_digits [OF assms(2,3)] b)
  qed
qed

end

section \<open>A concrete codec\<close>

text \<open>Words of four bits written as the letters from \<open>a\<close> on, without a checksum.\<close>

fun nibbles :: "nat list \<Rightarrow> nat list" where
  "nibbles [] = []"
| "nibbles (b # bs) = b div 16 # b mod 16 # nibbles bs"

fun from_nibbles :: "nat list \<Rightarrow> nat list" where
  "from_nibbles (a # b # ws) = (a * 16 + b) # from_nibbles ws"
| "from_nibbles _ = []"

definition plain_encode :: "string \<Rightarrow> nat list \<Rightarrow> string result" where
  "plain_encode p ws =
     (if list_all (\<lambda>w. w < 16) ws then Inr (p @ ''1'' @ map (\<lambda>w. char_of (97 + w)) ws)
      else Inl (Error ''Invalid word''))"

definition plain_decode :: "string \<Rightarrow> (string \<times> nat list) result" where
  "plain_decode s =
     (let d = rev (takeWhile (\<lambda>c. c \<noteq> CHR ''1'') (rev s)) in
      if CHR ''1'' \<in> set s then Inr (take (length s - length d - 1) s, map (\<lambda>c. code c - 97) d)
      else Inl (Error ''No separator''))"

definition plain_codec :: addr_ops where
  "plain_codec = \<lparr>bech32_decode = plain_decode, bech32_fromWords = (\<lambda>ws. Inr (from_nibbles ws)),
     bech32_toWords = nibbles, bech32_encode = plain_encode,
     eth_getAddress = (\<lambda>h. Inr (''0x'' @ h))\<rparr>"

lemma from_nibbles [simp]: "from_nibbles (nibbles bs) = bs"
  by (induction bs) auto

lemma plain_decode_encode:
  assumes "plain_encode p ws = Inr s"
  shows "plain_decode s = Inr (p, ws)"
proof -
  let ?d = "map (\<lambda>w. char_of (97 + w) :: char) ws"
  from assms have ws: "list_all (\<lambda>w. w < 16) ws" and s: "s = p @ ''1'' @ ?d"
    by (auto simp: plain_encode_def split: if_splits)
  have ne: "c \<noteq> CHR ''1''" if "c \<in> set ?d" for c
  proof -
    from that ws obtain w :: nat where w: "c = char_of (97 + w)" "w < 16" by (auto simp: list_all_iff)
    then have "code c = 97 + w" by simp
    moreover have "code (CHR ''1'') = 49" by (simp add: code_def)
    ultimately show ?thesis by auto
  qed
  have "takeWhile (\<lambda>c. c \<noteq> CHR ''1'') (rev ?d @ CHR ''1'' # rev p) = rev ?d"
    by (rule takeWhile_stop) (use ne in \<open>auto simp: list_all_iff\<close>)
  then have t: "takeWhile (\<lambda>c. c \<noteq> CHR ''1'') (rev s) = rev ?d" by (simp add: s)
  have "map (\<lambda>c. code c - 97) ?d = ws"
    using ws by (auto simp: list_all_iff intro!: map_idI)
  then show ?thesis unfolding plain_decode_def t by (simp add: s)
qed

interpretation plain: addr_codec plain_codec
proof
  show "bech32_fromWords plain_codec (bech32_toWords plain_codec bs) = Inr bs" for bs
    by (simp add: plain_codec_def)
  show "bech32_encode plain_codec p ws = Inr s \<Longrightarrow> bech32_decode plain_codec s = Inr (p, ws)"
    for p ws s by (simp add: plain_codec_def plain_decode_encode)
  show "\<exists>a. eth_getAddress plain_codec h = Inr (''0x'' @ a) \<and> toLowerCase a = toLowerCase h" for h
    by (simp add: plain_codec_def)
qed

section \<open>Properties\<close>


definition sample_address :: string where
  "sample_address = replicate 40 (CHR ''b'')"


end
