(* ===== verification/Transaction.thy ===== *)
theory Transaction
  imports Common Address
begin

text \<open>
  \<open>web-app/src/utils/transaction.ts\<close>: the names of messages, the translation of a message's text
  with addresses in it, the type of a transaction, hexadecimal values of the EVM, the transfers
  and approvals read from an EVM log, and the forms of a transaction hash.
\<close>

section \<open>Names of messages\<close>

text \<open>
  The cases of the \<open>switch\<close>, in order. An expression \<open>'a' || 'b'\<close> of two non-empty strings is its
  first operand.
\<close>

definition message_names :: "(string \<times> string) list" where
  [cfg_defs]: "message_names = [
     (''/cosmos.distribution.v1beta1.MsgWithdrawDelegatorReward'', ''Withdraw Reward''),
     (''/cosmos.staking.v1beta1.MsgDelegate'', ''Delegate''),
     (''/ethermint.evm.v1.MsgEthereumTx'', ''EVM''),
     (''/evmos.erc20.v1.MsgConvertERC20'', ''Convert ERC20 token to IBC coin''),
     (''/evmos.erc20.v1.MsgConvertCoin'', ''Convert IBC coin to ERC20 token''),
     (''/cosmos.bank.v1beta1.MsgSend'', ''Send''),
     (''/cosmos.bank.v1beta1.MsgMultiSend'', ''Multi Send''),
     (''/ibc.applications.transfer.v1.MsgTransfer'', ''IBC Transfer''),
     (''/cosmos.authz.v1beta1.MsgExec'', ''Exec''),
     (''/ibc.core.channel.v1.MsgAcknowledgement'', ''IBC Acknowledgement''),
     (''/ibc.core.client.v1.MsgUpdateClient'', ''IBC Update Client''),
     (''/ibc.core.channel.v1.MsgRecvPacket'', ''IBC Receive''),
     (''/cosmos.staking.v1beta1.MsgBeginRedelegate'', ''Re-Delegate''),
     (''/cosmos.gov.v1beta1.MsgVote'', ''Vote''),
     (''/cosmos.staking.v1beta1.MsgUndelegate'', ''Un-Stake''),
     (''/cosmos.authz.v1beta1.MsgGrant'', ''Grant Permission''),
     (''/cosmos.authz.v1beta1.MsgRevoke'', ''Revoke Permission''),
     (''/cosmos.distribution.v1beta1.MsgWithdrawValidatorCommission'', ''Withdraw Commission''),
     (''/ibc.core.channel.v1.MsgTimeout'', ''IBC Msg Timeout''),
     (''/cosmos.gov.v1beta1.MsgDeposit'', ''Gov Deposit''),
     (''/cosmos.distribution.v1beta1.MsgSetWithdrawAddress'', ''Set Withdrawal Address''),
     (''/cosmos.staking.v1beta1.MsgCreateValidator'', ''Create Validator''),
     (''/cosmos.staking.v1beta1.MsgEditValidator'', ''Edit Validator''),
     (''/cosmos.gov.v1beta1.MsgSubmitProposal'', ''Submit Proposal''),
     (''/cosmos.slashing.v1beta1.MsgUnjail'', ''Unjail''),
     (''/ibc.core.client.v1.MsgCreateClient'', ''IBC Create Client''),
     (''/dymensionxyz.dymension.rollapp.MsgCreateRollapp'', ''Create RollApp''),
     (''/dymensionxyz.dymension.rollapp.MsgUpdateState'', ''Update RollApp State''),
     (''/dymensionxyz.dymension.sequencer.MsgCreateSequencer'', ''Create Sequencer RA''),
     (''/dymensionxyz.dymension.gamm.poolmodels.balancer.v1beta1.MsgCreateBalancerPool'', ''Create Balancer Pool''),
     (''/dymensionxyz.dymension.gamm.v1beta1.MsgJoinPool'', ''Join Pool''),
     (''/dymensionxyz.dymension.gamm.v1beta1.MsgExitPool'', ''Exit Pool''),
     (''/dymensionxyz.dymension.gamm.v1beta1.MsgSwapExactAmountIn'', ''Swap Exact Amt In''),
     (''/dymensionxyz.dymension.gamm.v1beta1.MsgSwapExactAmountOut'', ''Swap Exact Amt Out''),
     (''/dymensionxyz.dymension.gamm.v1beta1.MsgJoinSwapExternAmountIn'', ''Join Swap Exact Amt In''),
     (''/dymensionxyz.dymension.gamm.v1beta1.MsgJoinSwapShareAmountOut'', ''Join Swap Share Amt Out''),
     (''/dymensionxyz.dymension.gamm.v1beta1.MsgExitSwapShareAmountIn'', ''Exit Swap Share Amt In''),
     (''/dymensionxyz.dymension.gamm.v1beta1.MsgExitSwapExternAmountOut'', ''Exit Swap Share Amt Out''),
     (''/osmosis.incentives.MsgCreateGauge'', ''Create Gauge''),
     (''/osmosis.incentives.MsgAddToGauge'', ''Add To Gauge''),
     (''/osmosis.lockup.MsgLockTokens'', ''Lock Tokens''),
     (''/osmosis.lockup.MsgBeginUnlockingAll'', ''Begin Unlocking ALL''),
     (''/osmosis.lockup.MsgBeginUnlocking'', ''Begin Unlocking''),
     (''/osmosis.lockup.MsgExtendLockup'', ''Extend Lockup''),
     (''/osmosis.lockup.MsgForceUnlock'', ''Force Unlock'')]"

definition is_lower_digit :: "char \<Rightarrow> bool" where
  "is_lower_digit c \<longleftrightarrow> is_lower c \<or> is_digit c"

text \<open>\<open>/^([a-z\d]+\.)+Msg/\<close>\<close>

definition msg_prefix :: rx where
  "msg_prefix = Cat (plus1 (Cat (plus1 (Cls is_lower_digit)) (lit ''.''))) (lit ''Msg'')"

definition getMessageName :: "string \<Rightarrow> string" where
  "getMessageName messageType =
     (let messageType = (if test_start msg_prefix messageType then ''/'' @ messageType else messageType)
      in case map_of message_names messageType of
           Some name \<Rightarrow> name
         | None \<Rightarrow>
             (case search_end (plus1 (Cls (\<lambda>c. c \<noteq> CHR ''.''))) messageType of
                Some m \<Rightarrow> m
              | None \<Rightarrow> []))"

section \<open>Texts with addresses\<close>

text \<open>
  \<open>/{\[{\s.\[address\].\[([a-z\d]+)\].\s}]}/g\<close>. The group is the run of small letters and digits
  after the 16 characters of the fixed part; it ends at the bracket.
\<close>

definition ctsRegex :: rx where
  "ctsRegex = Cat (lit ''{[{'') (Cat (Cls is_space) (Cat (Cls is_dot) (Cat (lit ''[address]'')
     (Cat (Cls is_dot) (Cat (lit ''['') (Cat (plus1 (Cls is_lower_digit)) (Cat (lit '']'')
     (Cat (Cls is_dot) (Cat (Cls is_space) (lit ''}]}'')))))))))) "

definition cts_group :: "string \<Rightarrow> string" where
  "cts_group m = takeWhile is_lower_digit (drop 16 m)"

lemma search_parts: "search r s = Some (a, m, b) \<Longrightarrow> s = a @ m @ b \<and> matches r m"
proof (induction r s arbitrary: a rule: search.induct)
  case (1 r)
  then show ?case
    using rests_sound [of _ r "[]"] by (auto split: list.splits)
next
  case (2 r c s)
  show ?case
  proof (cases "rests r (c # s)")
    case Nil
    with 2 show ?thesis by auto
  next
    case (Cons t ts)
    then obtain u where u: "c # s = u @ t" "matches r u" using rests_sound [of t r "c # s"] by auto
    have "take (length (c # s) - length t) (c # s) = u" unfolding u(1) by simp
    with Cons have "search r (c # s) = Some ([], u, t)" by (simp only: search.simps list.case)
    with "2.prems" u show ?thesis by simp
  qed
qed

lemma cts_nonempty: "\<not> matches ctsRegex []"
  by (simp add: ctsRegex_def)

text \<open>
  \<open>s.split(ctsRegex)\<close> of a string that is not empty: the first text, and each address with the
  text after it.
\<close>

function cts_split :: "string \<Rightarrow> string \<times> (string \<times> string) list" where
  "cts_split s =
     (case search ctsRegex s of
        None \<Rightarrow> (s, [])
      | Some (a, m, b) \<Rightarrow> (a, let (t, ps) = cts_split b in (cts_group m, t) # ps))"
  by pat_completeness auto
termination
proof (relation "measure length")
  fix s x a y m b assume "search ctsRegex s = Some x" "(a, y) = x" "(m, b) = y"
  then have "s = a @ m @ b" "matches ctsRegex m" using search_parts by auto
  with cts_nonempty show "(b, s) \<in> measure length" by (cases m) auto
qed simp

declare cts_split.simps [simp del]

fun interleave :: "(string \<times> string) list \<Rightarrow> string list" where
  "interleave [] = []"
| "interleave ((g, t) # ps) = g # t # interleave ps"

definition split_cts :: "string \<Rightarrow> string list" where
  "split_cts s = (let (t, ps) = cts_split s in t # interleave ps)"

datatype node = TextNode string | LinkNode string nat

definition translateCts :: "string \<Rightarrow> node list" where
  "translateCts ctm =
     (let splitted = split_cts ctm in
      if length splitted = 1 then [TextNode ctm]
      else
        (let splitted = (if hd splitted = [] then tl splitted else splitted)
         in map (\<lambda>(part, idx). if idx mod 2 = 1 then TextNode part else LinkNode part idx)
              (zip splitted [0..<length splitted])))"

section \<open>Types and values\<close>

definition getTransactionType :: "transaction \<Rightarrow> string" where
  "getTransactionType tx =
     (case tx_mode tx of
        Some EVM_GENERAL_TRANSFER \<Rightarrow> ''evm''
      | Some EVM_CONTRACT_CALL \<Rightarrow> ''evm''
      | Some EVM_CONTRACT_DEPLOY \<Rightarrow> ''evm''
      | _ \<Rightarrow> ''cosmos'')"

definition fromHexStringToEthereumValue :: "'b big_ops \<Rightarrow> string \<Rightarrow> string result" where
  "fromHexStringToEthereumValue B hexStr =
     rbind (hexToDec hexStr) (\<lambda>d. rmap (big_str B) (divideAmountByDecimals B (FromString d) 18))"

definition fromHexStringToEthereumGasPriceValue :: "'b big_ops \<Rightarrow> string \<Rightarrow> string result" where
  "fromHexStringToEthereumGasPriceValue B hexStr =
     rbind (hexToDec hexStr) (\<lambda>d. rmap (big_str B) (divideAmountByDecimals B (FromString d) 9))"

section \<open>Logs\<close>

datatype TranslateType = ERC20_TRANSFER | ERC20_APPROVAL

record translatedLog =
  tl_type :: TranslateType
  tl_action :: string
  tl_from :: string
  tl_to :: string
  tl_amount :: string
  tl_isRawAmount :: bool

definition topic_TRANSFER :: string where
  [cfg_defs]: "topic_TRANSFER = ''0xddf252ad1be2c89b69c2b068fc378daa952ba7f163c4a11628f55a4df523b3ef''"

definition topic_APPROVAL :: string where
  [cfg_defs]: "topic_APPROVAL = ''0x8c5be1e5ebec7d5bd14f71427d1e84f3dd0314c0f7b2291e5b200ac8c7c3b925''"

definition isTopicEvmAddress :: "string \<Rightarrow> bool" where
  "isTopicEvmAddress topic = startsWith topic ''0x000000000000000000000000''"

text \<open>\<open>erc20ContractInfo && decimals ? ... : data\<close>: no decimals and 0 decimals are both falsy.\<close>

definition log_amount :: "'b big_ops \<Rightarrow> string \<Rightarrow> int option \<Rightarrow> string result" where
  "log_amount B data decimals =
     (case decimals of
        None \<Rightarrow> Inr data
      | Some d \<Rightarrow>
          if d = 0 then Inr data
          else rbind (hexToDec data) (\<lambda>v. rmap (big_str B) (divideAmountByDecimals B (FromString v) d)))"

definition translateEvmLogIfPossible ::
    "'b big_ops \<Rightarrow> string list \<Rightarrow> string \<Rightarrow> string \<Rightarrow> (string \<times> erc20ContractInfo) list option \<Rightarrow>
     translatedLog option result" where
  "translateEvmLogIfPossible B topics data emitter contracts =
     (let info = (case contracts of None \<Rightarrow> None | Some m \<Rightarrow> obj_get m emitter);
          decimals = (case info of None \<Rightarrow> None | Some i \<Rightarrow> ec_decimals i);
          translated = (\<lambda>ty act. rmap (\<lambda>amount. Some \<lparr>
              tl_type = ty, tl_action = act, tl_from = ''0x'' @ drop 26 (topics ! 1),
              tl_to = ''0x'' @ drop 26 (topics ! 2), tl_amount = amount,
              tl_isRawAmount = (decimals = None)\<rparr>) (log_amount B data decimals))
      in if length topics = 3 \<and> topics ! 0 = topic_TRANSFER \<and> isTopicEvmAddress (topics ! 1)
            \<and> isTopicEvmAddress (topics ! 2) \<and> length data = 66
         then translated ERC20_TRANSFER ''Transfer (ERC-20)''
         else if length topics = 3 \<and> topics ! 0 = topic_APPROVAL \<and> isTopicEvmAddress (topics ! 1)
            \<and> isTopicEvmAddress (topics ! 2) \<and> length data = 66
         then translated ERC20_APPROVAL ''Approve (ERC-20)''
         else Inr None)"

section \<open>Hashes\<close>

definition getTxHashesQueryValue :: "string \<Rightarrow> string list" where
  "getTxHashesQueryValue txHash =
     (if startsWith txHash ''0x''
      then [toLowerCase txHash, toUpperCase (drop 2 txHash)]
      else [''0x'' @ toLowerCase txHash, toUpperCase txHash])"

definition getShortTxHash :: "string \<Rightarrow> string" where
  "getShortTxHash txHash = take 6 txHash @ ''...'' @ drop (length txHash - 6) txHash"

section \<open>Facts\<close>

lemma msg_prefix_head: "test_start msg_prefix s \<Longrightarrow> \<exists>c t. s = c # t \<and> is_lower_digit c"
proof -
  assume "test_start msg_prefix s"
  then obtain u t where s: "s = u @ t" "matches msg_prefix u" by (auto simp: test_start_iff)
  then obtain v w where "u = v @ w" "v \<noteq> []" "list_all is_lower_digit v"
    by (auto simp: msg_prefix_def plus1_def [of "Cat _ _"] matches_Cat [of "Cat _ _"]
        matches_Cat [of "plus1 (Cls _)"])
  with s(1) show ?thesis by (cases v) auto
qed

lemma msg_prefix_slash: "\<not> test_start msg_prefix (CHR ''/'' # s)"
  using msg_prefix_head [of "CHR ''/'' # s"]
  by (auto simp: is_lower_digit_def is_lower_def is_digit_def code_def)

lemma getMessageName_table:
  "map_of message_names (CHR ''/'' # s) = Some v \<Longrightarrow> getMessageName (CHR ''/'' # s) = v"
  by (simp add: getMessageName_def msg_prefix_slash)

text \<open>The parts of a text with addresses: what the markers are and what they leave.\<close>

lemma cts_split_parts:
  "cts_split s = (t, ps) \<Longrightarrow>
   \<exists>ms. list_all2 (\<lambda>m p. matches ctsRegex m \<and> fst p = cts_group m) ms ps \<and>
     s = t @ concat (map2 (\<lambda>m p. m @ snd p) ms ps)"
proof (induction s arbitrary: t ps rule: cts_split.induct)
  case (1 s)
  show ?case
  proof (cases "search ctsRegex s")
    case None
    with "1.prems" show ?thesis by (auto simp: cts_split.simps [of s])
  next
    case (Some x)
    obtain a m b where x: "x = (a, m, b)" by (cases x)
    obtain t' ps' where r: "cts_split b = (t', ps')" by (cases "cts_split b")
    with "1.prems" Some x have t: "t = a" and ps: "ps = (cts_group m, t') # ps'"
      by (simp_all add: cts_split.simps [of s])
    obtain ms where ms: "list_all2 (\<lambda>m p. matches ctsRegex m \<and> fst p = cts_group m) ms ps'"
        "b = t' @ concat (map2 (\<lambda>m p. m @ snd p) ms ps')"
      using "1.IH" [OF Some x [symmetric] refl r] by blast
    from search_parts [of ctsRegex s] Some x have "s = a @ m @ b" "matches ctsRegex m" by auto
    with ms show ?thesis unfolding t ps by (intro exI [of _ "m # ms"]) simp
  qed
qed

lemma length_interleave [simp]: "length (interleave ps) = 2 * length ps"
  by (induction ps rule: interleave.induct) auto

fun link_parts :: "node list \<Rightarrow> string list" where
  "link_parts [] = []"
| "link_parts (LinkNode p i # ns) = p # link_parts ns"
| "link_parts (TextNode p # ns) = link_parts ns"

fun text_parts :: "node list \<Rightarrow> string list" where
  "text_parts [] = []"
| "text_parts (LinkNode p i # ns) = text_parts ns"
| "text_parts (TextNode p # ns) = p # text_parts ns"

definition cts_node :: "string \<times> nat \<Rightarrow> node" where
  "cts_node = (\<lambda>(part, idx). if idx mod 2 = 1 then TextNode part else LinkNode part idx)"

definition nodes :: "nat \<Rightarrow> string list \<Rightarrow> node list" where
  "nodes k parts = map cts_node (zip parts [k..<k + length parts])"

lemma nodes_Nil [simp]: "nodes k [] = []"
  by (simp add: nodes_def)

lemma nodes_Cons [simp]: "nodes k (p # ps) = cts_node (p, k) # nodes (Suc k) ps"
  by (simp add: nodes_def upt_conv_Cons del: upt_Suc)

lemma link_nodes:
  "link_parts (nodes k (interleave ps)) = (if even k then map fst ps else map snd ps)"
  by (induction ps arbitrary: k rule: interleave.induct) (auto simp: cts_node_def mod_2_eq_odd)

lemma text_nodes:
  "text_parts (nodes k (interleave ps)) = (if even k then map snd ps else map fst ps)"
  by (induction ps arbitrary: k rule: interleave.induct) (auto simp: cts_node_def mod_2_eq_odd)

lemma hash_variants:
  assumes "list_all is_hex h" and "s = h \<or> s = ''0x'' @ h"
  shows "getTxHashesQueryValue s = [''0x'' @ toLowerCase h, toUpperCase h]"
proof -
  have "\<not> is_hex CHR ''x''" by (simp add: char_class_defs code_def)
  with assms(1) have "\<not> startsWith h ''0x''"
    by (auto simp: startsWith_iff)
  with assms(2) show ?thesis
    by (auto simp: getTxHashesQueryValue_def toLowerCase_def lower_char_def is_upper_def code_def)
qed

lemma hexToDec_digits:
  assumes "ds \<noteq> []" and "even (length ds)" and "list_all is_hex ds"
  shows "hexToDec (''0x'' @ ds) = Inr (show_nat (read_base 16 ds))"
  using toBigInt_hex [OF assms(1,3)] assms(2) by (simp add: hexToDec_def show_int_def)

lemma log_amount_exact:
  assumes "big_number B val" and "length ds = 64" and "list_all is_hex ds" and "0 \<le> d" and "d \<le> 20"
  shows "\<exists>amount. log_amount B (''0x'' @ ds) (Some d) = Inr amount \<and>
    (if d = 0 then amount = ''0x'' @ ds
     else \<exists>q. plain_value amount = Some q \<and> q * 10 ^ nat d = of_nat (read_base 16 ds))"
proof (cases "d = 0")
  case True
  then show ?thesis by (simp add: log_amount_def)
next
  case False
  let ?n = "read_base 16 ds"
  have h: "hexToDec (''0x'' @ ds) = Inr (show_nat ?n)"
    using assms(2,3) by (intro hexToDec_digits) auto
  obtain a where a: "new_big B (show_nat ?n) = Inr a" "val a = of_nat ?n"
    using big_number.new_big_digits [OF assms(1), of "show_nat ?n"] by auto
  then have "to_big B (FromString (show_nat ?n)) = Inr a" and "val a = of_int (int ?n)"
    by (simp_all add: to_big_def)
  from big_number.divide_exact [OF assms(1) this assms(4,5)] obtain x
    where x: "divideAmountByDecimals B (FromString (show_nat ?n)) d = Inr x"
      "val x * 10 ^ nat d = of_nat ?n" by auto
  moreover have "plain_value (big_str B x) = Some (val x)"
    using big_number.str_plain [OF assms(1)] .
  ultimately show ?thesis using False h by (simp add: log_amount_def)
qed

section \<open>Properties\<close>

definition sample_hash :: string where
  "sample_hash = replicate 64 (CHR ''c'')"

text \<open>
  A text with addresses is cut at its markers and nothing of it is lost; the addresses become
  links exactly when the text begins with a marker. When text comes first, the links are made of
  the texts between the markers and the addresses are shown as plain text.
\<close>

theorem translateCts_roles:
  assumes "cts_split s = (t, ps)" and "ps \<noteq> []"
  shows "(\<exists>ms. list_all2 (\<lambda>m p. matches ctsRegex m \<and> fst p = cts_group m) ms ps \<and>
      s = t @ concat (map2 (\<lambda>m p. m @ snd p) ms ps)) \<and>
    (link_parts (translateCts s) = (if t = [] then map fst ps else t # map snd ps)) \<and>
    (text_parts (translateCts s) = (if t = [] then map snd ps else map fst ps))"
proof -
  have c1: "\<exists>ms. list_all2 (\<lambda>m p. matches ctsRegex m \<and> fst p = cts_group m) ms ps \<and>
      s = t @ concat (map2 (\<lambda>m p. m @ snd p) ms ps)"
    using assms(1) by (rule cts_split_parts)
  have "translateCts s = nodes 0 (if t = [] then interleave ps else t # interleave ps)"
    using assms by (auto simp: translateCts_def split_cts_def cts_node_def nodes_def Let_def)
  then have c2: "link_parts (translateCts s) = (if t = [] then map fst ps else t # map snd ps)"
    and c3: "text_parts (translateCts s) = (if t = [] then map snd ps else map fst ps)"
    by (simp_all add: link_nodes text_nodes cts_node_def)
  show ?thesis using c1 c2 c3 by blast
qed

lemma translateCts_roles_witness:
  "link_parts (translateCts ''by {[{ .[address].[nim1]. }]} now'') = [''by '', '' now'']"
proof -
  have "cts_split ''by {[{ .[address].[nim1]. }]} now'' = (''by '', [(''nim1'', '' now'')])"
    by code_simp
  from translateCts_roles [OF this, THEN conjunct2, THEN conjunct1] show ?thesis by simp
qed

text \<open>
  C36: The value of an ERC-20 transfer or approval log of a contract with known decimals is never
  marked as raw. With 1 to 20 decimals the amount shown is exact; with 0 decimals the amount shown
  is the hexadecimal data of the log, although it is not marked as raw either.
\<close>

theorem erc20_log_amount:
  assumes "big_number B val" and "length topics = 3"
    and "topics ! 0 = topic_TRANSFER \<or> topics ! 0 = topic_APPROVAL"
    and "isTopicEvmAddress (topics ! 1)" and "isTopicEvmAddress (topics ! 2)"
    and "length ds = 64" and "list_all is_hex ds"
    and "obj_get contracts emitter = Some info" and "ec_decimals info = Some d" and "0 \<le> d" and "d \<le> 20"
  shows "\<exists>l. translateEvmLogIfPossible B topics (''0x'' @ ds) emitter (Some contracts) = Inr (Some l) \<and>
    \<not> tl_isRawAmount l \<and>
    (if d = 0 then tl_amount l = ''0x'' @ ds
     else \<exists>q. plain_value (tl_amount l) = Some q \<and> q * 10 ^ nat d = of_nat (read_base 16 ds))"
proof -
  obtain amount where amount: "log_amount B (''0x'' @ ds) (Some d) = Inr amount"
    "if d = 0 then amount = ''0x'' @ ds
     else \<exists>q. plain_value amount = Some q \<and> q * 10 ^ nat d = of_nat (read_base 16 ds)"
    using log_amount_exact [OF assms(1,6,7,10,11)] by blast
  have len: "length (''0x'' @ ds) = 66" using assms(6) by simp
  have "\<exists>ty act. translateEvmLogIfPossible B topics (''0x'' @ ds) emitter (Some contracts) =
      Inr (Some \<lparr>tl_type = ty, tl_action = act, tl_from = ''0x'' @ drop 26 (topics ! 1),
        tl_to = ''0x'' @ drop 26 (topics ! 2), tl_amount = amount, tl_isRawAmount = False\<rparr>)"
    using assms(2-5,8,9) amount(1) len
    unfolding translateEvmLogIfPossible_def Let_def option.case
    by (cases "topics ! 0 = topic_TRANSFER") auto
  with amount(2) show ?thesis by (auto split: if_splits)
qed

definition sample_topic :: string where
  "sample_topic = ''0x'' @ replicate 64 (CHR ''0'')"

definition sample_contract :: erc20ContractInfo where
  "sample_contract = \<lparr>ec_name = Some ''Nim'', ec_symbol = Some ''NIM'', ec_decimals = Some 6,
     ec_error = None\<rparr>"

lemma erc20_log_amount_witness:
  "\<exists>l. translateEvmLogIfPossible dec_ops [topic_TRANSFER, sample_topic, sample_topic]
        (''0x'' @ sample_hash) ''0xcc'' (Some [(''0xcc'', sample_contract)]) = Inr (Some l) \<and>
    \<not> tl_isRawAmount l"
proof -
  have "isTopicEvmAddress sample_topic" by code_simp
  moreover have "length sample_hash = 64" "list_all is_hex sample_hash"
    by (simp_all add: sample_hash_def is_hex_def code_def list_all_iff)
  ultimately show ?thesis
    using erc20_log_amount [OF dec.big_number_axioms, of "[topic_TRANSFER, sample_topic, sample_topic]"
        sample_hash "[(''0xcc'', sample_contract)]" "''0xcc''" sample_contract 6]
    by (auto simp: sample_contract_def)
qed

text \<open>
  A message type gets the same name with and without its leading slash, and a type of the
  table gets its name from the table; the types of the first gov module's vote and submission are
  there, those of its successor are not: they are shown by the last part of the type.
\<close>

theorem message_name_slash:
  assumes "test_start msg_prefix s"
  shows "(getMessageName s = getMessageName (''/'' @ s)) \<and>
    (map_of message_names (''/'' @ s) = Some v \<longrightarrow>
      getMessageName s = v) \<and>
    (getMessageName ''/cosmos.gov.v1beta1.MsgVote'' = ''Vote'' \<and>
      getMessageName ''/cosmos.gov.v1.MsgVote'' = ''MsgVote'' \<and>
      getMessageName ''cosmos.gov.v1.MsgVote'' = ''MsgVote'' \<and>
      getMessageName ''cosmos.gov.v1.MsgSubmitProposal'' = ''MsgSubmitProposal'')"
proof -
  have c1: "getMessageName s = getMessageName (''/'' @ s)"
    using assms by (simp add: getMessageName_def msg_prefix_slash)
  have c2: "map_of message_names (''/'' @ s) = Some v \<Longrightarrow> getMessageName s = v"
    unfolding c1 using getMessageName_table [of s v] by simp
  have c3: "getMessageName ''/cosmos.gov.v1beta1.MsgVote'' = ''Vote'' \<and>
      getMessageName ''/cosmos.gov.v1.MsgVote'' = ''MsgVote'' \<and>
      getMessageName ''cosmos.gov.v1.MsgVote'' = ''MsgVote'' \<and>
      getMessageName ''cosmos.gov.v1.MsgSubmitProposal'' = ''MsgSubmitProposal''"
    by code_simp
  show ?thesis using c1 c2 c3 by blast
qed

lemma message_name_slash_witness:
  "getMessageName ''evmos.erc20.v1.MsgConvertCoin'' = ''Convert IBC coin to ERC20 token''"
  by (rule message_name_slash [THEN conjunct2, THEN conjunct1, THEN mp]) (code_simp, code_simp)

end
