(* ===== verification/Rollapp.thy ===== *)
theory Rollapp
  imports Common JsSort
begin

text \<open>
  \<open>web-app/src/utils/rollapp.ts\<close> and the row \<open>ChainInfo\<close> of \<open>services/db/chainInfo.ts\<close>: the path of
  a rollapp from its name, the rollapp list made from the database rows, the lookup by path, the
  map by chain id, and the favourites in the browser's local storage. The JSON text of an object
  is represented by the object, since \<open>JSON.parse\<close> inverts \<open>JSON.stringify\<close> on dictionaries of
  booleans.
\<close>

record ChainInfo =
  name :: string
  chain_id :: string
  be_json_rpc_urls :: "string list"
  bech32 :: "string obj"
  chain_type :: string
  latest_indexed_block :: int
  denoms :: "string obj"

record RollappInfo = ChainInfo +
  path :: string
  isFavorite :: bool

type_synonym RollappInfoMap = "RollappInfo obj"

section \<open>Paths\<close>

text \<open>The characters \<open>[^a-z0-9-\s]\<close> removes are those that are none of these.\<close>

definition slug_char :: "char \<Rightarrow> bool" where
  "slug_char c \<longleftrightarrow> is_lower c \<or> is_digit c \<or> c = CHR ''-'' \<or> is_space c"

definition getRollappPathByName :: "string \<Rightarrow> string" where
  "getRollappPathByName nm =
     ''/'' @ replace_class is_space ''-''
       (trim (replace_class (\<lambda>c. \<not> slug_char c) [] (toLowerCase nm)))"

section \<open>Lists of rollapps\<close>

definition normalizeRollappInfo :: "ChainInfo \<Rightarrow> RollappInfo" where
  "normalizeRollappInfo chainInfo =
     ChainInfo.extend chainInfo
       \<lparr>path = getRollappPathByName (name chainInfo), isFavorite = False\<rparr>"

definition normalizeRollappsInfo :: "ChainInfo list \<Rightarrow> RollappInfo list" where
  "normalizeRollappsInfo chainInfos = map normalizeRollappInfo chainInfos"

definition getRollappInfoByPath :: "ChainInfo list \<Rightarrow> string \<Rightarrow> RollappInfo option" where
  "getRollappInfoByPath chainInfos p =
     List.find (\<lambda>rollappInfo. path rollappInfo = p) (normalizeRollappsInfo chainInfos)"

definition rollappInfosToObject :: "RollappInfo list \<Rightarrow> RollappInfoMap" where
  "rollappInfosToObject rollappInfos =
     foldl (\<lambda>finalObj rollappInfo. obj_set (chain_id rollappInfo) rollappInfo finalObj) [] rollappInfos"

section \<open>Favourites\<close>

type_synonym FavoriteRollapps = "bool obj"

type_synonym localStorage = "FavoriteRollapps obj"

definition FAVORITE_ROLLAPPS_KEYS :: string where
  "FAVORITE_ROLLAPPS_KEYS = ''favoriteRollapps''"

definition getFavoriteRollapps :: "localStorage \<Rightarrow> FavoriteRollapps" where
  "getFavoriteRollapps st =
     (case obj_get st FAVORITE_ROLLAPPS_KEYS of Some f \<Rightarrow> f | None \<Rightarrow> [])"

definition setFavoriteRollapps :: "FavoriteRollapps \<Rightarrow> localStorage \<Rightarrow> localStorage" where
  "setFavoriteRollapps favoriteRollapps st = obj_set FAVORITE_ROLLAPPS_KEYS favoriteRollapps st"

text \<open>\<open>favoriteRollapps[chain_id] || false\<close>\<close>

definition is_favorite :: "localStorage \<Rightarrow> string \<Rightarrow> bool" where
  "is_favorite st cid \<longleftrightarrow> obj_get (getFavoriteRollapps st) cid = Some True"

text \<open>The comparison of the rollapp lists: favourites first, then by name.\<close>

definition compare_favorite_name ::
    "(string \<Rightarrow> string \<Rightarrow> int) \<Rightarrow> RollappInfo \<Rightarrow> RollappInfo \<Rightarrow> int" where
  "compare_favorite_name localeCompare a b =
     (if isFavorite a \<and> \<not> isFavorite b then -1
      else if isFavorite b \<and> \<not> isFavorite a then 1
      else localeCompare (name a) (name b))"

section \<open>Facts\<close>

lemma get_set_favorites [simp]:
  "getFavoriteRollapps (setFavoriteRollapps f st) = f"
  by (simp add: getFavoriteRollapps_def setFavoriteRollapps_def)

lemma slug_chars:
  "\<exists>seg. getRollappPathByName nm = ''/'' @ seg \<and>
     list_all (\<lambda>c. is_lower c \<or> is_digit c \<or> c = CHR ''-'') seg"
proof -
  define w where "w = trim (filter slug_char (toLowerCase nm))"
  have "set w \<subseteq> set (filter slug_char (toLowerCase nm))" unfolding w_def by (rule set_trim)
  then have "\<forall>c\<in>set w. slug_char c" by auto
  then have "list_all (\<lambda>c. is_lower c \<or> is_digit c \<or> c = CHR ''-'')
      (map (\<lambda>c. if is_space c then CHR ''-'' else c) w)"
    by (auto simp: list_all_iff slug_char_def)
  moreover have "getRollappPathByName nm = ''/'' @ map (\<lambda>c. if is_space c then CHR ''-'' else c) w"
    by (simp add: getRollappPathByName_def replace_class_empty replace_class_single w_def)
  ultimately show ?thesis by blast
qed

lemma slug_not_slash: "is_lower c \<or> is_digit c \<or> c = CHR ''-'' \<Longrightarrow> not_slash c"
  by (auto simp: not_slash_def is_lower_def is_digit_def code_def)

lemma normalize_fields [simp]:
  "path (normalizeRollappInfo c) = getRollappPathByName (name c)"
  "chain_id (normalizeRollappInfo c) = chain_id c"
  "name (normalizeRollappInfo c) = name c"
  "isFavorite (normalizeRollappInfo c) = False"
  by (simp_all add: normalizeRollappInfo_def ChainInfo.defs)

lemma getRollappInfoByPath_eq:
  "getRollappInfoByPath cs p =
     map_option normalizeRollappInfo (List.find (\<lambda>c. getRollappPathByName (name c) = p) cs)"
  by (simp add: getRollappInfoByPath_def normalizeRollappsInfo_def find_map comp_def)

lemma rollapp_map_get:
  "obj_get (rollappInfosToObject rs) k =
     (case List.find (\<lambda>r. chain_id r = k) (rev rs) of None \<Rightarrow> None | Some r \<Rightarrow> Some r)"
  using obj.get_foldl [where key = chain_id and val = id and s = "[]" and xs = rs]
  by (simp add: rollappInfosToObject_def split: option.splits)

lemma rollapp_map_distinct:
  assumes "distinct (map chain_id rs)" and "r \<in> set rs"
  shows "obj_get (rollappInfosToObject rs) (chain_id r) = Some r"
  using obj.get_build_distinct [where val = id, OF assms] by (simp add: rollappInfosToObject_def)

lemma slug_fixed: "list_all (\<lambda>c. is_lower c \<or> is_digit c \<or> c = CHR ''-'') seg \<Longrightarrow>
  getRollappPathByName seg = ''/'' @ seg"
proof -
  assume seg: "list_all (\<lambda>c. is_lower c \<or> is_digit c \<or> c = CHR ''-'') seg"
  have c: "\<not> is_upper c \<and> \<not> is_space c \<and> slug_char c" if "c \<in> set seg" for c
    using that seg by (auto simp: list_all_iff slug_char_def char_class_defs code_def)
  then have "toLowerCase seg = seg" by (intro toLowerCase_id) (simp add: list_all_iff)
  moreover have "filter slug_char seg = seg" using c by (intro filter_True) blast
  moreover have "trim seg = seg" using c by (intro trim_no_space) (simp add: list_all_iff)
  moreover have "map (\<lambda>c. if is_space c then CHR ''-'' else c) seg = seg"
    using c by (intro map_idI) auto
  ultimately show ?thesis
    by (simp add: getRollappPathByName_def replace_class_empty replace_class_single)
qed

section \<open>The order of the list\<close>

text \<open>A collation: what the application assumes of \<open>localeCompare\<close>, a consistent comparison.\<close>

locale collation = names: comparator lc for lc :: "string \<Rightarrow> string \<Rightarrow> int"
begin

sublocale by_favorite: flagged lc name isFavorite
  by unfold_locales

lemma compare_favorite_name_eq: "compare_favorite_name lc = flag_first isFavorite (\<lambda>a b. lc (name a) (name b))"
  by (intro ext) (auto simp: compare_favorite_name_def flag_first_def)

lemma sorted_rollapps:
  "sorted_wrt (\<lambda>a b. compare_favorite_name lc a b \<le> 0) (js_sort (compare_favorite_name lc) rs)"
  unfolding compare_favorite_name_eq by (rule by_favorite.by_flag.sorted_js_sort)

lemma favorites_first:
  "sorted_wrt (\<lambda>a b. isFavorite b \<longrightarrow> isFavorite a) (js_sort (compare_favorite_name lc) rs)"
  unfolding compare_favorite_name_eq by (rule by_favorite.flags_first)

end

interpretation units_collation: collation compare_units
  by unfold_locales

section \<open>Properties\<close>

text \<open>
  C33: The path of a rollapp is one segment of small letters, digits and dashes, whatever its name;
  hence it is found again in the path of each of the rollapp's pages, and reading the segment as
  a name gives the same path again.
\<close>

theorem slug_is_a_path:
  assumes "rest = [] \<or> startsWith rest ''/''"
  shows "(getRollappPathFromPathname (getRollappPathByName nm @ rest) = Inr (getRollappPathByName nm)) \<and>
    (getRollappPathByName (tl (getRollappPathByName nm)) = getRollappPathByName nm) \<and>
    (list_all (\<lambda>c. is_lower c \<or> is_digit c \<or> c = CHR ''-'') (tl (getRollappPathByName nm)))"
proof -
  obtain seg where seg: "getRollappPathByName nm = ''/'' @ seg"
      "list_all (\<lambda>c. is_lower c \<or> is_digit c \<or> c = CHR ''-'') seg"
    using slug_chars by blast
  then have "list_all not_slash seg" by (auto simp: list_all_iff intro: slug_not_slash)
  from rollapp_path_append [OF this assms] seg(1)
  have c1: "getRollappPathFromPathname (getRollappPathByName nm @ rest) = Inr (getRollappPathByName nm)"
    by simp
  have c2: "getRollappPathByName (tl (getRollappPathByName nm)) = getRollappPathByName nm"
    using slug_fixed [OF seg(2)] seg(1) by simp
  have c3: "list_all (\<lambda>c. is_lower c \<or> is_digit c \<or> c = CHR ''-'') (tl (getRollappPathByName nm))"
    using seg by simp
  show ?thesis using c1 c2 c3 by blast
qed

lemma slug_is_a_path_witness:
  "getRollappPathFromPathname (getRollappPathByName ''Nim Network!'' @ ''/blocks'') =
     Inr (getRollappPathByName ''Nim Network!'')"
  by (rule slug_is_a_path [THEN conjunct1]) simp


definition sample_chain :: "string \<Rightarrow> string \<Rightarrow> ChainInfo" where
  "sample_chain nm cid = \<lparr>name = nm, chain_id = cid, be_json_rpc_urls = [''http://'' @ cid],
     bech32 = [(''addr'', nm)], chain_type = ''evm'', latest_indexed_block = 10, denoms = []\<rparr>"


end
