(* ===== verification/Rpc.thy ===== *)
theory Rpc
  imports RpcTypes
begin

text \<open>
  \<open>web-app/src/utils/rpc.ts\<close> and \<open>web-app/src/services/rpc.service.ts\<close>: the parameters of each
  remote call, the request \<open>callRpc\<close> sends for one call or a batch, the methods of the service, and
  \<open>getResponseResult\<close>, which takes the result out of the answer. The network is outside the model:
  a request is data, and an answer is the argument of \<open>getResponseResult\<close>. The abort controller
  that \<open>callRpc\<close> returns is part of the state of the hooks that use it.
\<close>

datatype rpc_arg = ANum jsnum | AStr string | AStrs "string list"

datatype 'a one_or_many = One 'a | Many "'a list"

record RpcCallParam =
  rpc_method :: string
  rpc_params :: "rpc_arg list"
  rpc_version :: string

record RpcCallParamFull = RpcCallParam +
  rpc_id :: nat

record request =
  req_url :: string
  req_method :: string
  req_body :: "RpcCallParamFull one_or_many"
  req_cache :: "string option"

record RpcService =
  rpcUrl :: string

section \<open>Requests\<close>

definition full_param :: "RpcCallParam \<Rightarrow> nat \<Rightarrow> RpcCallParamFull" where
  "full_param param i = RpcCallParam.extend param \<lparr>rpc_id = i\<rparr>"

definition callRpc :: "string \<Rightarrow> RpcCallParam one_or_many \<Rightarrow> string option \<Rightarrow> request" where
  "callRpc url params callRpcOptions =
     (let paramFulls =
        (case params of
           One p \<Rightarrow> One (full_param p 1)
         | Many ps \<Rightarrow> Many (map (\<lambda>(p, i). full_param p (i + 1)) (zip ps [0..<length ps])))
      in \<lparr>req_url = url, req_method = ''POST'', req_body = paramFulls, req_cache = callRpcOptions\<rparr>)"

section \<open>Parameters of the calls\<close>

definition getChainInfoParam :: "RpcCallParam" where
  "getChainInfoParam =
     \<lparr>rpc_method = ''be_getChainInfo'', rpc_params = [], rpc_version = ''2.0''\<rparr>"

definition getLatestBlockNumberParam :: "RpcCallParam" where
  "getLatestBlockNumberParam =
     \<lparr>rpc_method = ''be_getLatestBlockNumber'', rpc_params = [], rpc_version = ''2.0''\<rparr>"

definition getBlockByNumberParam :: "jsnum \<Rightarrow> RpcCallParam" where
  "getBlockByNumberParam blockNo =
     \<lparr>rpc_method = ''be_getBlockByNumber'', rpc_params = [ANum blockNo], rpc_version = ''2.0''\<rparr>"

definition getRecentBlocksParam :: "jsnum \<Rightarrow> jsnum \<Rightarrow> RpcCallParam" where
  "getRecentBlocksParam page pageSize =
     \<lparr>rpc_method = ''be_getRecentBlocks'', rpc_params = [ANum page, ANum pageSize], rpc_version = ''2.0''\<rparr>"

definition getTransactionByHashParam :: "string \<Rightarrow> RpcCallParam" where
  "getTransactionByHashParam txHash =
     \<lparr>rpc_method = ''be_getTransactionByHash'', rpc_params = [AStr txHash], rpc_version = ''2.0''\<rparr>"

definition getAccountBalancesParam :: "string \<Rightarrow> RpcCallParam" where
  "getAccountBalancesParam address =
     \<lparr>rpc_method = ''be_getAccountBalances'', rpc_params = [AStr address], rpc_version = ''2.0''\<rparr>"

definition getDenomsMetadataParam :: "int option \<Rightarrow> RpcCallParam" where
  "getDenomsMetadataParam pageNumber =
     \<lparr>rpc_method = ''be_getDenomsMetadata'', rpc_params = [ANum (Num (case pageNumber of None \<Rightarrow> 1 | Some n \<Rightarrow> n))], rpc_version = ''2.0''\<rparr>"

definition getAccountParam :: "string \<Rightarrow> RpcCallParam" where
  "getAccountParam address =
     \<lparr>rpc_method = ''be_getAccount'', rpc_params = [AStr address], rpc_version = ''2.0''\<rparr>"

definition getValidatorParam :: "string \<Rightarrow> RpcCallParam" where
  "getValidatorParam address =
     \<lparr>rpc_method = ''be_getValidatorAccount'', rpc_params = [AStr address], rpc_version = ''2.0''\<rparr>"

definition getValidatorsParam :: "RpcCallParam" where
  "getValidatorsParam =
     \<lparr>rpc_method = ''be_getValidators'', rpc_params = [], rpc_version = ''2.0''\<rparr>"

definition getGovProposalsParam :: "jsnum \<Rightarrow> RpcCallParam" where
  "getGovProposalsParam page =
     \<lparr>rpc_method = ''be_getGovProposals'', rpc_params = [ANum page], rpc_version = ''2.0''\<rparr>"

definition getGovProposalParam :: "jsnum \<Rightarrow> RpcCallParam" where
  "getGovProposalParam proposalId =
     \<lparr>rpc_method = ''be_getGovProposal'', rpc_params = [ANum proposalId], rpc_version = ''2.0''\<rparr>"

definition getErc20BalanceParam :: "string \<Rightarrow> string list \<Rightarrow> RpcCallParam" where
  "getErc20BalanceParam address tokenAddresses =
     \<lparr>rpc_method = ''evm_getErc20Balance'', rpc_params = [AStr address, AStrs tokenAddresses], rpc_version = ''2.0''\<rparr>"

definition getCw20BalanceParam :: "string \<Rightarrow> string list \<Rightarrow> RpcCallParam" where
  "getCw20BalanceParam address tokenAddresses =
     \<lparr>rpc_method = ''evm_getCw20Balance'', rpc_params = [AStr address, AStrs tokenAddresses], rpc_version = ''2.0''\<rparr>"

definition getErc20ContractInfoParam :: "string \<Rightarrow> RpcCallParam" where
  "getErc20ContractInfoParam contractAddress =
     \<lparr>rpc_method = ''evm_getErc20ContractInfo'', rpc_params = [AStr contractAddress], rpc_version = ''2.0''\<rparr>"

definition getModuleParamsParam :: "string \<Rightarrow> RpcCallParam" where
  "getModuleParamsParam module =
     \<lparr>rpc_method = ''be_getModuleParams'', rpc_params = [AStr module], rpc_version = ''2.0''\<rparr>"

section \<open>The service\<close>

definition rpc_getChainInfo :: "RpcService \<Rightarrow> string option \<Rightarrow> request" where
  "rpc_getChainInfo this callRpcOptions =
     callRpc (rpcUrl this) (One getChainInfoParam) callRpcOptions"

definition rpc_getLatestBlockNumber :: "RpcService \<Rightarrow> string option \<Rightarrow> request" where
  "rpc_getLatestBlockNumber this callRpcOptions =
     callRpc (rpcUrl this) (One getLatestBlockNumberParam) callRpcOptions"

definition rpc_getBlockByNumber :: "RpcService \<Rightarrow> jsnum one_or_many \<Rightarrow> string option \<Rightarrow> request" where
  "rpc_getBlockByNumber this blockNumbers callRpcOptions =
     (case blockNumbers of
        Many xs \<Rightarrow> callRpc (rpcUrl this) (Many (map getBlockByNumberParam xs)) callRpcOptions
      | One x \<Rightarrow> callRpc (rpcUrl this) (One (getBlockByNumberParam x)) callRpcOptions)"

definition rpc_getRecentBlocks :: "RpcService \<Rightarrow> jsnum \<Rightarrow> jsnum \<Rightarrow> string option \<Rightarrow> request" where
  "rpc_getRecentBlocks this page pageSize callRpcOptions =
     callRpc (rpcUrl this) (One (getRecentBlocksParam page pageSize)) callRpcOptions"

definition rpc_getErc20ContractInfo :: "RpcService \<Rightarrow> string one_or_many \<Rightarrow> string option \<Rightarrow> request" where
  "rpc_getErc20ContractInfo this contractsAddress callRpcOptions =
     (case contractsAddress of
        Many xs \<Rightarrow> callRpc (rpcUrl this) (Many (map getErc20ContractInfoParam xs)) callRpcOptions
      | One x \<Rightarrow> callRpc (rpcUrl this) (One (getErc20ContractInfoParam x)) callRpcOptions)"

definition rpc_getTransactionByHash :: "RpcService \<Rightarrow> string \<Rightarrow> string option \<Rightarrow> request" where
  "rpc_getTransactionByHash this txHash callRpcOptions =
     callRpc (rpcUrl this) (One (getTransactionByHashParam txHash)) callRpcOptions"

definition rpc_getAccountBalances :: "RpcService \<Rightarrow> string \<Rightarrow> string option \<Rightarrow> request" where
  "rpc_getAccountBalances this address callRpcOptions =
     callRpc (rpcUrl this) (One (getAccountBalancesParam address)) callRpcOptions"

definition rpc_getDenomsMetadata :: "RpcService \<Rightarrow> int option \<Rightarrow> string option \<Rightarrow> request" where
  "rpc_getDenomsMetadata this pageNumber callRpcOptions =
     callRpc (rpcUrl this) (One (getDenomsMetadataParam pageNumber)) callRpcOptions"

definition rpc_getAccount :: "RpcService \<Rightarrow> string one_or_many \<Rightarrow> string option \<Rightarrow> request" where
  "rpc_getAccount this address callRpcOptions =
     (case address of
        Many xs \<Rightarrow> callRpc (rpcUrl this) (Many (map getAccountParam xs)) callRpcOptions
      | One x \<Rightarrow> callRpc (rpcUrl this) (One (getAccountParam x)) callRpcOptions)"

definition rpc_getValidator :: "RpcService \<Rightarrow> string \<Rightarrow> string option \<Rightarrow> request" where
  "rpc_getValidator this address callRpcOptions =
     callRpc (rpcUrl this) (One (getValidatorParam address)) callRpcOptions"

definition rpc_getValidators :: "RpcService \<Rightarrow> string option \<Rightarrow> request" where
  "rpc_getValidators this callRpcOptions =
     callRpc (rpcUrl this) (One getValidatorsParam) callRpcOptions"

definition rpc_getGovProposals :: "RpcService \<Rightarrow> jsnum \<Rightarrow> string option \<Rightarrow> request" where
  "rpc_getGovProposals this page callRpcOptions =
     callRpc (rpcUrl this) (One (getGovProposalsParam page)) callRpcOptions"

definition rpc_getGovProposal :: "RpcService \<Rightarrow> jsnum \<Rightarrow> string option \<Rightarrow> request" where
  "rpc_getGovProposal this proposalId callRpcOptions =
     callRpc (rpcUrl this) (One (getGovProposalParam proposalId)) callRpcOptions"

definition rpc_getErc20Balance :: "RpcService \<Rightarrow> string \<Rightarrow> string list \<Rightarrow> string option \<Rightarrow> request" where
  "rpc_getErc20Balance this address tokenAddresses callRpcOptions =
     callRpc (rpcUrl this) (One (getErc20BalanceParam address tokenAddresses)) callRpcOptions"

definition rpc_getCw20Balance :: "RpcService \<Rightarrow> string \<Rightarrow> string list \<Rightarrow> string option \<Rightarrow> request" where
  "rpc_getCw20Balance this address tokenAddresses callRpcOptions =
     callRpc (rpcUrl this) (One (getCw20BalanceParam address tokenAddresses)) callRpcOptions"

definition rpc_getModuleParams :: "RpcService \<Rightarrow> string \<Rightarrow> string option \<Rightarrow> request" where
  "rpc_getModuleParams this module callRpcOptions =
     callRpc (rpcUrl this) (One (getModuleParamsParam module)) callRpcOptions"

section \<open>Answers\<close>

text \<open>The text of an error in the message of the thrown \<open>Error\<close>, as \<open>JSON.stringify\<close> writes it.\<close>

definition json_char :: "char \<Rightarrow> string" where
  "json_char c =
     (if c = CHR 34 then [CHR 92, CHR 34]
      else if c = CHR 92 then [CHR 92, CHR 92]
      else if code c = 8 then [CHR 92, CHR ''b'']
      else if code c = 9 then [CHR 92, CHR ''t'']
      else if code c = 10 then [CHR 92, CHR ''n'']
      else if code c = 12 then [CHR 92, CHR ''f'']
      else if code c = 13 then [CHR 92, CHR ''r'']
      else if code c < 32 then [CHR 92] @ ''u00'' @ [digit_char (code c div 16), digit_char (code c mod 16)]
      else [c])"

definition json_string :: "string \<Rightarrow> string" where
  "json_string s = [CHR 34] @ concat (map json_char s) @ [CHR 34]"

definition json_error :: "rpcError \<Rightarrow> string" where
  "json_error e = ''{'' @ json_string ''code'' @ '':'' @ show_int (rpc_code e) @ '','' @
     json_string ''message'' @ '':'' @ json_string (rpc_message e) @ ''}''"

definition json_errors :: "rpcError list \<Rightarrow> string" where
  "json_errors es = ''['' @ join '','' (map json_error es) @ '']''"

text \<open>
  What a promise of a result settles to: the result, the object with the error, or \<open>undefined\<close>. A
  result is an object, so it is never falsy; the missing result and \<open>null\<close> are \<open>None\<close>.
\<close>

datatype 'r rpcResult = Result 'r | ErrorObj "rpcError option" | Undefined

definition getResponseResult :: "'r rpcResponse result \<Rightarrow> bool \<Rightarrow> 'r rpcResult result" where
  "getResponseResult rpcPromise throwError =
     rbind rpcPromise (\<lambda>response.
       case rr_error response of
         Some e \<Rightarrow> if throwError then Inl (Error (json_error e)) else Inr (ErrorObj (Some e))
       | None \<Rightarrow> (case rr_result response of Some r \<Rightarrow> Inr (Result r) | None \<Rightarrow> Inr Undefined))"

definition getResponseResults ::
    "'r rpcResponse list result \<Rightarrow> bool \<Rightarrow> 'r rpcResult list result" where
  "getResponseResults rpcPromise throwError =
     rbind rpcPromise (\<lambda>response.
       if list_ex (\<lambda>res. rr_error res \<noteq> None) response \<and> throwError
       then Inl (Error (json_errors (map (\<lambda>res. the (rr_error res))
              (filter (\<lambda>res. rr_error res \<noteq> None) response))))
       else Inr (map (\<lambda>res. case rr_result res of Some r \<Rightarrow> Result r | None \<Rightarrow> ErrorObj (rr_error res))
              response))"

section \<open>Facts\<close>

lemma callRpc_fields [simp]:
  "req_url (callRpc url ps opts) = url" "req_method (callRpc url ps opts) = ''POST''"
  "req_cache (callRpc url ps opts) = opts"
  by (simp_all add: callRpc_def Let_def)

lemma full_param_fields [simp]:
  "rpc_id (full_param p i) = i" "rpc_method (full_param p i) = rpc_method p"
  "rpc_params (full_param p i) = rpc_params p"
  by (simp_all add: full_param_def RpcCallParam.defs)

lemma batch_body:
  "req_body (callRpc url (Many ps) opts) = Many (map (\<lambda>(p, i). full_param p (i + 1)) (zip ps [0..<length ps]))"
  by (simp add: callRpc_def)

lemma getResponseResult_Inr:
  "getResponseResult p True = Inr x \<longleftrightarrow>
     (\<exists>r. p = Inr r \<and> rr_error r = None \<and> x = (case rr_result r of Some v \<Rightarrow> Result v | None \<Rightarrow> Undefined))"
  by (auto simp: getResponseResult_def result_simps split: option.splits)

section \<open>Properties\<close>

text \<open>
  In a batch the calls are sent in order, numbered from 1 without gaps, and the answers are read
  by their place, not by their number: the result at a place is the one of the answer at that
  place, so it belongs to the call of that place only when the answers come back in order.
\<close>

theorem batch_by_place:
  assumes "req_body (callRpc url (Many ps) opts) = Many fs"
    and "\<And>res. res \<in> set answers \<Longrightarrow> rr_error res = None"
  shows "(map rpc_id fs = [1..<Suc (length ps)]) \<and>
    (map rpc_params fs = map rpc_params ps) \<and>
    (getResponseResults (Inr answers) True =
      Inr (map (\<lambda>res. case rr_result res of Some r \<Rightarrow> Result r | None \<Rightarrow> ErrorObj None) answers))"
proof -
  have fs: "fs = map (\<lambda>(p, i). full_param p (i + 1)) (zip ps [0..<length ps])"
    using assms(1) by (simp add: batch_body)
  have "map rpc_id fs = map (\<lambda>(p, i). Suc i) (zip ps [0..<length ps])"
    unfolding fs by (simp add: comp_def case_prod_unfold)
  also have "\<dots> = map Suc (map snd (zip ps [0..<length ps]))"
    by (simp only: map_map comp_def case_prod_unfold)
  also have "\<dots> = [1..<Suc (length ps)]" by (simp add: map_Suc_upt del: map_map)
  finally have c1: "map rpc_id fs = [1..<Suc (length ps)]" .
  have "map rpc_params fs = map rpc_params (map fst (zip ps [0..<length ps]))"
    unfolding fs by (simp only: map_map comp_def case_prod_unfold full_param_fields)
  then have c2: "map rpc_params fs = map rpc_params ps" by (simp only: map_fst_zip length_upt diff_zero)
  have "\<not> list_ex (\<lambda>res. rr_error res \<noteq> None) answers"
    using assms(2) by (auto simp: list_ex_iff)
  then have c3: "getResponseResults (Inr answers) True =
      Inr (map (\<lambda>res. case rr_result res of Some r \<Rightarrow> Result r | None \<Rightarrow> ErrorObj None) answers)"
    using assms(2) by (auto simp: getResponseResults_def split: option.splits)
  show ?thesis using c1 c2 c3 by blast
qed

lemma batch_by_place_witness:
  "getResponseResults (Inr [\<lparr>rr_jsonrpc = ''2.0'', rr_id = 2, rr_result = Some (7::int), rr_error = None\<rparr>]) True
     = Inr [Result 7]"
proof -
  have "req_body (callRpc ''u'' (Many [getChainInfoParam]) None) = Many [full_param getChainInfoParam 1]"
    by (simp add: batch_body)
  from batch_by_place [OF this,
      of "[\<lparr>rr_jsonrpc = ''2.0'', rr_id = 2, rr_result = Some (7::int), rr_error = None\<rparr>]", THEN conjunct2, THEN conjunct2]
  show ?thesis by simp
qed

end
