(* ===== verification/Store.thy ===== *)
theory Store
  imports Rollapp Rpc
begin

text \<open>
  The store of the application: \<open>web-app/src/utils/store.ts\<close>, \<open>hooks/useStore.ts\<close>,
  \<open>stores/rollappStore.ts\<close> and \<open>components/client/commons/StoreProvider.tsx\<close>. The objects
  \<open>RollappInfo\<close> are created once, when the page is rendered, and then shared: the list of the
  store and its selected rollapp hold references to them, and \<open>RE_ORDER_ROLLAPPS\<close> writes into the
  objects. So they live in a heap, a list indexed by references, and the state holds references.

  \<open>dispatch\<close> is asynchronous: the action computes its partial state at once, and the state is
  merged after the \<open>await\<close>, in the order of the dispatches. A dispatch is therefore two steps,
  \<open>dispatch_start\<close> and \<open>dispatch_commit\<close>, with a queue of computed states between them.
\<close>

type_synonym ref = nat

record RollappState =
  rollappInfos :: "ref list"
  selectedRollappInfo :: "ref option"
  rpcService :: "RpcService option"
  denomsMetadata :: denomsMetadata
  hasGottenDenomsMetadata :: bool

text \<open>\<open>Partial<RollappState>\<close>: the fields an action returns. A selected rollapp may be set to
  \<open>null\<close>, which is \<open>Some None\<close>.\<close>

record partialState =
  p_rollappInfos :: "ref list option"
  p_selectedRollappInfo :: "ref option option"
  p_rpcService :: "RpcService option option"
  p_denomsMetadata :: "denomsMetadata option"
  p_hasGottenDenomsMetadata :: "bool option"

datatype action =
    PopulateChainData string
  | UpdateDenomsMetadata denomsMetadata
  | ReOrder "(string \<times> bool) option"

record appState =
  heap :: "RollappInfo list"
  storage :: localStorage
  state :: RollappState
  pending :: "partialState list"

section \<open>Selecting a rollapp\<close>

definition getSelectedRollappInfoByPathname ::
    "RollappInfo list \<Rightarrow> ref list \<Rightarrow> string \<Rightarrow> ref option" where
  "getSelectedRollappInfoByPathname h infos rollappPath =
     List.find (\<lambda>r. path (h ! r) = rollappPath) infos"

definition getRpcServiceFromSelectedRollappInfo ::
    "RollappInfo list \<Rightarrow> ref option \<Rightarrow> RpcService option" where
  "getRpcServiceFromSelectedRollappInfo h selected =
     (case selected of
        None \<Rightarrow> None
      | Some r \<Rightarrow>
          (case be_json_rpc_urls (h ! r) of [] \<Rightarrow> None | url # _ \<Rightarrow> Some \<lparr>rpcUrl = url\<rparr>))"

definition getInitialRollappState ::
    "RollappInfo list \<Rightarrow> ref list \<Rightarrow> string \<Rightarrow> RollappState result" where
  "getInitialRollappState h infos pathname =
     rmap (\<lambda>rollappPath.
        let selected = getSelectedRollappInfoByPathname h infos rollappPath
        in \<lparr>rollappInfos = infos, selectedRollappInfo = selected,
            rpcService = getRpcServiceFromSelectedRollappInfo h selected,
            denomsMetadata = [], hasGottenDenomsMetadata = False\<rparr>)
       (getRollappPathFromPathname pathname)"

section \<open>Actions\<close>

definition no_change :: partialState where
  "no_change = \<lparr>p_rollappInfos = None, p_selectedRollappInfo = None, p_rpcService = None,
     p_denomsMetadata = None, p_hasGottenDenomsMetadata = None\<rparr>"

definition populateChainDataByPathname :: "RollappInfo list \<Rightarrow> RollappState \<Rightarrow> string \<Rightarrow> partialState" where
  "populateChainDataByPathname h currentState rollappPath =
     (if map_option (\<lambda>r. path (h ! r)) (selectedRollappInfo currentState) = Some rollappPath
      then no_change
      else
        (let selected = getSelectedRollappInfoByPathname h (rollappInfos currentState) rollappPath
         in no_change\<lparr>p_selectedRollappInfo := Some selected,
              p_rpcService := Some (getRpcServiceFromSelectedRollappInfo h selected),
              p_denomsMetadata := Some [], p_hasGottenDenomsMetadata := Some False\<rparr>))"

definition updateDenomsMetadata :: "denomsMetadata \<Rightarrow> partialState" where
  "updateDenomsMetadata m = no_change\<lparr>p_denomsMetadata := Some m, p_hasGottenDenomsMetadata := Some True\<rparr>"

text \<open>\<open>getSortedRollappInfos\<close>: the flag of each object is written, then the references are sorted.\<close>

definition mark_favorites :: "FavoriteRollapps \<Rightarrow> ref list \<Rightarrow> RollappInfo list \<Rightarrow> RollappInfo list" where
  "mark_favorites favoriteRollapps infos h =
     foldl (\<lambda>h r. h[r := (h ! r)\<lparr>isFavorite := (obj_get favoriteRollapps (chain_id (h ! r)) = Some True)\<rparr>])
       h infos"

definition sort_infos ::
    "(string \<Rightarrow> string \<Rightarrow> int) \<Rightarrow> RollappInfo list \<Rightarrow> ref list \<Rightarrow> ref list" where
  "sort_infos localeCompare h infos =
     js_sort (\<lambda>a b. compare_favorite_name localeCompare (h ! a) (h ! b)) infos"

definition reOrderRollapps ::
    "(string \<Rightarrow> string \<Rightarrow> int) \<Rightarrow> RollappInfo list \<Rightarrow> localStorage \<Rightarrow> RollappState \<Rightarrow>
     (string \<times> bool) option \<Rightarrow> RollappInfo list \<times> localStorage \<times> partialState" where
  "reOrderRollapps localeCompare h st currentState newFavoriteInfo =
     (let favoriteRollapps = getFavoriteRollapps st in
      case newFavoriteInfo of
        None \<Rightarrow>
          (let h = mark_favorites favoriteRollapps (rollappInfos currentState) h
           in (h, st, no_change\<lparr>p_rollappInfos :=
                 Some (sort_infos localeCompare h (rollappInfos currentState))\<rparr>))
      | Some (chainId, fav) \<Rightarrow>
          (let favoriteRollapps = obj_set chainId fav favoriteRollapps;
               st = setFavoriteRollapps favoriteRollapps st;
               h = mark_favorites favoriteRollapps (rollappInfos currentState) h;
               infos = sort_infos localeCompare h (rollappInfos currentState);
               newState = no_change\<lparr>p_rollappInfos := Some infos\<rparr>
           in (h, st,
               if map_option (\<lambda>r. chain_id (h ! r)) (selectedRollappInfo currentState) = Some chainId
               then newState\<lparr>p_selectedRollappInfo :=
                      Some (List.find (\<lambda>r. chain_id (h ! r) = chainId) infos)\<rparr>
               else newState)))"

section \<open>Dispatch\<close>

definition run_action ::
    "(string \<Rightarrow> string \<Rightarrow> int) \<Rightarrow> action \<Rightarrow> appState \<Rightarrow> RollappInfo list \<times> localStorage \<times> partialState"
    where
  "run_action localeCompare a S =
     (case a of
        PopulateChainData p \<Rightarrow>
          (heap S, storage S, populateChainDataByPathname (heap S) (state S) p)
      | UpdateDenomsMetadata m \<Rightarrow> (heap S, storage S, updateDenomsMetadata m)
      | ReOrder fav \<Rightarrow> reOrderRollapps localeCompare (heap S) (storage S) (state S) fav)"

definition dispatch_start :: "(string \<Rightarrow> string \<Rightarrow> int) \<Rightarrow> action \<Rightarrow> appState \<Rightarrow> appState" where
  "dispatch_start localeCompare a S =
     (let (h, st, p) = run_action localeCompare a S
      in S\<lparr>heap := h, storage := st, pending := pending S @ [p]\<rparr>)"

text \<open>\<open>{ ...store.state, ...newState }\<close>\<close>

definition merge :: "RollappState \<Rightarrow> partialState \<Rightarrow> RollappState" where
  "merge s p =
     \<lparr>rollappInfos = (case p_rollappInfos p of None \<Rightarrow> rollappInfos s | Some x \<Rightarrow> x),
      selectedRollappInfo =
        (case p_selectedRollappInfo p of None \<Rightarrow> selectedRollappInfo s | Some x \<Rightarrow> x),
      rpcService = (case p_rpcService p of None \<Rightarrow> rpcService s | Some x \<Rightarrow> x),
      denomsMetadata = (case p_denomsMetadata p of None \<Rightarrow> denomsMetadata s | Some x \<Rightarrow> x),
      hasGottenDenomsMetadata =
        (case p_hasGottenDenomsMetadata p of None \<Rightarrow> hasGottenDenomsMetadata s | Some x \<Rightarrow> x)\<rparr>"

definition dispatch_commit :: "appState \<Rightarrow> appState" where
  "dispatch_commit S =
     (case pending S of
        [] \<Rightarrow> S
      | p # ps \<Rightarrow> S\<lparr>state := merge (state S) p, pending := ps\<rparr>)"

definition dispatch :: "(string \<Rightarrow> string \<Rightarrow> int) \<Rightarrow> action \<Rightarrow> appState \<Rightarrow> appState" where
  "dispatch localeCompare a S = dispatch_commit (dispatch_start localeCompare a S)"

text \<open>
  The first rendering of \<open>StoreProvider\<close>: the store is created from the infos and the path of the
  page; the effect then dispatches \<open>RE_ORDER_ROLLAPPS\<close> without a payload.
\<close>

definition init_store :: "RollappInfo list \<Rightarrow> localStorage \<Rightarrow> string \<Rightarrow> appState result" where
  "init_store infos st pathname =
     rmap (\<lambda>s. \<lparr>heap = infos, storage = st, state = s, pending = []\<rparr>)
       (getInitialRollappState infos [0..<length infos] pathname)"

definition mount_store ::
    "(string \<Rightarrow> string \<Rightarrow> int) \<Rightarrow> RollappInfo list \<Rightarrow> localStorage \<Rightarrow> string \<Rightarrow> appState result" where
  "mount_store localeCompare infos st pathname =
     rmap (dispatch localeCompare (ReOrder None)) (init_store infos st pathname)"

section \<open>Listeners\<close>

text \<open>
  The listeners of a store, identified by the component that registered its setter. \<open>shouldListen\<close>
  decides whether mounting and unmounting the component changes the list; a commit calls the
  listeners in order with the new state.
\<close>

definition listen :: "bool \<Rightarrow> nat \<Rightarrow> nat list \<Rightarrow> nat list" where
  "listen shouldListen setState listeners = (if shouldListen then listeners @ [setState] else listeners)"

definition unlisten :: "bool \<Rightarrow> nat \<Rightarrow> nat list \<Rightarrow> nat list" where
  "unlisten shouldListen setState listeners =
     (if shouldListen then filter (\<lambda>li. li \<noteq> setState) listeners else listeners)"

definition notify :: "nat list \<Rightarrow> RollappState \<Rightarrow> (nat \<Rightarrow> RollappState) \<Rightarrow> nat \<Rightarrow> RollappState" where
  "notify listeners s seen = foldl (\<lambda>m li. m(li := s)) seen listeners"

section \<open>Facts\<close>

lemma merge_fields [simp]:
  "rollappInfos (merge s p) = (case p_rollappInfos p of None \<Rightarrow> rollappInfos s | Some x \<Rightarrow> x)"
  "selectedRollappInfo (merge s p) =
     (case p_selectedRollappInfo p of None \<Rightarrow> selectedRollappInfo s | Some x \<Rightarrow> x)"
  "rpcService (merge s p) = (case p_rpcService p of None \<Rightarrow> rpcService s | Some x \<Rightarrow> x)"
  "denomsMetadata (merge s p) = (case p_denomsMetadata p of None \<Rightarrow> denomsMetadata s | Some x \<Rightarrow> x)"
  "hasGottenDenomsMetadata (merge s p) =
     (case p_hasGottenDenomsMetadata p of None \<Rightarrow> hasGottenDenomsMetadata s | Some x \<Rightarrow> x)"
  by (simp_all add: merge_def)

lemma no_change_fields [simp]:
  "p_rollappInfos no_change = None" "p_selectedRollappInfo no_change = None"
  "p_rpcService no_change = None" "p_denomsMetadata no_change = None"
  "p_hasGottenDenomsMetadata no_change = None"
  by (simp_all add: no_change_def)

text \<open>What the objects are apart from the flag that \<open>RE_ORDER_ROLLAPPS\<close> writes.\<close>

definition fixed_part :: "RollappInfo \<Rightarrow> RollappInfo" where
  "fixed_part r = r\<lparr>isFavorite := False\<rparr>"

lemma fixed_part_eq:
  "fixed_part a = fixed_part b \<Longrightarrow>
     path a = path b \<and> chain_id a = chain_id b \<and> name a = name b \<and>
     be_json_rpc_urls a = be_json_rpc_urls b \<and> chain_type a = chain_type b"
  by (cases a; cases b) (simp add: fixed_part_def)

lemma length_mark [simp]: "length (mark_favorites f infos h) = length h"
  by (induction infos arbitrary: h) (simp_all add: mark_favorites_def)

lemma mark_Cons:
  "mark_favorites f (r # infos) h = mark_favorites f infos
     (h[r := (h ! r)\<lparr>isFavorite := (obj_get f (chain_id (h ! r)) = Some True)\<rparr>])"
  by (simp add: mark_favorites_def)

lemma mark_nth:
  "i < length h \<Longrightarrow> mark_favorites f infos h ! i =
     (if i \<in> set infos then (h ! i)\<lparr>isFavorite := (obj_get f (chain_id (h ! i)) = Some True)\<rparr>
      else h ! i)"
proof (induction infos arbitrary: h)
  case Nil
  then show ?case by (simp add: mark_favorites_def)
next
  case (Cons r infos)
  then show ?case by (cases "r = i") (simp_all add: mark_Cons)
qed

lemma mark_fixed: "i < length h \<Longrightarrow> fixed_part (mark_favorites f infos h ! i) = fixed_part (h ! i)"
  by (simp add: mark_nth fixed_part_def)

lemma mark_map_fixed: "map fixed_part (mark_favorites f infos h) = map fixed_part h"
  by (intro nth_equalityI) (simp_all add: mark_fixed)

text \<open>Selecting depends on the fixed parts only.\<close>

lemma same_fixed:
  assumes "map fixed_part h = map fixed_part h'" and "r < length h"
  shows "path (h ! r) = path (h' ! r)" and "chain_id (h ! r) = chain_id (h' ! r)"
    and "be_json_rpc_urls (h ! r) = be_json_rpc_urls (h' ! r)"
proof -
  from assms have "fixed_part (h ! r) = fixed_part (h' ! r)"
    by (metis length_map nth_map)
  from fixed_part_eq [OF this] show "path (h ! r) = path (h' ! r)"
    and "chain_id (h ! r) = chain_id (h' ! r)" and "be_json_rpc_urls (h ! r) = be_json_rpc_urls (h' ! r)"
    by auto
qed

lemma rpc_service_fixed:
  "map fixed_part h = map fixed_part h' \<Longrightarrow> (\<And>r. sel = Some r \<Longrightarrow> r < length h) \<Longrightarrow>
   getRpcServiceFromSelectedRollappInfo h sel = getRpcServiceFromSelectedRollappInfo h' sel"
  by (cases sel) (auto simp: getRpcServiceFromSelectedRollappInfo_def same_fixed(3))

lemma selected_in: "getSelectedRollappInfoByPathname h infos p = Some r \<Longrightarrow> r \<in> set infos"
  by (auto simp: getSelectedRollappInfoByPathname_def dest: find_Some_in)

section \<open>The invariant of all interleavings\<close>

definition infos_ok :: "nat \<Rightarrow> ref list \<Rightarrow> bool" where
  "infos_ok n infos \<longleftrightarrow> mset infos = mset [0..<n]"

definition store_inv :: "RollappInfo list \<Rightarrow> appState \<Rightarrow> bool" where
  "store_inv objs S \<longleftrightarrow>
     map fixed_part (heap S) = map fixed_part objs \<and>
     infos_ok (length objs) (rollappInfos (state S)) \<and>
     (\<forall>r. selectedRollappInfo (state S) = Some r \<longrightarrow> r < length objs) \<and>
     (\<forall>p\<in>set (pending S).
        (\<forall>xs. p_rollappInfos p = Some xs \<longrightarrow> infos_ok (length objs) xs) \<and>
        (\<forall>r. p_selectedRollappInfo p = Some (Some r) \<longrightarrow> r < length objs))"

inductive store_step :: "(string \<Rightarrow> string \<Rightarrow> int) \<Rightarrow> appState \<Rightarrow> appState \<Rightarrow> bool"
  for lc :: "string \<Rightarrow> string \<Rightarrow> int" where
  start: "store_step lc S (dispatch_start lc a S)"
| commit: "pending S \<noteq> [] \<Longrightarrow> store_step lc S (dispatch_commit S)"

inductive store_reachable :: "(string \<Rightarrow> string \<Rightarrow> int) \<Rightarrow> appState \<Rightarrow> appState \<Rightarrow> bool"
  for lc :: "string \<Rightarrow> string \<Rightarrow> int" and S0 :: appState where
  init: "store_reachable lc S0 S0"
| step: "store_reachable lc S0 S \<Longrightarrow> store_step lc S S' \<Longrightarrow> store_reachable lc S0 S'"

inductive_cases store_stepE: "store_step lc S S'"

lemma infos_ok_set: "infos_ok n xs \<Longrightarrow> set xs = {0..<n}"
  unfolding infos_ok_def by (metis mset_eq_setD set_upt)

lemma infos_ok_distinct: "infos_ok n xs \<Longrightarrow> distinct xs"
  unfolding infos_ok_def by (metis distinct_upt mset_eq_imp_distinct_iff)

lemma infos_ok_sort: "infos_ok n xs \<Longrightarrow> infos_ok n (sort_infos lc h xs)"
  by (simp add: infos_ok_def sort_infos_def)

lemma run_action_inv:
  assumes "store_inv objs S" and "run_action lc a S = (h, st, p)"
  shows "map fixed_part h = map fixed_part objs"
    and "p_rollappInfos p = Some xs \<Longrightarrow> infos_ok (length objs) xs"
    and "p_selectedRollappInfo p = Some (Some r) \<Longrightarrow> r < length objs"
proof -
  have inv: "map fixed_part (heap S) = map fixed_part objs"
    "infos_ok (length objs) (rollappInfos (state S))" using assms(1) by (simp_all add: store_inv_def)
  have lt: "r \<in> set (rollappInfos (state S)) \<Longrightarrow> r < length objs" for r
    using infos_ok_set [OF inv(2)] by simp
  have "h = heap S \<or> (\<exists>f. h = mark_favorites f (rollappInfos (state S)) (heap S))"
    using assms(2)
    by (auto simp: run_action_def reOrderRollapps_def Let_def
        split: action.splits option.splits prod.splits if_splits) metis+
  then show "map fixed_part h = map fixed_part objs"
    using inv(1) by (auto simp: mark_map_fixed)
  show "infos_ok (length objs) xs" if "p_rollappInfos p = Some xs"
    using assms(2) that inv(2)
    by (auto simp: run_action_def reOrderRollapps_def populateChainDataByPathname_def
        updateDenomsMetadata_def infos_ok_sort Let_def
        split: action.splits option.splits prod.splits if_splits)
  show "r < length objs" if "p_selectedRollappInfo p = Some (Some r)"
  proof (cases a)
    case (PopulateChainData q)
    with assms(2) that show ?thesis
      by (auto simp: run_action_def populateChainDataByPathname_def Let_def split: if_splits
          dest!: selected_in intro: lt)
  next
    case (UpdateDenomsMetadata m)
    with assms(2) that show ?thesis by (auto simp: run_action_def updateDenomsMetadata_def)
  next
    case (ReOrder fav)
    with assms(2) that have "r \<in> set (rollappInfos (state S))"
      by (auto simp: run_action_def reOrderRollapps_def sort_infos_def Let_def
          split: option.splits prod.splits if_splits dest!: find_Some_in)
    then show ?thesis by (rule lt)
  qed
qed

lemma store_inv_start: "store_inv objs S \<Longrightarrow> store_inv objs (dispatch_start lc a S)"
proof -
  assume inv: "store_inv objs S"
  obtain h st p where r: "run_action lc a S = (h, st, p)" by (cases "run_action lc a S")
  show ?thesis
    using inv run_action_inv [OF inv r] by (auto simp: store_inv_def dispatch_start_def r)
qed

lemma store_inv_commit: "store_inv objs S \<Longrightarrow> store_inv objs (dispatch_commit S)"
  by (auto simp: store_inv_def dispatch_commit_def split: list.splits option.splits)

lemma store_inv_step: "store_inv objs S \<Longrightarrow> store_step lc S S' \<Longrightarrow> store_inv objs S'"
  by (erule store_stepE) (auto intro: store_inv_start store_inv_commit)

lemma store_inv_reachable: "store_reachable lc S0 S \<Longrightarrow> store_inv objs S0 \<Longrightarrow> store_inv objs S"
  by (induction rule: store_reachable.induct) (auto intro: store_inv_step)

lemma store_inv_init:
  assumes "init_store objs st pathname = Inr S"
  shows "store_inv objs S"
proof -
  obtain p where "getRollappPathFromPathname pathname = Inr p" and
    S: "S = \<lparr>heap = objs, storage = st,
       state = (let selected = getSelectedRollappInfoByPathname objs [0..<length objs] p
         in \<lparr>rollappInfos = [0..<length objs], selectedRollappInfo = selected,
             rpcService = getRpcServiceFromSelectedRollappInfo objs selected,
             denomsMetadata = [], hasGottenDenomsMetadata = False\<rparr>), pending = []\<rparr>"
    using assms by (auto simp: init_store_def getInitialRollappState_def result_simps)
  then show ?thesis
    by (auto simp: store_inv_def infos_ok_def Let_def dest: selected_in)
qed

text \<open>Reordering finds the selected rollapp again, as the chains have different ids.\<close>

lemma find_marked:
  assumes "store_inv objs S" and "distinct (map chain_id objs)" and "r < length objs"
    and "h = mark_favorites f (rollappInfos (state S)) (heap S)" and "chain_id (h ! r) = cid"
  shows "List.find (\<lambda>x. chain_id (h ! x) = cid) (sort_infos lc h (rollappInfos (state S))) = Some r"
proof (rule find_unique)
  have inv: "map fixed_part (heap S) = map fixed_part objs" "infos_ok (length objs) (rollappInfos (state S))"
    using assms(1) by (simp_all add: store_inv_def)
  have len: "length (heap S) = length objs" using inv(1) by (rule map_eq_imp_length_eq)
  have ids: "chain_id (h ! x) = map chain_id objs ! x" if "x < length objs" for x
    using that same_fixed(2) [of h objs x] inv(1) len by (simp add: assms(4) mark_map_fixed)
  have all: "set (sort_infos lc h (rollappInfos (state S))) = {0..<length objs}"
    using infos_ok_set [OF infos_ok_sort [OF inv(2)]] .
  show "r \<in> set (sort_infos lc h (rollappInfos (state S)))" using all assms(3) by simp
  show "y = r" if "y \<in> set (sort_infos lc h (rollappInfos (state S)))" "chain_id (h ! y) = cid" for y
    using that all ids assms(2,3) assms(5) [symmetric] by (simp add: nth_eq_iff_index_eq del: nth_map)
qed (rule assms(5))

lemma reorder_selected:
  assumes "pending S = []" and "store_inv objs S" and "distinct (map chain_id objs)"
  shows "selectedRollappInfo (state (dispatch lc (ReOrder x) S)) = selectedRollappInfo (state S)"
proof (cases "selectedRollappInfo (state S)")
  case None
  then show ?thesis
    using assms(1) by (auto simp: dispatch_def dispatch_commit_def dispatch_start_def run_action_def reOrderRollapps_def
        Let_def split: option.splits)
next
  case (Some r)
  then have "r < length objs" using assms(2) by (simp add: store_inv_def)
  with Some show ?thesis
    using assms(1) find_marked [OF assms(2,3) _ refl]
    by (auto simp: dispatch_def dispatch_commit_def dispatch_start_def run_action_def reOrderRollapps_def
        Let_def split: option.splits)
qed

section \<open>Properties\<close>

text \<open>
  C2: Whatever actions are dispatched and however their commits are interleaved with other
  dispatches, the store keeps the rollapps it was created with: its list is a permutation of all of
  them, each of them differs from its first version in the favourite flag at most, and the selected
  rollapp is one of them.
\<close>

theorem store_keeps_rollapps:
  assumes "init_store objs st pathname = Inr S0" and "store_reachable lc S0 S"
  shows "(mset (rollappInfos (state S)) = mset [0..<length objs]) \<and>
    (map fixed_part (heap S) = map fixed_part objs) \<and>
    (selectedRollappInfo (state S) = Some r \<longrightarrow>
      r < length (heap S))"
proof -
  have inv: "store_inv objs S"
    using store_inv_reachable [OF assms(2) store_inv_init [OF assms(1)]] .
  then have c1: "mset (rollappInfos (state S)) = mset [0..<length objs]"
    and c2: "map fixed_part (heap S) = map fixed_part objs"
    by (simp_all add: store_inv_def infos_ok_def)
  from inv c2 have c3: "selectedRollappInfo (state S) = Some r \<Longrightarrow> r < length (heap S)"
    by (auto simp: store_inv_def dest: map_eq_imp_length_eq)
  show ?thesis using c1 c2 c3 by blast
qed

definition two_rollapps :: "RollappInfo list" where
  "two_rollapps = normalizeRollappsInfo [sample_chain ''Nim'' ''nim_1'', sample_chain ''Dym'' ''dym_1'']"

definition sample_store :: appState where
  "sample_store = (case init_store two_rollapps [] ''/nim/blocks'' of Inr S \<Rightarrow> S)"

lemma sample_store: "init_store two_rollapps [] ''/nim/blocks'' = Inr sample_store"
proof -
  have "\<exists>S. init_store two_rollapps [] ''/nim/blocks'' = Inr S"
    by (simp add: init_store_def getInitialRollappState_def rollapp_path_slash)
  then show ?thesis by (auto simp: sample_store_def)
qed

lemma store_keeps_rollapps_witness:
  "mset (rollappInfos (state (dispatch_start compare_units (ReOrder (Some (''dym_1'', True))) sample_store))) =
     mset [0..<length two_rollapps]"
  by (rule store_keeps_rollapps [OF sample_store, THEN conjunct1])
    (rule store_reachable.step [OF store_reachable.init store_step.start])

text \<open>
  C1: Marking a rollapp as a favourite and reordering: the choice is stored, every object of the
  list has the flag that is now stored for its chain, the list holds the same rollapps, favourites
  first and each group by name, and the rollapp that is selected, its service and the metadata of
  its denoms stay what they were.
\<close>

theorem reorder_favorites:
  assumes "collation lc" and "pending S = []" and "store_inv objs S"
    and "distinct (map chain_id objs)" and "S' = dispatch lc (ReOrder (Some (cid, fav))) S"
  shows "(getFavoriteRollapps (storage S') = obj_set cid fav (getFavoriteRollapps (storage S))) \<and>
    (\<forall>r<length objs. isFavorite (heap S' ! r) = is_favorite (storage S') (chain_id (objs ! r))) \<and>
    (sorted_wrt (\<lambda>a b. isFavorite b \<longrightarrow> isFavorite a) (map ((!) (heap S')) (rollappInfos (state S')))) \<and>
    (sorted_wrt (\<lambda>a b. isFavorite a = isFavorite b \<longrightarrow> lc (name a) (name b) \<le> 0)
      (map ((!) (heap S')) (rollappInfos (state S')))) \<and>
    (mset (rollappInfos (state S')) = mset (rollappInfos (state S))) \<and>
    (selectedRollappInfo (state S') = selectedRollappInfo (state S)) \<and>
    (rpcService (state S') = rpcService (state S)) \<and>
    (denomsMetadata (state S') = denomsMetadata (state S))"
proof -
  let ?f = "obj_set cid fav (getFavoriteRollapps (storage S))"
  let ?h = "mark_favorites ?f (rollappInfos (state S)) (heap S)"
  let ?infos = "sort_infos lc ?h (rollappInfos (state S))"
  have inv: "map fixed_part (heap S) = map fixed_part objs"
    "infos_ok (length objs) (rollappInfos (state S))"
    "\<And>r. selectedRollappInfo (state S) = Some r \<Longrightarrow> r < length objs"
    using assms(3) by (simp_all add: store_inv_def)
  have len: "length (heap S) = length objs" using inv(1) by (rule map_eq_imp_length_eq)
  have st: "storage S' = setFavoriteRollapps ?f (storage S)" and hp: "heap S' = ?h"
    and infos: "rollappInfos (state S') = ?infos"
    and rest: "rpcService (state S') = rpcService (state S)"
      "denomsMetadata (state S') = denomsMetadata (state S)"
    and sel: "selectedRollappInfo (state S') =
      (if map_option (\<lambda>r. chain_id (?h ! r)) (selectedRollappInfo (state S)) = Some cid
       then List.find (\<lambda>r. chain_id (?h ! r) = cid) ?infos else selectedRollappInfo (state S))"
    unfolding assms(5) dispatch_def dispatch_commit_def dispatch_start_def
    by (auto simp: run_action_def reOrderRollapps_def assms(2) Let_def)
  have c1: "getFavoriteRollapps (storage S') = ?f" by (simp add: st)
  have c7: "rpcService (state S') = rpcService (state S)"
    and c8: "denomsMetadata (state S') = denomsMetadata (state S)" by (rule rest)+
  have ids: "chain_id (?h ! r) = chain_id (objs ! r)" if "r < length objs" for r
    using that same_fixed(2) [of ?h objs r] inv(1) len by (simp add: mark_map_fixed)
  have c2: "\<forall>r<length objs. isFavorite (heap S' ! r) = is_favorite (storage S') (chain_id (objs ! r))"
    using infos_ok_set [OF inv(2)] ids len
    by (auto simp: hp st mark_nth is_favorite_def dest: spec)
  have c5: "mset (rollappInfos (state S')) = mset (rollappInfos (state S))"
    by (simp add: infos sort_infos_def)
  have sorted: "map ((!) (heap S')) (rollappInfos (state S')) =
      js_sort (compare_favorite_name lc) (map ((!) ?h) (rollappInfos (state S)))"
    unfolding infos hp sort_infos_def by (rule map_js_sort)
  have c3: "sorted_wrt (\<lambda>a b. isFavorite b \<longrightarrow> isFavorite a) (map ((!) (heap S')) (rollappInfos (state S')))"
    unfolding sorted by (rule collation.favorites_first [OF assms(1)])
  have c4: "sorted_wrt (\<lambda>a b. isFavorite a = isFavorite b \<longrightarrow> lc (name a) (name b) \<le> 0)
      (map ((!) (heap S')) (rollappInfos (state S')))"
    unfolding sorted
    by (rule sorted_wrt_mono_rel [OF _ collation.sorted_rollapps [OF assms(1)]])
      (auto simp: compare_favorite_name_def split: if_splits)
  have c6: "selectedRollappInfo (state S') = selectedRollappInfo (state S)"
    unfolding assms(5) by (rule reorder_selected [OF assms(2-4)])
  show ?thesis using c1 c2 c3 c4 c5 c6 c7 c8 by blast
qed

lemma reorder_favorites_witness:
  "rpcService (state (dispatch compare_units (ReOrder (Some (''dym_1'', True))) sample_store)) =
     rpcService (state sample_store)"
proof (rule reorder_favorites [OF units_collation.collation_axioms _ store_inv_init [OF sample_store] _ refl, THEN conjunct2, THEN conjunct2, THEN conjunct2, THEN conjunct2, THEN conjunct2, THEN conjunct2, THEN conjunct1])
  have "pending S = []" if "init_store objs st p = Inr S" for objs st p S
    using that by (auto simp: init_store_def result_simps)
  then show "pending sample_store = []" using sample_store by blast
  show "distinct (map chain_id two_rollapps)"
    by (simp add: two_rollapps_def normalizeRollappsInfo_def sample_chain_def)
qed

text \<open>The service of the store belongs to its selected rollapp.\<close>

definition service_ok :: "appState \<Rightarrow> bool" where
  "service_ok S \<longleftrightarrow>
     rpcService (state S) = getRpcServiceFromSelectedRollappInfo (heap S) (selectedRollappInfo (state S))"

lemma service_ok_dispatch:
  assumes "pending S = []" and "store_inv objs S" and "distinct (map chain_id objs)" and "service_ok S"
  shows "service_ok (dispatch lc a S)"
proof (cases a)
  case (PopulateChainData p)
  then show ?thesis
    using assms(1,4)
    by (simp add: service_ok_def dispatch_def dispatch_commit_def dispatch_start_def run_action_def
        populateChainDataByPathname_def Let_def)
next
  case (UpdateDenomsMetadata m)
  then show ?thesis
    using assms(1,4)
    by (simp add: service_ok_def dispatch_def dispatch_commit_def dispatch_start_def run_action_def updateDenomsMetadata_def)
next
  case (ReOrder x)
  let ?S = "dispatch lc (ReOrder x) S"
  have "map fixed_part (heap ?S) = map fixed_part (heap S)" "rpcService (state ?S) = rpcService (state S)"
    using assms(1) by (auto simp: dispatch_def dispatch_commit_def dispatch_start_def run_action_def reOrderRollapps_def
        mark_map_fixed Let_def split: option.splits)
  moreover have "r < length (heap S)" if "selectedRollappInfo (state S) = Some r" for r
    using assms(2) that by (auto simp: store_inv_def dest: map_eq_imp_length_eq)
  ultimately show ?thesis
    using assms(4) reorder_selected [OF assms(1-3), of lc x] rpc_service_fixed [of "heap ?S" "heap S"] ReOrder
    by (simp add: service_ok_def) (metis map_eq_imp_length_eq)
qed

text \<open>
  Going to the path of another rollapp, when no other dispatch is under way: the rollapp
  selected is the first of the list with that path, or none, the service is made from its first
  address, and the metadata of the former rollapp's denoms is gone; going to the path of the
  selected rollapp changes nothing.
\<close>

theorem populate_selects:
  assumes "pending S = []" and "store_inv objs S" and "service_ok S"
    and "S' = dispatch lc (PopulateChainData p) S"
  shows "(service_ok S') \<and>
    (map_option (\<lambda>r. path (objs ! r)) (selectedRollappInfo (state S)) = Some p \<longrightarrow>
      S' = S) \<and>
    (map_option (\<lambda>r. path (objs ! r)) (selectedRollappInfo (state S)) \<noteq> Some p \<longrightarrow>
      selectedRollappInfo (state S') =
        List.find (\<lambda>r. path (objs ! r) = p) (rollappInfos (state S)) \<and>
      denomsMetadata (state S') = [] \<and> \<not> hasGottenDenomsMetadata (state S'))"
proof -
  have inv: "map fixed_part (heap S) = map fixed_part objs"
    "infos_ok (length objs) (rollappInfos (state S))"
    "\<And>r. selectedRollappInfo (state S) = Some r \<Longrightarrow> r < length objs"
    using assms(2) by (simp_all add: store_inv_def)
  have len: "length (heap S) = length objs" using inv(1) by (rule map_eq_imp_length_eq)
  have paths: "path (heap S ! r) = path (objs ! r)" if "r < length objs" for r
    using same_fixed(1) [OF inv(1)] that len by simp
  have sel: "map_option (\<lambda>r. path (heap S ! r)) (selectedRollappInfo (state S)) =
      map_option (\<lambda>r. path (objs ! r)) (selectedRollappInfo (state S))"
    using inv(3) paths by (cases "selectedRollappInfo (state S)") auto
  have find: "getSelectedRollappInfoByPathname (heap S) (rollappInfos (state S)) p =
      List.find (\<lambda>r. path (objs ! r) = p) (rollappInfos (state S))"
    unfolding getSelectedRollappInfoByPathname_def
    using paths infos_ok_set [OF inv(2)] by (intro find_cong) auto
  have S': "S' = S\<lparr>state := merge (state S) (populateChainDataByPathname (heap S) (state S) p)\<rparr>"
    unfolding assms(4) dispatch_def dispatch_commit_def dispatch_start_def
    by (simp add: run_action_def assms(1))
  have c1: "service_ok S'"
    using assms(3) by (simp add: S' service_ok_def populateChainDataByPathname_def Let_def)
  have c2: "S' = S" if "map_option (\<lambda>r. path (objs ! r)) (selectedRollappInfo (state S)) = Some p"
    using that unfolding S' populateChainDataByPathname_def sel by (simp add: merge_def)
  have c3: "selectedRollappInfo (state S') =
        List.find (\<lambda>r. path (objs ! r) = p) (rollappInfos (state S)) \<and>
      denomsMetadata (state S') = [] \<and> \<not> hasGottenDenomsMetadata (state S')"
    if "map_option (\<lambda>r. path (objs ! r)) (selectedRollappInfo (state S)) \<noteq> Some p"
    unfolding S' populateChainDataByPathname_def sel find if_not_P [OF that] by (simp add: Let_def)
  show ?thesis using c1 c2 c3 by blast
qed

lemma populate_selects_witness:
  "selectedRollappInfo (state (dispatch compare_units (PopulateChainData ''/dym'') sample_store)) = Some 1"
proof -
  have st: "pending sample_store = [] \<and> service_ok sample_store \<and>
      selectedRollappInfo (state sample_store) = Some 0 \<and> rollappInfos (state sample_store) = [0, 1]"
    unfolding service_ok_def by code_simp
  have paths: "path (two_rollapps ! 0) = ''/nim''" "path (two_rollapps ! 1) = ''/dym''"
    by code_simp+
  from st populate_selects [OF _ store_inv_init [OF sample_store] _ refl, of compare_units "''/dym''", THEN conjunct2, THEN conjunct2]
  show ?thesis by (simp add: paths paths(2) [simplified])
qed

text \<open>
  C40: Commits that wait while another action is computed can undo it. If the selected rollapp is
  marked as a favourite while the change to another rollapp has been computed but not committed,
  the former rollapp is selected again, with the service of the other one.
\<close>

theorem overlapping_dispatches:
  "\<exists>S. store_reachable compare_units sample_store S \<and> pending S = [] \<and>
     selectedRollappInfo (state S) = Some 0 \<and>
     rpcService (state S) = getRpcServiceFromSelectedRollappInfo (heap S) (Some 1) \<and>
     rpcService (state S) \<noteq> getRpcServiceFromSelectedRollappInfo (heap S) (Some 0)"
proof -
  let ?S1 = "dispatch_start compare_units (PopulateChainData ''/dym'') sample_store"
  let ?S2 = "dispatch_start compare_units (ReOrder (Some (''nim_1'', True))) ?S1"
  let ?S4 = "dispatch_commit (dispatch_commit ?S2)"
  have "store_reachable compare_units sample_store ?S2"
    by (intro store_reachable.step [OF _ store_step.start] store_reachable.init)
  moreover have "pending ?S2 \<noteq> []" "pending (dispatch_commit ?S2) \<noteq> []" by code_simp+
  ultimately have "store_reachable compare_units sample_store ?S4"
    by (intro store_reachable.step [OF _ store_step.commit])
  moreover have "pending ?S4 = [] \<and> selectedRollappInfo (state ?S4) = Some 0 \<and>
      rpcService (state ?S4) = getRpcServiceFromSelectedRollappInfo (heap ?S4) (Some 1) \<and>
      rpcService (state ?S4) \<noteq> getRpcServiceFromSelectedRollappInfo (heap ?S4) (Some 0)"
    by code_simp
  ultimately show ?thesis by blast
qed

end
