(* ===== verification/Db.thy ===== *)
theory Db
  imports Rollapp Transaction
begin

text \<open>
  The database queries: \<open>web-app/src/services/db/{chainInfo,accounts,transactions}.ts\<close>,
  \<open>utils/db.ts\<close> and \<open>actions/transaction.ts\<close>. The client of the database is a package, so a query
  is modelled as the data that is handed to it, a \<open>query\<close> with its condition; \<open>holds\<close> says which
  rows satisfy a condition, as the package documents it (a comparison with a column that is null
  does not hold).
\<close>

section \<open>Queries\<close>

datatype dbval = DNull | DBool bool | DInt int | DStr string | DStrs "string list" | DJson "string obj"

type_synonym row = "string \<Rightarrow> dbval"

datatype cond =
    Equals string dbval
  | Gt string int
  | Gte string jsnum
  | OneOf string "string list"
  | Contains string string
  | JsonEquals string string string
  | AllOf "cond list"
  | AnyOf "cond list"

datatype order = Asc | Desc

record pagination =
  skip :: "nat option"
  take_n :: "nat option"

record query =
  q_model :: string
  q_action :: string
  q_select :: "string list option"
  q_where :: cond
  q_orderBy :: "(string \<times> order) list"
  q_page :: pagination
  q_cache :: bool

fun holds :: "cond \<Rightarrow> row \<Rightarrow> bool" where
  "holds (Equals f v) r = (r f = v)"
| "holds (Gt f n) r = (case r f of DInt i \<Rightarrow> n < i | _ \<Rightarrow> False)"
| "holds (Gte f n) r = (case r f of DInt i \<Rightarrow> num_le n (Num i) | _ \<Rightarrow> False)"
| "holds (OneOf f vs) r = (case r f of DStr s \<Rightarrow> s \<in> set vs | _ \<Rightarrow> False)"
| "holds (Contains f v) r = (case r f of DStr s \<Rightarrow> includes_str s v | _ \<Rightarrow> False)"
| "holds (JsonEquals f p v) r = (case r f of DJson m \<Rightarrow> obj_get m p = Some v | _ \<Rightarrow> False)"
| "holds (AllOf cs) r = list_all (\<lambda>c. holds c r) cs"
| "holds (AnyOf cs) r = list_ex (\<lambda>c. holds c r) cs"

definition no_page :: pagination where
  "no_page = \<lparr>skip = None, take_n = None\<rparr>"

section \<open>Chains\<close>

text \<open>\<open>now\<close> is \<open>dayjs().unix()\<close> when the query is built.\<close>

definition getExcludePostponedChainCondition :: "int \<Rightarrow> cond list" where
  "getExcludePostponedChainCondition now =
     [AnyOf [Equals ''postponed'' DNull, Equals ''postponed'' (DBool False)],
      AnyOf [Equals ''expiry_at_epoch'' DNull, Gt ''expiry_at_epoch'' now]]"

definition chain_select :: "string list" where
  "chain_select = [''name'', ''chain_id'', ''be_json_rpc_urls'', ''bech32'', ''chain_type'',
     ''latest_indexed_block'', ''denoms'']"

definition getChainInfos :: "int \<Rightarrow> query" where
  "getChainInfos now =
     \<lparr>q_model = ''chain_info'', q_action = ''findMany'', q_select = Some chain_select,
      q_where = AllOf (getExcludePostponedChainCondition now), q_orderBy = [], q_page = no_page,
      q_cache = True\<rparr>"

definition getChainNameByChainId :: "int \<Rightarrow> string \<Rightarrow> query" where
  "getChainNameByChainId now cid =
     \<lparr>q_model = ''chain_info'', q_action = ''findUnique'', q_select = None,
      q_where = AllOf [AllOf (getExcludePostponedChainCondition now), Equals ''chain_id'' (DStr cid)],
      q_orderBy = [], q_page = no_page, q_cache = True\<rparr>"

definition getChainNamesByChainIds :: "int \<Rightarrow> string list \<Rightarrow> query" where
  "getChainNamesByChainIds now chainIds =
     \<lparr>q_model = ''chain_info'', q_action = ''findMany'', q_select = Some [''chain_id'', ''name''],
      q_where = AllOf (AllOf (getExcludePostponedChainCondition now) #
        (if chainIds \<noteq> [] then [OneOf ''chain_id'' (sort_default chainIds)] else [])),
      q_orderBy = [], q_page = no_page, q_cache = True\<rparr>"

definition getEvmChainInfo :: "int \<Rightarrow> query" where
  "getEvmChainInfo now =
     \<lparr>q_model = ''chain_info'', q_action = ''findMany'', q_select = Some [''chain_id'', ''name''],
      q_where = AllOf [AllOf (getExcludePostponedChainCondition now),
        Equals ''chain_type'' (DStr (ChainType_text EVM))],
      q_orderBy = [], q_page = no_page, q_cache = True\<rparr>"

definition getChainInfoByPrefix :: "int \<Rightarrow> string \<Rightarrow> query" where
  "getChainInfoByPrefix now pref =
     \<lparr>q_model = ''chain_info'', q_action = ''findMany'', q_select = Some [''chain_id'', ''name''],
      q_where = AllOf [AllOf (getExcludePostponedChainCondition now),
        AnyOf [JsonEquals ''bech32'' ''addr'' pref, JsonEquals ''bech32'' ''val'' pref]],
      q_orderBy = [], q_page = no_page, q_cache = True\<rparr>"

definition searchChainInfoByMultipleFields :: "int \<Rightarrow> string \<Rightarrow> query" where
  "searchChainInfoByMultipleFields now searchValue =
     \<lparr>q_model = ''chain_info'', q_action = ''findMany'',
      q_select = Some [''chain_id'', ''name'', ''latest_indexed_block''],
      q_where = AllOf [AllOf (getExcludePostponedChainCondition now),
        AnyOf ([Contains ''chain_id'' searchValue, Contains ''name'' searchValue] @
          (if isBlockNo searchValue then [Gte ''latest_indexed_block'' (parseInt searchValue)] else []))],
      q_orderBy = [], q_page = no_page, q_cache = False\<rparr>"

section \<open>Accounts\<close>

record AccountTransactionFilterOption =
  opt_signer :: "bool option"
  opt_erc20 :: "bool option"
  opt_nft :: "bool option"

definition flag_cond :: "string \<Rightarrow> bool option \<Rightarrow> cond list" where
  "flag_cond f v = (case v of None \<Rightarrow> [] | Some b \<Rightarrow> [Equals f (DBool b)])"

definition getAccountTransactionsWhereCondition ::
    "string \<Rightarrow> string \<Rightarrow> AccountTransactionFilterOption \<Rightarrow> cond" where
  "getAccountTransactionsWhereCondition cid bech32_address options =
     AllOf ([Equals ''chain_id'' (DStr cid), Equals ''bech32_address'' (DStr bech32_address)] @
       flag_cond ''signer'' (opt_signer options) @ flag_cond ''erc20'' (opt_erc20 options) @
       flag_cond ''nft'' (opt_nft options))"

definition countAccountTransactions ::
    "string \<Rightarrow> string \<Rightarrow> AccountTransactionFilterOption \<Rightarrow> query" where
  "countAccountTransactions cid bech32_address options =
     \<lparr>q_model = ''ref_account_to_recent_tx'', q_action = ''count'', q_select = None,
      q_where = getAccountTransactionsWhereCondition cid bech32_address options,
      q_orderBy = [], q_page = no_page, q_cache = False\<rparr>"

definition account_tx_select :: "string list" where
  "account_tx_select = map (\<lambda>f. ''recent_accounts_transaction.'' @ f)
     [''hash'', ''height'', ''epoch'', ''message_types'', ''action'']"

definition getAccountTransactions ::
    "string \<Rightarrow> string \<Rightarrow> AccountTransactionFilterOption \<Rightarrow> pagination \<Rightarrow> query" where
  "getAccountTransactions cid bech32_address options paginationOptions =
     \<lparr>q_model = ''ref_account_to_recent_tx'', q_action = ''findMany'',
      q_select = Some account_tx_select,
      q_where = getAccountTransactionsWhereCondition cid bech32_address options,
      q_orderBy = [(''height'', Desc)], q_page = paginationOptions, q_cache = False\<rparr>"

definition getAccount :: "string \<Rightarrow> string \<Rightarrow> query" where
  "getAccount cid bech32_address =
     \<lparr>q_model = ''account'', q_action = ''findUnique'',
      q_select = Some [''chain_id'', ''bech32_address'', ''balance_on_erc20_contracts'',
        ''balance_on_nft_contracts''],
      q_where = AllOf [Equals ''chain_id'' (DStr cid), Equals ''bech32_address'' (DStr bech32_address)],
      q_orderBy = [], q_page = no_page, q_cache = False\<rparr>"

section \<open>Transactions\<close>

definition tx_select :: "string list" where
  "tx_select = [''hash'', ''height'', ''epoch'', ''message_types'', ''tx_type'', ''action'', ''value'']"

definition getTransactions :: "string \<Rightarrow> pagination \<Rightarrow> query" where
  "getTransactions cid paginationOptions =
     \<lparr>q_model = ''transaction'', q_action = ''findMany'', q_select = Some tx_select,
      q_where = AllOf [Equals ''chain_id'' (DStr cid)],
      q_orderBy = [(''epoch'', Desc), (''height'', Desc)], q_page = paginationOptions, q_cache = True\<rparr>"

definition countTransactions :: "string \<Rightarrow> query" where
  "countTransactions cid =
     \<lparr>q_model = ''transaction'', q_action = ''count'', q_select = None,
      q_where = AllOf [Equals ''chain_id'' (DStr cid)], q_orderBy = [], q_page = no_page,
      q_cache = True\<rparr>"

definition getChainIdAndTxHashByTxHashes :: "string list \<Rightarrow> query" where
  "getChainIdAndTxHashByTxHashes txHashes =
     \<lparr>q_model = ''transaction'', q_action = ''findMany'', q_select = Some [''chain_id'', ''hash''],
      q_where = AllOf [OneOf ''hash'' (sort_default txHashes)], q_orderBy = [], q_page = no_page,
      q_cache = False\<rparr>"

definition getTxHashAndChainInfoByTxHashes :: "string list \<Rightarrow> query" where
  "getTxHashAndChainInfoByTxHashes txHashes =
     \<lparr>q_model = ''transaction'', q_action = ''findMany'',
      q_select = Some [''chain_info.name'', ''chain_info.chain_id'', ''hash''],
      q_where = AllOf [OneOf ''hash'' (sort_default txHashes)], q_orderBy = [], q_page = no_page,
      q_cache = False\<rparr>"

definition countTransactionsSinceTimestamp :: "string \<Rightarrow> int \<Rightarrow> query" where
  "countTransactionsSinceTimestamp cid since =
     \<lparr>q_model = ''transaction'', q_action = ''count'', q_select = None,
      q_where = AllOf [Equals ''chain_id'' (DStr cid), Gt ''epoch'' since], q_orderBy = [],
      q_page = no_page, q_cache = True\<rparr>"

section \<open>Server actions\<close>

definition getChainIdAndTxHashByHash :: "string \<Rightarrow> query" where
  "getChainIdAndTxHashByHash txHash =
     (let txhashesToCheck = getTxHashesQueryValue txHash
      in getChainIdAndTxHashByTxHashes txhashesToCheck)"

definition searchByTxHash :: "string \<Rightarrow> query" where
  "searchByTxHash txHash =
     (let txhashesToCheck = getTxHashesQueryValue txHash
      in getTxHashAndChainInfoByTxHashes txhashesToCheck)"

text \<open>The rows \<open>findMany\<close> returns, without the order and the projection.\<close>

definition find_rows :: "query \<Rightarrow> row list \<Rightarrow> row list" where
  "find_rows q rows = filter (holds (q_where q)) rows"

section \<open>Facts\<close>

lemma holds_Contains: "holds (Contains f v) r \<longleftrightarrow> (\<exists>s. r f = DStr s \<and> includes_str s v)"
  by (cases "r f") auto

lemma holds_Gte: "holds (Gte f n) r \<longleftrightarrow> (\<exists>i. r f = DInt i \<and> num_le n (Num i))"
  by (cases "r f") auto

definition visible_chain :: "int \<Rightarrow> row \<Rightarrow> bool" where
  "visible_chain now r \<longleftrightarrow> r ''postponed'' \<in> {DNull, DBool False} \<and>
     (r ''expiry_at_epoch'' = DNull \<or> (\<exists>e. r ''expiry_at_epoch'' = DInt e \<and> now < e))"

lemma holds_exclude [simp]:
  "list_all (\<lambda>c. holds c r) (getExcludePostponedChainCondition now) \<longleftrightarrow> visible_chain now r"
  by (auto simp: getExcludePostponedChainCondition_def visible_chain_def split: dbval.splits)

lemma sort_default_set [simp]: "set (sort_default xs) = set xs"
  by (simp add: sort_default_def)

section \<open>Properties\<close>


text \<open>
  C15: The search by hash is a function of the digits of the hash: all spellings of it, with or
  without the prefix and in any case, are one query, which finds the rows that hold one of the two
  stored forms.
\<close>

theorem hash_query:
  assumes "length h = 64" and "list_all is_hex h" and "toLowerCase k = toLowerCase h"
    and "s \<in> {h, ''0x'' @ h}" and "t \<in> {k, ''0x'' @ k}"
  shows "(isTxHash s \<and> isTxHash t) \<and>
    (searchByTxHash s = searchByTxHash t) \<and>
    (getChainIdAndTxHashByHash s = getChainIdAndTxHashByHash t) \<and>
    (r \<in> set (find_rows (searchByTxHash s) rows) \<longleftrightarrow> r \<in> set rows \<and>
      r ''hash'' \<in> {DStr (''0x'' @ toLowerCase h), DStr (toUpperCase h)})"
proof -
  have k: "list_all is_hex k" "toUpperCase k = toUpperCase h" "length k = 64"
    using assms(1-3) by (metis list_all_hex_case(1), metis toUpper_toLower, metis length_case(1))
  have c1: "isTxHash s \<and> isTxHash t" using assms(1,2,4,5) k by (auto simp: isTxHash_iff)
  have s: "getTxHashesQueryValue s = [''0x'' @ toLowerCase h, toUpperCase h]"
    using assms(4) by (intro hash_variants [OF assms(2)]) auto
  have t: "getTxHashesQueryValue t = [''0x'' @ toLowerCase h, toUpperCase h]"
    using assms(5) hash_variants [OF k(1), of t] k(2) assms(3) by auto
  have c2: "searchByTxHash s = searchByTxHash t" "getChainIdAndTxHashByHash s = getChainIdAndTxHashByHash t"
    by (simp_all add: searchByTxHash_def getChainIdAndTxHashByHash_def s t)
  have c4: "r \<in> set (find_rows (searchByTxHash s) rows) \<longleftrightarrow> r \<in> set rows \<and>
      r ''hash'' \<in> {DStr (''0x'' @ toLowerCase h), DStr (toUpperCase h)}"
    by (auto simp: find_rows_def searchByTxHash_def getTxHashAndChainInfoByTxHashes_def s
        split: dbval.splits)
  show ?thesis using c1 c2 c4 by blast
qed

lemma hash_query_witness:
  "searchByTxHash (''0x'' @ sample_hash) = searchByTxHash (toUpperCase sample_hash)"
proof (rule hash_query [of sample_hash "toUpperCase sample_hash", THEN conjunct2, THEN conjunct1])
  show "length sample_hash = 64" "list_all is_hex sample_hash"
    by (simp_all add: sample_hash_def is_hex_def code_def list_all_iff)
qed simp_all

end
