(* ===== verification/Cache.thy ===== *)
theory Cache
  imports RpcTypes Settings
begin

text \<open>
  \<open>web-app/src/utils/cache.ts\<close>, \<open>utils/prismaCache.ts\<close> and the health route that uses the cache
  directly. The package \<open>node-cache\<close> is the pair of operations of the locale \<open>node_cache\<close> (with the
  time in milliseconds as an argument), the package that writes arguments as text is the function
  \<open>stringify\<close>. A call of a cached function is two steps, since the function is awaited between
  them: \<open>cache_start\<close> looks the key up, and \<open>cache_finish\<close> stores what the function returned.
\<close>

section \<open>The package\<close>

locale node_cache =
  fixes cget :: "nat \<Rightarrow> string \<Rightarrow> 's \<Rightarrow> json option"
    and cset :: "nat \<Rightarrow> string \<Rightarrow> json \<Rightarrow> nat \<Rightarrow> 's \<Rightarrow> 's"
  assumes get_live: "0 < ttl \<Longrightarrow> now \<le> t \<Longrightarrow> t \<le> now + ttl * 1000 \<Longrightarrow> cget t k (cset now k v ttl s) = Some v"
    and get_expired: "0 < ttl \<Longrightarrow> now + ttl * 1000 < t \<Longrightarrow> cget t k (cset now k v ttl s) = None"
    and get_other: "k' \<noteq> k \<Longrightarrow> cget t k' (cset now k v ttl s) = cget t k' s"

section \<open>Cached functions\<close>

fun truthy :: "json \<Rightarrow> bool" where
  "truthy JNull = False"
| "truthy (JBool b) = b"
| "truthy (JNumber n) = (n \<noteq> 0)"
| "truthy (JString s) = (s \<noteq> [])"
| "truthy (JArray _) = True"
| "truthy (JObject _) = True"

text \<open>\<open>[key, stringify(args)].join()\<close>\<close>

definition cache_key :: "('a \<Rightarrow> string) \<Rightarrow> string \<Rightarrow> 'a \<Rightarrow> string" where
  "cache_key stringify key args = join '','' [key, stringify args]"

text \<open>\<open>None\<close>: the function is called.\<close>

definition cache_start ::
    "(nat \<Rightarrow> string \<Rightarrow> 's \<Rightarrow> json option) \<Rightarrow> nat \<Rightarrow> string \<Rightarrow> 's \<Rightarrow> json option" where
  "cache_start cget now cacheKey s =
     (case cget now cacheKey s of
        Some v \<Rightarrow> if truthy v then Some v else None
      | None \<Rightarrow> None)"

text \<open>\<open>revalidateInSecond || DEFAULT_CACHE_DURATION\<close>; \<open>false\<close> and a missing number are \<open>None\<close>.\<close>

definition ttl_of :: "nat option \<Rightarrow> nat" where
  "ttl_of revalidateInSecond =
     (case revalidateInSecond of
        Some n \<Rightarrow> if n = 0 then DEFAULT_CACHE_DURATION else n
      | None \<Rightarrow> DEFAULT_CACHE_DURATION)"

definition cache_finish ::
    "(nat \<Rightarrow> string \<Rightarrow> json \<Rightarrow> nat \<Rightarrow> 's \<Rightarrow> 's) \<Rightarrow> nat \<Rightarrow> string \<Rightarrow> nat option \<Rightarrow> json result \<Rightarrow> 's \<Rightarrow>
     json result \<times> 's" where
  "cache_finish cset now cacheKey revalidateInSecond outcome s =
     (case outcome of
        Inl e \<Rightarrow> (Inl e, s)
      | Inr r \<Rightarrow> (Inr r, cset now cacheKey r (ttl_of revalidateInSecond) s))"

section \<open>Cached queries\<close>

record cacheStrategy =
  cs_enabled :: bool
  cs_revalidate :: "nat option option"

text \<open>
  \<open>cs_revalidate\<close>: \<open>None\<close> when the field is missing, \<open>Some None\<close> for \<open>false\<close>. A query is sent
  directly, without arguments or with them, or through the cache.
\<close>

datatype 'a query_plan = Plain | Direct 'a | Through string "nat option" 'a

definition queryWithCache ::
    "string \<Rightarrow> string \<Rightarrow> ('a \<times> cacheStrategy option) option \<Rightarrow> 'a query_plan" where
  "queryWithCache model action args =
     (case args of
        None \<Rightarrow> Plain
      | Some (queryArgs, strategy) \<Rightarrow>
          (case strategy of
             None \<Rightarrow> Direct queryArgs
           | Some cs \<Rightarrow>
               if \<not> cs_enabled cs then Direct queryArgs
               else
                 (let revalidate =
                    (case cs_revalidate cs of None \<Rightarrow> Some DEFAULT_CACHE_DURATION | Some r \<Rightarrow> r)
                  in Through (join '','' [''prisma'', model, action]) revalidate queryArgs)))"

section \<open>The health route\<close>

text \<open>The loop over the chains that fall behind, with its \<open>break\<close>.\<close>

fun health_loop :: "nat \<Rightarrow> int list \<Rightarrow> nat" where
  "health_loop status [] = status"
| "health_loop status (d # ds) =
     (if 7200 < d then 530 else health_loop (if 3610 < d then 503 else status) ds)"

definition health_status :: "int list \<Rightarrow> nat" where
  "health_status epoch_diffs = health_loop 200 epoch_diffs"

section \<open>Facts\<close>

lemma ttl_pos [simp]: "0 < ttl_of r"
  by (auto simp: ttl_of_def cfg_defs split: option.splits)

context node_cache
begin

lemma finish_start:
  assumes "cache_finish cset now k r (Inr v) s = (res, s')" and "now \<le> t"
  shows "cache_start cget t k s' = (if t \<le> now + ttl_of r * 1000 \<and> truthy v then Some v else None)"
proof -
  have s': "s' = cset now k v (ttl_of r) s" using assms(1) by (simp add: cache_finish_def)
  show ?thesis
  proof (cases "t \<le> now + ttl_of r * 1000")
    case True
    then show ?thesis using assms(2) by (simp add: cache_start_def s' get_live)
  next
    case False
    then show ?thesis by (simp add: cache_start_def s' get_expired)
  qed
qed

lemma finish_start_other:
  "cache_finish cset now k r out s = (res, s') \<Longrightarrow> k' \<noteq> k \<Longrightarrow> cache_start cget t k' s' = cache_start cget t k' s"
  by (auto simp: cache_finish_def cache_start_def get_other split: sum.splits)

end

section \<open>A concrete store\<close>

text \<open>As the package keeps it: with each key the value and the time until which it lives.\<close>

definition map_get :: "nat \<Rightarrow> string \<Rightarrow> (string \<times> (json \<times> nat)) list \<Rightarrow> json option" where
  "map_get t k s = (case obj_get s k of Some (v, til) \<Rightarrow> if til < t then None else Some v | None \<Rightarrow> None)"

definition map_set ::
    "nat \<Rightarrow> string \<Rightarrow> json \<Rightarrow> nat \<Rightarrow> (string \<times> (json \<times> nat)) list \<Rightarrow> (string \<times> (json \<times> nat)) list" where
  "map_set now k v ttl s = obj_set k (v, now + ttl * 1000) s"

interpretation map_cache: node_cache map_get map_set
  by unfold_locales (auto simp: map_get_def map_set_def)

lemma health_loop_eq:
  "health_loop status ds =
     (if \<exists>d\<in>set ds. 7200 < d then 530 else if \<exists>d\<in>set ds. 3610 < d then 503 else status)"
  by (induction status ds rule: health_loop.induct) auto

section \<open>Properties\<close>

text \<open>
  A value the cached function returned is served until its time is over, and no longer; the
  default time also stands for a time of 0. But a falsy value (a count of 0, a row that was not
  found) is never served: the function is called again each time. Other keys are not affected.
\<close>

theorem cache_serves:
  assumes "node_cache cget cset" and "cache_finish cset now k r (Inr v) s = (res, s')" and "now \<le> t"
  shows "(res = Inr v) \<and>
    (truthy v \<longrightarrow>
      cache_start cget t k s' =
      (if t \<le> now + (if r \<in> {None, Some 0} then DEFAULT_CACHE_DURATION else the r) * 1000 then Some v else None)) \<and>
    (\<not> truthy v \<longrightarrow>
      cache_start cget t k s' = None) \<and>
    (k' \<noteq> k \<longrightarrow>
      cache_start cget t k' s' = cache_start cget t k' s)"
proof -
  have c1: "res = Inr v" using assms(2) by (simp add: cache_finish_def)
  have "ttl_of r = (if r \<in> {None, Some 0} then DEFAULT_CACHE_DURATION else the r)"
    by (auto simp: ttl_of_def split: option.splits)
  then have c2: "cache_start cget t k s' =
      (if t \<le> now + (if r \<in> {None, Some 0} then DEFAULT_CACHE_DURATION else the r) * 1000 then Some v else None)"
    if "truthy v"
    using node_cache.finish_start [OF assms] that by simp
  have c3: "\<not> truthy v \<Longrightarrow> cache_start cget t k s' = None"
    using node_cache.finish_start [OF assms] by simp
  have c4: "k' \<noteq> k \<Longrightarrow> cache_start cget t k' s' = cache_start cget t k' s"
    using node_cache.finish_start_other [OF assms(1,2)] .
  show ?thesis using c1 c2 c3 c4 by blast
qed

lemma cache_serves_witness:
  "cache_start map_get 9000 ''k'' (snd (cache_finish map_set 0 ''k'' None (Inr (JNumber 5)) [])) = Some (JNumber 5) \<and>
   cache_start map_get 1 ''k'' (snd (cache_finish map_set 0 ''k'' None (Inr (JNumber 0)) [])) = None"
proof -
  have f: "cache_finish map_set 0 ''k'' None (Inr v) [] =
      (Inr v, snd (cache_finish map_set 0 ''k'' None (Inr v) []))" for v
    by (simp add: cache_finish_def)
  from cache_serves [OF map_cache.node_cache_axioms f, of 9000 "JNumber 5", THEN conjunct2, THEN conjunct1]
    cache_serves [OF map_cache.node_cache_axioms f, of 1 "JNumber 0", THEN conjunct2, THEN conjunct2, THEN conjunct1]
  show ?thesis by (simp add: cfg_defs)
qed

text \<open>
  Two cached queries share an entry of the cache only when they are the same query: of the same
  model, with the same operation and the same arguments.
\<close>

theorem cache_keys_injective:
  assumes "queryWithCache model action (Some (a, Some cs)) = Through key ttl a"
    and "queryWithCache model' action' (Some (b, Some cs')) = Through key' ttl' b"
    and "cache_key stringify key a = cache_key stringify key' b" and "stringify a = stringify b \<Longrightarrow> a = b"
    and "\<And>s. s \<in> {model, model', action, action'} \<Longrightarrow> CHR '','' \<notin> set s"
  shows "model = model' \<and> action = action' \<and> a = b"
proof -
  have split2: "xs = ys \<and> us = vs"
    if "xs @ CHR '','' # us = ys @ CHR '','' # vs" "CHR '','' \<notin> set xs" "CHR '','' \<notin> set ys"
    for xs ys us vs :: string
  proof -
    have "takeWhile (\<lambda>c. c \<noteq> CHR '','') (xs @ CHR '','' # us) = xs"
      "takeWhile (\<lambda>c. c \<noteq> CHR '','') (ys @ CHR '','' # vs) = ys"
      using that(2,3) by (auto intro!: takeWhile_stop simp: list_all_iff)
    with that(1) have "xs = ys" by simp
    with that(1) show ?thesis by simp
  qed
  have "key = ''prisma,'' @ model @ '','' @ action" "key' = ''prisma,'' @ model' @ '','' @ action'"
    using assms(1,2) by (auto simp: queryWithCache_def Let_def split: if_splits)
  with assms(3) have "model @ CHR '','' # action @ CHR '','' # stringify a =
      model' @ CHR '','' # action' @ CHR '','' # stringify b"
    by (simp add: cache_key_def)
  with assms(5) have "model = model'" and "action @ CHR '','' # stringify a = action' @ CHR '','' # stringify b"
    using split2 [of model "action @ CHR '','' # stringify a" model' "action' @ CHR '','' # stringify b"]
    by auto
  moreover from this(2) have "action = action'" and "stringify a = stringify b"
    using split2 [of action "stringify a" action' "stringify b"] assms(5) by auto
  ultimately show ?thesis using assms(4) by simp
qed

lemma cache_keys_injective_witness:
  "cache_key show_nat ''prisma,account,count'' 1 \<noteq> cache_key show_nat ''prisma,account,count'' 2"
proof
  assume k: "cache_key show_nat ''prisma,account,count'' 1 = cache_key show_nat ''prisma,account,count'' 2"
  have i: "show_nat 1 = show_nat 2 \<Longrightarrow> (1::nat) = 2" by (metis read_show_nat)
  have q: "queryWithCache ''account'' ''count'' (Some (n, Some \<lparr>cs_enabled = True, cs_revalidate = None\<rparr>)) =
      Through ''prisma,account,count'' (Some 10) n" for n :: nat
    by (simp add: queryWithCache_def cfg_defs)
  have "CHR '','' \<notin> set s" if "s \<in> {''account'', ''account'', ''count'', ''count''}" for s
    using that by auto
  from cache_keys_injective [OF q q k i this] show False by simp
qed

text \<open>
  The status of the health route is that of the worst chain, whatever the order of the chains:
  530 when one is more than two hours behind, else 503 when one is more than an hour and ten
  seconds behind, else 200.
\<close>

theorem health_status_worst:
  "health_status ds = (if \<exists>d\<in>set ds. 7200 < d then 530 else if \<exists>d\<in>set ds. 3610 < d then 503 else 200)"
  by (simp add: health_status_def health_loop_eq)

end
