(* ===== verification/Search.thy ===== *)
theory Search
  imports Store Address Db
begin

text \<open>
  Searching: \<open>web-app/src/services/search.service.ts\<close> (the search box), \<open>services/db/search.ts\<close> with
  \<open>app/api/search/route.ts\<close> (the search on the server), \<open>services/chain.service.ts\<close>,
  \<open>app/by-chain-id\<close>, \<open>app/api/chain-info/name/route.ts\<close>, and the state of the component
  \<open>components/client/search/Search.tsx\<close>. What the database answers is an argument.
\<close>

section \<open>The results\<close>

record TxSearchResult =
  tsr_txHash :: string
  tsr_rollappInfo :: "RollappInfo option"

record AccountSearchResult =
  asr_account :: string
  asr_rollappInfos :: "RollappInfo list"

record BlockSearchResult =
  bsr_block :: jsnum
  bsr_rollappInfos :: "RollappInfo list"

record SearchResult =
  sr_rollapps :: "RollappInfo list option"
  sr_blocks :: "BlockSearchResult option"
  sr_txs :: "TxSearchResult list option"
  sr_accounts :: "AccountSearchResult option"

definition getBlockSearchResult :: "string \<Rightarrow> RollappInfo list \<Rightarrow> BlockSearchResult option" where
  "getBlockSearchResult searchText allRollappInfos =
     (if \<not> isBlockNo searchText then None
      else
        (let blockNo = parseInt searchText;
             infos = filter (\<lambda>i. num_le blockNo (Num (latest_indexed_block i))) allRollappInfos
         in if infos \<noteq> [] then Some \<lparr>bsr_block = blockNo, bsr_rollappInfos = infos\<rparr> else None))"

definition getRollappSearchResult :: "string \<Rightarrow> RollappInfo list \<Rightarrow> RollappInfo list option" where
  "getRollappSearchResult searchText allRollappInfos =
     (let searchText = toLowerCase searchText;
          result = filter (\<lambda>i. includes_str (toLowerCase (name i)) searchText \<or>
            includes_str (toLowerCase (chain_id i)) searchText) allRollappInfos
      in if result \<noteq> [] then Some result else None)"

definition getAccountSearchResult ::
    "addr_ops \<Rightarrow> string \<Rightarrow> RollappInfo list \<Rightarrow> AccountSearchResult option result" where
  "getAccountSearchResult A searchText allRollappInfos =
     (if isEvmAddress searchText
      then rmap (\<lambda>acc. Some \<lparr>asr_account = acc,
             asr_rollappInfos = filter (\<lambda>i. chain_type i = ChainType_text EVM) allRollappInfos\<rparr>)
             (eth_getAddress A searchText)
      else if isCosmosAddress searchText
      then rmap (\<lambda>rollappAddress. Some \<lparr>asr_account = toLowerCase searchText,
             asr_rollappInfos = filter (\<lambda>i.
               obj_get (bech32 i) ''addr'' = Some (ra_prefix rollappAddress) \<or>
               obj_get (bech32 i) ''val'' = Some (ra_prefix rollappAddress)) allRollappInfos\<rparr>)
             (fromBech32 A searchText None True)
      else Inr None)"

text \<open>\<open>txs\<close> is the answer of the server action, pairs of a chain id and a hash.\<close>

definition getTransactionSearchResult ::
    "string \<Rightarrow> RollappInfoMap \<Rightarrow> (string \<times> string) list result \<Rightarrow> TxSearchResult list option result" where
  "getTransactionSearchResult searchText rollappInfoMap txs =
     (if \<not> isTxHash searchText then Inr None
      else rmap (\<lambda>txs.
        if txs \<noteq> []
        then Some (map (\<lambda>(cid, hash). \<lparr>tsr_txHash = hash, tsr_rollappInfo = obj_get rollappInfoMap cid\<rparr>) txs)
        else None) txs)"

definition compare_search ::
    "(string \<Rightarrow> string \<Rightarrow> int) \<Rightarrow> string option \<Rightarrow> RollappInfo \<Rightarrow> RollappInfo \<Rightarrow> int" where
  "compare_search localeCompare selectedId a b =
     (if Some (chain_id a) = selectedId then -1
      else if Some (chain_id b) = selectedId then 1
      else if isFavorite a \<and> \<not> isFavorite b then -1
      else if isFavorite b \<and> \<not> isFavorite a then 1
      else localeCompare (name a) (name b))"

definition handleGlobalSearch ::
    "addr_ops \<Rightarrow> (string \<Rightarrow> string \<Rightarrow> int) \<Rightarrow> string \<Rightarrow> RollappInfo list \<Rightarrow> RollappInfo option \<Rightarrow>
     (string \<times> string) list result \<Rightarrow> SearchResult result" where
  "handleGlobalSearch A localeCompare searchText allRollappInfos selected txs =
     (let sorted_infos = js_sort (compare_search localeCompare (map_option chain_id selected)) allRollappInfos;
          rollappInfoMap = rollappInfosToObject sorted_infos;
          searchText = trim searchText;
          none = \<lparr>sr_rollapps = None, sr_blocks = None, sr_txs = None, sr_accounts = None\<rparr>
      in if searchText \<noteq> []
         then
           rbind (getAccountSearchResult A searchText sorted_infos) (\<lambda>accounts.
           rmap (\<lambda>txs.
             \<lparr>sr_rollapps = getRollappSearchResult searchText allRollappInfos,
              sr_blocks = getBlockSearchResult searchText sorted_infos,
              sr_txs = txs, sr_accounts = accounts\<rparr>)
             (getTransactionSearchResult searchText rollappInfoMap txs))
         else Inr (none\<lparr>sr_rollapps := Some allRollappInfos\<rparr>))"

section \<open>On the server\<close>

text \<open>
  The JSON object of the answer: no property, or one. \<open>run\<close> is the database.
\<close>

definition handleGlobalSearchOnServer ::
    "addr_ops \<Rightarrow> (query \<Rightarrow> row list result) \<Rightarrow> int \<Rightarrow> string \<Rightarrow> (string \<times> row list) option result" where
  "handleGlobalSearchOnServer A run now searchValue =
     (let answer = (\<lambda>prop rows. if rows \<noteq> [] then Some (prop, rows) else None) in
      if isTxHash searchValue then rmap (answer ''txs'') (run (searchByTxHash searchValue))
      else if isEvmAddress searchValue then rmap (answer ''addess'') (run (getEvmChainInfo now))
      else if isCosmosAddress searchValue
      then rbind (fromBech32 A searchValue None True) (\<lambda>rollappAddress.
             rmap (answer ''addess'') (run (getChainInfoByPrefix now (ra_prefix rollappAddress))))
      else rmap (answer ''chainNameOrChainIdOrBlock'') (run (searchChainInfoByMultipleFields now searchValue)))"

datatype 'a response = BadRequest string | Json 'a

definition api_search_GET ::
    "addr_ops \<Rightarrow> (query \<Rightarrow> row list result) \<Rightarrow> int \<Rightarrow> string option \<Rightarrow> (string \<times> row list) option response result"
    where
  "api_search_GET A run now param =
     (case map_option trim param of
        None \<Rightarrow> Inr (BadRequest ''Invalid Search Value'')
      | Some [] \<Rightarrow> Inr (BadRequest ''Invalid Search Value'')
      | Some searchValue \<Rightarrow> rmap Json (handleGlobalSearchOnServer A run now searchValue))"

definition api_chain_names_GET :: "(string \<times> string) list \<Rightarrow> string obj" where
  "api_chain_names_GET chainInfos = foldl (\<lambda>final (cid, nm). obj_set cid nm final) [] chainInfos"

definition getRollAppInfoByRollappPath :: "ChainInfo list \<Rightarrow> string \<Rightarrow> RollappInfo option" where
  "getRollAppInfoByRollappPath chainInfos rollappPath = getRollappInfoByPath chainInfos (''/'' @ rollappPath)"

text \<open>The page \<open>/by-chain-id/[chainId]\<close>: the path it redirects to, or the error it throws.\<close>

definition by_chain_id_page :: "ChainInfo option \<Rightarrow> string result" where
  "by_chain_id_page chainInfo =
     (case chainInfo of
        None \<Rightarrow> Inl (Error ''RollApp not registered for Block Explorer'')
      | Some c \<Rightarrow> Inr (getRollappPathByName (name c)))"

section \<open>The search box\<close>

text \<open>
  The state of the component: the text, the timer of the pending search (the text it will search),
  the searches under way, the spinner, what is shown, and whether the component is mounted. The
  effect runs when the text changes; its cleanup clears the timer, not the searches under way.
\<close>

record searchBox =
  sb_value :: string
  sb_timer :: "string option"
  sb_running :: "string list"
  sb_loading :: bool
  sb_result :: "SearchResult option"
  sb_mounted :: bool

datatype search_event =
    Typed string
  | TimerFired
  | Answered nat "SearchResult result"
  | Unmounted

text \<open>\<open>initial_list\<close> is \<open>rollappInfos\<close> when no rollapp is selected, else \<open>None\<close>.\<close>

fun search_step :: "RollappInfo list option \<Rightarrow> search_event \<Rightarrow> searchBox \<Rightarrow> searchBox" where
  "search_step initial_list (Typed v) S =
     (case (v, initial_list) of
        ([], Some infos) \<Rightarrow>
          S\<lparr>sb_value := v, sb_timer := None,
            sb_result := Some \<lparr>sr_rollapps = Some infos, sr_blocks = None, sr_txs = None, sr_accounts = None\<rparr>\<rparr>
      | _ \<Rightarrow> S\<lparr>sb_value := v, sb_timer := Some v\<rparr>)"
| "search_step initial_list TimerFired S =
     (case sb_timer S of
        None \<Rightarrow> S
      | Some v \<Rightarrow>
          if sb_mounted S
          then S\<lparr>sb_timer := None, sb_running := sb_running S @ [v], sb_loading := True\<rparr>
          else S\<lparr>sb_timer := None\<rparr>)"
| "search_step initial_list (Answered k answer) S =
     (if length (sb_running S) \<le> k then S
      else
        (let S = S\<lparr>sb_running := take k (sb_running S) @ drop (Suc k) (sb_running S)\<rparr> in
         case answer of
           Inl e \<Rightarrow> S
         | Inr r \<Rightarrow> if sb_mounted S then S\<lparr>sb_result := Some r, sb_loading := False\<rparr> else S))"
| "search_step initial_list Unmounted S = S\<lparr>sb_mounted := False, sb_timer := None\<rparr>"

definition run_search :: "RollappInfo list option \<Rightarrow> search_event list \<Rightarrow> searchBox \<Rightarrow> searchBox" where
  "run_search initial_list es S = foldl (\<lambda>S e. search_step initial_list e S) S es"

section \<open>Facts\<close>

context collation
begin

sublocale favorite_name: comparator "compare_favorite_name lc"
  unfolding compare_favorite_name_eq by (rule by_favorite.by_flag.comparator_axioms)

sublocale by_selected: flagged "compare_favorite_name lc" "\<lambda>a. a" "\<lambda>a. Some (chain_id a) = sel" for sel
  by unfold_locales

text \<open>The order of the search: the selected rollapp, then favourites, then names.\<close>

lemma search_sort_eq:
  assumes "distinct (map chain_id xs)"
  shows "js_sort (compare_search lc sel) xs =
    js_sort (flag_first (\<lambda>a. Some (chain_id a) = sel) (compare_favorite_name lc)) xs"
proof (rule js_sort_cong_distinct)
  show "distinct xs" using assms by (simp add: distinct_map)
  fix a b assume "a \<in> set xs" "b \<in> set xs" "a \<noteq> b"
  with assms have "chain_id a \<noteq> chain_id b" by (auto simp: distinct_map inj_on_def)
  then show "compare_search lc sel a b =
      flag_first (\<lambda>a. Some (chain_id a) = sel) (compare_favorite_name lc) a b"
    by (auto simp: compare_search_def flag_first_def compare_favorite_name_def)
qed

lemma search_sorted:
  assumes "distinct (map chain_id xs)"
  shows "sorted_wrt (\<lambda>a b. Some (chain_id b) = sel \<longrightarrow> Some (chain_id a) = sel)
      (js_sort (compare_search lc sel) xs)"
    and "sorted_wrt (\<lambda>a b. Some (chain_id a) \<noteq> sel \<longrightarrow> Some (chain_id b) \<noteq> sel \<longrightarrow>
        compare_favorite_name lc a b \<le> 0)
      (js_sort (compare_search lc sel) xs)"
proof -
  show "sorted_wrt (\<lambda>a b. Some (chain_id b) = sel \<longrightarrow> Some (chain_id a) = sel)
      (js_sort (compare_search lc sel) xs)"
    unfolding search_sort_eq [OF assms] by (rule by_selected.flags_first)
  show "sorted_wrt (\<lambda>a b. Some (chain_id a) \<noteq> sel \<longrightarrow> Some (chain_id b) \<noteq> sel \<longrightarrow>
        compare_favorite_name lc a b \<le> 0)
      (js_sort (compare_search lc sel) xs)"
    unfolding search_sort_eq [OF assms]
    by (rule sorted_wrt_mono_rel [OF _ by_selected.by_flag.sorted_js_sort]) (auto simp: flag_first_def)
qed

end

section \<open>Properties\<close>

text \<open>
  C8: What a search that succeeds shows. A rollapp is in the list of rollapps when its name or id
  contains the text; blocks are offered for the rollapps that have indexed that height, and those
  come ordered: the selected rollapp first, then favourites, then by name.
\<close>

theorem search_shows:
  assumes "collation lc" and "distinct (map chain_id infos)" and "trim searchText = t" and "t \<noteq> []"
    and "handleGlobalSearch A lc searchText infos selected txs = Inr r"
  shows "(i \<in> set (case sr_rollapps r of None \<Rightarrow> [] | Some xs \<Rightarrow> xs) \<longleftrightarrow> i \<in> set infos \<and>
      (includes_str (toLowerCase (name i)) (toLowerCase t) \<or> includes_str (toLowerCase (chain_id i)) (toLowerCase t))) \<and>
    (i \<in> set (case sr_blocks r of None \<Rightarrow> [] | Some b \<Rightarrow> bsr_rollappInfos b) \<longleftrightarrow>
      i \<in> set infos \<and> isBlockNo t \<and> num_le (parseInt t) (Num (latest_indexed_block i))) \<and>
    (sr_blocks r = Some b \<longrightarrow>
      sorted_wrt
      (\<lambda>x y. (Some (chain_id y) = map_option chain_id selected \<longrightarrow> Some (chain_id x) = map_option chain_id selected) \<and>
        (Some (chain_id x) \<noteq> map_option chain_id selected \<longrightarrow> Some (chain_id y) \<noteq> map_option chain_id selected \<longrightarrow>
         compare_favorite_name lc x y \<le> 0)) (bsr_rollappInfos b))"
proof -
  let ?sel = "map_option chain_id selected"
  let ?sorted = "js_sort (compare_search lc ?sel) infos"
  have r: "sr_rollapps r = getRollappSearchResult t infos" "sr_blocks r = getBlockSearchResult t ?sorted"
    using assms(3-5) by (auto simp: handleGlobalSearch_def result_simps Let_def)
  have c1: "i \<in> set (case sr_rollapps r of None \<Rightarrow> [] | Some xs \<Rightarrow> xs) \<longleftrightarrow> i \<in> set infos \<and>
      (includes_str (toLowerCase (name i)) (toLowerCase t) \<or> includes_str (toLowerCase (chain_id i)) (toLowerCase t))"
    unfolding r getRollappSearchResult_def Let_def by (auto simp: filter_empty_conv)
  have c2: "i \<in> set (case sr_blocks r of None \<Rightarrow> [] | Some b \<Rightarrow> bsr_rollappInfos b) \<longleftrightarrow>
      i \<in> set infos \<and> isBlockNo t \<and> num_le (parseInt t) (Num (latest_indexed_block i))"
    unfolding r getBlockSearchResult_def Let_def by (auto simp: filter_empty_conv)
  have b: "bsr_rollappInfos b = filter (\<lambda>i. num_le (parseInt t) (Num (latest_indexed_block i))) ?sorted"
    if "sr_blocks r = Some b"
    using that unfolding r getBlockSearchResult_def Let_def by (auto split: if_splits)
  have c3: "sorted_wrt
      (\<lambda>x y. (Some (chain_id y) = ?sel \<longrightarrow> Some (chain_id x) = ?sel) \<and>
        (Some (chain_id x) \<noteq> ?sel \<longrightarrow> Some (chain_id y) \<noteq> ?sel \<longrightarrow> compare_favorite_name lc x y \<le> 0))
      (bsr_rollappInfos b)" if "sr_blocks r = Some b"
    unfolding b [OF that] using collation.search_sorted [OF assms(1,2), of ?sel]
    by (intro sorted_wrt_filter) (simp add: sorted_wrt_iff_nth_less)
  show ?thesis using c1 c2 c3 by blast
qed

lemma search_shows_witness:
  "\<exists>r. handleGlobalSearch plain_codec compare_units '' Nim '' two_rollapps None (Inr []) = Inr r \<and>
     hd two_rollapps \<in> set (case sr_rollapps r of None \<Rightarrow> [] | Some xs \<Rightarrow> xs)"
proof -
  obtain r where r: "handleGlobalSearch plain_codec compare_units '' Nim '' two_rollapps None (Inr []) = Inr r"
  proof -
    have "\<not> isl (handleGlobalSearch plain_codec compare_units '' Nim '' two_rollapps None (Inr []))"
      by code_simp
    then have "handleGlobalSearch plain_codec compare_units '' Nim '' two_rollapps None (Inr []) =
        Inr (projr (handleGlobalSearch plain_codec compare_units '' Nim '' two_rollapps None (Inr [])))"
      by (cases "handleGlobalSearch plain_codec compare_units '' Nim '' two_rollapps None (Inr [])") simp_all
    with that show thesis .
  qed
  have t: "trim '' Nim '' = ''Nim''" "''Nim'' \<noteq> ([]::string)" by code_simp+
  have d: "distinct (map chain_id two_rollapps)"
    by (simp add: two_rollapps_def normalizeRollappsInfo_def sample_chain_def)
  have "includes_str (toLowerCase (name (hd two_rollapps))) (toLowerCase ''Nim'')" by code_simp
  moreover have "hd two_rollapps \<in> set two_rollapps"
    by (simp add: two_rollapps_def normalizeRollappsInfo_def)
  ultimately show ?thesis
    using r search_shows [OF units_collation.collation_axioms d t r, THEN conjunct1] by blast
qed

text \<open>
  The search box shows the answer that comes last, not the answer for the text it holds: after
  two searches whose answers come in the other order, it shows the first one's answer under the
  second one's text.
\<close>

theorem search_stale_answer:
  assumes "a \<noteq> []" and "b \<noteq> []" and "sb_mounted S" and "sb_running S = []"
    and "S' = run_search infos [Typed a, TimerFired, Typed b, TimerFired, Answered 1 (Inr rb), Answered 0 (Inr ra)] S"
  shows "sb_value S' = b \<and> sb_result S' = Some ra \<and> \<not> sb_loading S' \<and> sb_running S' = []"
proof -
  obtain c s d t where "a = c # s" "b = d # t" using assms(1,2) by (cases a; cases b) auto
  with assms show ?thesis by (simp add: run_search_def)
qed

definition empty_box :: searchBox where
  "empty_box = \<lparr>sb_value = [], sb_timer = None, sb_running = [], sb_loading = False, sb_result = None,
     sb_mounted = True\<rparr>"

definition no_result :: SearchResult where
  "no_result = \<lparr>sr_rollapps = None, sr_blocks = None, sr_txs = None, sr_accounts = None\<rparr>"

lemma search_stale_answer_witness:
  "sb_result (run_search None [Typed ''n'', TimerFired, Typed ''x'', TimerFired, Answered 1 (Inr no_result),
      Answered 0 (Inr (no_result\<lparr>sr_rollapps := Some []\<rparr>))] empty_box) = Some (no_result\<lparr>sr_rollapps := Some []\<rparr>)"
  using search_stale_answer [of "''n''" "''x''" empty_box _ None no_result "no_result\<lparr>sr_rollapps := Some []\<rparr>", OF _ _ _ _ refl]
  by (simp add: empty_box_def)

text \<open>
  A text that looks like an address of the chain but does not decode, or like an EVM address
  whose checksum is wrong, makes the search throw, and then the box never stops loading by itself:
  the spinner is on and no search is under way.
\<close>

theorem search_error_keeps_loading:
  assumes "trim searchText \<noteq> []"
    and "isEvmAddress (trim searchText) \<and> eth_getAddress A (trim searchText) = Inl e \<or>
      \<not> isEvmAddress (trim searchText) \<and> isCosmosAddress (trim searchText) \<and>
        bech32_decode A (trim searchText) = Inl e"
    and "sb_running S = [searchText]" and "sb_loading S"
    and "S' = search_step infos (Answered 0 (handleGlobalSearch A lc searchText rs selected txs)) S"
  shows "(handleGlobalSearch A lc searchText rs selected txs = Inl e) \<and>
    (sb_loading S' \<and> sb_running S' = [] \<and> sb_result S' = sb_result S)"
proof -
  have c1: "handleGlobalSearch A lc searchText rs selected txs = Inl e"
    using assms(1,2) by (auto simp: handleGlobalSearch_def getAccountSearchResult_def fromBech32_def Let_def)
  have c2: "sb_loading S' \<and> sb_running S' = [] \<and> sb_result S' = sb_result S"
    using assms(3,4) unfolding assms(5) c1 by simp
  show ?thesis using c1 c2 by blast
qed

definition odd_address :: string where
  "odd_address = ''nim1'' @ replicate 38 (CHR ''q'')"

definition strict_codec :: addr_ops where
  "strict_codec = plain_codec\<lparr>bech32_decode := \<lambda>s. Inl (Error ''Invalid checksum'')\<rparr>"

lemma search_error_keeps_loading_witness:
  "sb_loading (search_step None (Answered 0 (handleGlobalSearch strict_codec compare_units odd_address [] None (Inr [])))
     (empty_box\<lparr>sb_running := [odd_address], sb_loading := True\<rparr>))"
proof -
  have t: "trim odd_address = odd_address" "odd_address \<noteq> []" "isCosmosAddress odd_address"
      "\<not> isEvmAddress odd_address"
    by code_simp+
  have "bech32_decode strict_codec (trim odd_address) = Inl (Error ''Invalid checksum'')"
    by (simp add: strict_codec_def)
  with t show ?thesis
    using search_error_keeps_loading [of odd_address strict_codec "Error ''Invalid checksum''"
        "empty_box\<lparr>sb_running := [odd_address], sb_loading := True\<rparr>", OF _ _ _ _ refl, THEN conjunct2]
    by simp
qed

text \<open>
  The search of the server asks the database one question, chosen by the form of the text, and
  answers a bad request exactly when there is no text but white space.
\<close>

theorem server_search:
  assumes "\<And>q. run q = Inr (find_rows q rows)"
  shows "(api_search_GET A run now param = Inr (BadRequest ''Invalid Search Value'') \<longleftrightarrow>
      param = None \<or> map_option trim param = Some []) \<and>
    (isTxHash v \<longrightarrow>
      handleGlobalSearchOnServer A run now v =
      Inr (let found = find_rows (searchByTxHash v) rows in if found \<noteq> [] then Some (''txs'', found) else None)) \<and>
    (isEvmAddress v \<longrightarrow>
      (\<exists>x. handleGlobalSearchOnServer A run now v = Inr x \<and>
      (x = None \<longleftrightarrow> find_rows (getEvmChainInfo now) rows = []))) \<and>
    (isCosmosAddress v \<and> \<not> isEvmAddress v \<and> \<not> isTxHash v \<and> fromBech32 A v None True = Inr a \<longrightarrow>
      handleGlobalSearchOnServer A run now v =
        Inr (let found = find_rows (getChainInfoByPrefix now (ra_prefix a)) rows
             in if found \<noteq> [] then Some (''addess'', found) else None))"
proof -
  have c1: "api_search_GET A run now param = Inr (BadRequest ''Invalid Search Value'') \<longleftrightarrow>
      param = None \<or> map_option trim param = Some []"
    by (auto simp: api_search_GET_def result_simps split: option.splits list.splits)
  have c2: "isTxHash v \<Longrightarrow> handleGlobalSearchOnServer A run now v =
      Inr (let found = find_rows (searchByTxHash v) rows in if found \<noteq> [] then Some (''txs'', found) else None)"
    by (simp add: handleGlobalSearchOnServer_def assms Let_def)
  have c3: "isEvmAddress v \<Longrightarrow> \<exists>x. handleGlobalSearchOnServer A run now v = Inr x \<and>
      (x = None \<longleftrightarrow> find_rows (getEvmChainInfo now) rows = [])"
    by (auto simp: handleGlobalSearchOnServer_def assms isTxHash_iff isEvmAddress_iff)
  have c4: "handleGlobalSearchOnServer A run now v =
        Inr (let found = find_rows (getChainInfoByPrefix now (ra_prefix a)) rows
             in if found \<noteq> [] then Some (''addess'', found) else None)"
    if "isCosmosAddress v" "\<not> isEvmAddress v" "\<not> isTxHash v" "fromBech32 A v None True = Inr a"
    using that by (simp add: handleGlobalSearchOnServer_def assms Let_def)
  show ?thesis using c1 c2 c3 c4 by blast
qed

lemma server_search_witness:
  "api_search_GET plain_codec (\<lambda>q. Inr (find_rows q [])) 0 (Some ''  '') = Inr (BadRequest ''Invalid Search Value'')"
proof -
  have "map_option trim (Some ''  '') = Some []" by code_simp
  then show ?thesis using server_search [of "\<lambda>q. Inr (find_rows q [])" "[]", THEN conjunct1] by blast
qed

end
