(* ===== verification/FetchHook.thy ===== *)
theory FetchHook
  imports Rpc Settings
begin

text \<open>
  The hooks that fetch one thing: \<open>web-app/src/hooks/use{Account, Accounts, BlockDetail, ChainInfo,
  GovProposal, GovProposals, ModuleParams, TokenBalances, Validator, Validators}.ts\<close>. They are one
  program with ten sets of parameters: an effect that runs when its dependencies change, sends a
  request, and writes the answer into the component's state; its cleanup aborts the request.
  The program is the steps below, the parameters are a \<open>hook_cfg\<close> for each hook.

  A request that is sent is a \<open>run\<close>. It stays in the list after it was aborted or settled, so a
  late answer is an event like any other; an aborted request settles with an \<open>AbortError\<close>, which
  is what the platform documents.
\<close>

section \<open>The program of the hooks\<close>

text \<open>
  \<open>'k\<close> are the dependencies (without the service), \<open>'ans\<close> what the network answers, \<open>'r\<close> the data.
  \<open>cfg_request\<close> is \<open>None\<close> when the guard of the effect fails; then \<open>cfg_reset\<close> is written.
  \<open>cfg_message\<close> is the message of the error that is thrown, if one is.
\<close>

record ('k, 'ans, 'r) hook_cfg =
  cfg_initial :: 'r
  cfg_request :: "RpcService \<Rightarrow> 'k \<Rightarrow> request option"
  cfg_reset :: 'r
  cfg_result :: "'k \<Rightarrow> 'ans result \<Rightarrow> 'r result"
  cfg_message :: "string option"

record 'k run =
  run_key :: 'k
  run_request :: request
  run_aborted :: bool
  run_done :: bool

record ('k, 'r) hook =
  hk_loading :: bool
  hk_data :: 'r
  hk_thrown :: "string option"
  hk_runs :: "'k run list"
  hk_ac :: "nat option"

datatype ('k, 'ans) hook_event =
    Change "RpcService option" 'k
  | Settle nat "'ans result"
  | Unmount

definition hook_init :: "('k, 'ans, 'r) hook_cfg \<Rightarrow> ('k, 'r) hook" where
  "hook_init C = \<lparr>hk_loading = True, hk_data = cfg_initial C, hk_thrown = None, hk_runs = [], hk_ac = None\<rparr>"

definition hook_effect ::
    "('k, 'ans, 'r) hook_cfg \<Rightarrow> RpcService option \<Rightarrow> 'k \<Rightarrow> ('k, 'r) hook \<Rightarrow> ('k, 'r) hook" where
  "hook_effect C rpcService k S =
     (case rpcService of
        None \<Rightarrow> S\<lparr>hk_thrown := Some ''Rpc Service is not available'', hk_ac := None\<rparr>
      | Some svc \<Rightarrow>
          (case cfg_request C svc k of
             Some q \<Rightarrow> S\<lparr>hk_loading := True,
               hk_runs := hk_runs S @ [\<lparr>run_key = k, run_request = q, run_aborted = False, run_done = False\<rparr>],
               hk_ac := Some (length (hk_runs S))\<rparr>
           | None \<Rightarrow> S\<lparr>hk_data := cfg_reset C, hk_ac := None\<rparr>))"

text \<open>\<open>if (ac) ac.abort()\<close>\<close>

definition hook_cleanup :: "('k, 'r) hook \<Rightarrow> ('k, 'r) hook" where
  "hook_cleanup S =
     (case hk_ac S of
        None \<Rightarrow> S
      | Some i \<Rightarrow> S\<lparr>hk_runs := (hk_runs S)[i := (hk_runs S ! i)\<lparr>run_aborted := True\<rparr>], hk_ac := None\<rparr>)"

text \<open>
  The rest of the asynchronous function: the result or the \<open>catch\<close> block, then \<open>ac = null\<close>, which
  is the variable of the run's own effect.
\<close>

definition hook_settle ::
    "('k, 'ans, 'r) hook_cfg \<Rightarrow> nat \<Rightarrow> 'ans result \<Rightarrow> ('k, 'r) hook \<Rightarrow> ('k, 'r) hook" where
  "hook_settle C i answer S =
     (if length (hk_runs S) \<le> i \<or> run_done (hk_runs S ! i) then S
      else
        (let r = hk_runs S ! i;
             outcome = (if run_aborted r then Inl AbortError else cfg_result C (run_key r) answer);
             S' = S\<lparr>hk_runs := (hk_runs S)[i := r\<lparr>run_done := True\<rparr>],
                    hk_ac := (if hk_ac S = Some i then None else hk_ac S)\<rparr>
         in case outcome of
              Inr v \<Rightarrow> S'\<lparr>hk_data := v, hk_loading := False\<rparr>
            | Inl AbortError \<Rightarrow> S'
            | Inl _ \<Rightarrow>
                (case cfg_message C of
                   Some msg \<Rightarrow> S'\<lparr>hk_thrown := Some msg\<rparr>
                 | None \<Rightarrow> S')))"

fun hook_step :: "('k, 'ans, 'r) hook_cfg \<Rightarrow> ('k, 'ans) hook_event \<Rightarrow> ('k, 'r) hook \<Rightarrow> ('k, 'r) hook" where
  "hook_step C (Change svc k) S = hook_effect C svc k (hook_cleanup S)"
| "hook_step C (Settle i answer) S = hook_settle C i answer S"
| "hook_step C Unmount S = hook_cleanup S"

definition hook_run :: "('k, 'ans, 'r) hook_cfg \<Rightarrow> ('k, 'ans) hook_event list \<Rightarrow> ('k, 'r) hook \<Rightarrow> ('k, 'r) hook" where
  "hook_run C es S = foldl (\<lambda>S e. hook_step C e S) S es"

section \<open>The ten hooks\<close>

text \<open>\<open>await getResponseResult(result[0])\<close> into a state that may hold nothing.\<close>

definition data_of :: "'r rpcResponse result \<Rightarrow> 'r option result" where
  "data_of answer =
     rmap (\<lambda>x. case x of Result v \<Rightarrow> Some v | ErrorObj _ \<Rightarrow> None | Undefined \<Rightarrow> None)
       (getResponseResult answer True)"

definition useAccount :: "(string, account rpcResponse, account option) hook_cfg" where
  "useAccount = \<lparr>cfg_initial = None,
     cfg_request = (\<lambda>svc address. if address \<noteq> [] then Some (rpc_getAccount svc (One address) None) else None),
     cfg_reset = None, cfg_result = (\<lambda>_. data_of), cfg_message = Some ''Failed to fetch Account''\<rparr>"

text \<open>An array is never falsy, so the guard \<open>if (address)\<close> holds for the empty one too.\<close>

definition useAccounts :: "(string list, account rpcResponse list, account rpcResult list) hook_cfg" where
  "useAccounts = \<lparr>cfg_initial = [],
     cfg_request = (\<lambda>svc address. Some (rpc_getAccount svc (Many address) None)),
     cfg_reset = [], cfg_result = (\<lambda>_ answer. getResponseResults answer True),
     cfg_message = Some ''Failed to fetch Accounts''\<rparr>"

definition useBlockDetail :: "(jsnum, block rpcResponse, block option) hook_cfg" where
  "useBlockDetail = \<lparr>cfg_initial = None,
     cfg_request = (\<lambda>svc blockNo.
       if truthy_num blockNo then Some (rpc_getBlockByNumber svc (One blockNo) None) else None),
     cfg_reset = None, cfg_result = (\<lambda>_. data_of), cfg_message = Some ''Failed to fetch Block Detail''\<rparr>"

definition useChainInfo :: "(unit, chainInfo rpcResponse, chainInfo option) hook_cfg" where
  "useChainInfo = \<lparr>cfg_initial = None, cfg_request = (\<lambda>svc _. Some (rpc_getChainInfo svc None)),
     cfg_reset = None, cfg_result = (\<lambda>_. data_of), cfg_message = Some ''Failed to fetch Chain Info''\<rparr>"

definition useGovProposal :: "(jsnum, govProposal rpcResponse, govProposal option) hook_cfg" where
  "useGovProposal = \<lparr>cfg_initial = None, cfg_request = (\<lambda>svc pid. Some (rpc_getGovProposal svc pid None)),
     cfg_reset = None, cfg_result = (\<lambda>_. data_of), cfg_message = Some ''Failed to fetch Gov Proposal''\<rparr>"

definition useGovProposals :: "(jsnum, govProposals rpcResponse, govProposals option) hook_cfg" where
  "useGovProposals = \<lparr>cfg_initial = None, cfg_request = (\<lambda>svc page. Some (rpc_getGovProposals svc page None)),
     cfg_reset = None, cfg_result = (\<lambda>_. data_of), cfg_message = Some ''Failed to fetch Gov Proposals''\<rparr>"

text \<open>Errors of the node are kept as data here, and nothing is thrown.\<close>

definition useModuleParams :: "(string, json rpcResponse, json rpcResult option) hook_cfg" where
  "useModuleParams = \<lparr>cfg_initial = None,
     cfg_request = (\<lambda>svc module.
       if module \<in> set MODULES then Some (rpc_getModuleParams svc module None) else None),
     cfg_reset = None, cfg_result = (\<lambda>_ answer. rmap Some (getResponseResult answer False)),
     cfg_message = None\<rparr>"

datatype balances_answer =
    Erc20Answer "erc20Balances rpcResponse"
  | Cw20Answer "cw20Balances rpcResponse"

text \<open>A result that is missing makes the property access throw.\<close>

definition balances_of :: "string \<times> string list \<Rightarrow> balances_answer result \<Rightarrow> erc20Balance list result" where
  "balances_of k answer =
     rbind answer (\<lambda>a. case a of
         Erc20Answer r \<Rightarrow> rbind (data_of (Inr r)) (\<lambda>b. rmap ebs_erc20Balances (of_opt TypeError b))
       | Cw20Answer r \<Rightarrow> rbind (data_of (Inr r)) (\<lambda>b. rmap cbs_cw20Balances (of_opt TypeError b)))"

definition useTokenBalances :: "(string \<times> string list, balances_answer, erc20Balance list) hook_cfg" where
  "useTokenBalances = \<lparr>cfg_initial = [],
     cfg_request = (\<lambda>svc (address, tokenAddresses).
       if address \<noteq> [] \<and> tokenAddresses \<noteq> []
       then Some (if startsWith address ''0x'' then rpc_getErc20Balance svc address tokenAddresses None
                  else rpc_getCw20Balance svc address tokenAddresses None)
       else None),
     cfg_reset = [], cfg_result = balances_of, cfg_message = Some ''Failed to fetch Token Balances''\<rparr>"

definition useValidator :: "(string, validator rpcResponse, validator option) hook_cfg" where
  "useValidator = \<lparr>cfg_initial = None,
     cfg_request = (\<lambda>svc address. if address \<noteq> [] then Some (rpc_getValidator svc address None) else None),
     cfg_reset = None, cfg_result = (\<lambda>_. data_of), cfg_message = Some ''Failed to fetch Governor''\<rparr>"

definition useValidators :: "(unit, validatorList rpcResponse, validatorList option) hook_cfg" where
  "useValidators = \<lparr>cfg_initial = Some [], cfg_request = (\<lambda>svc _. Some (rpc_getValidators svc None)),
     cfg_reset = Some [], cfg_result = (\<lambda>_. data_of), cfg_message = Some ''Failed to fetch Governors List''\<rparr>"

section \<open>The invariant\<close>

text \<open>A run that is neither settled nor aborted is the one whose controller the current effect has.\<close>

definition live :: "'k run list \<Rightarrow> nat \<Rightarrow> bool" where
  "live rs i \<longleftrightarrow> i < length rs \<and> \<not> run_done (rs ! i) \<and> \<not> run_aborted (rs ! i)"

lemma live_update:
  "live (rs[j := x]) i \<longleftrightarrow> (if i = j \<and> j < length rs then \<not> run_done x \<and> \<not> run_aborted x else live rs i)"
  by (auto simp: live_def nth_list_update)

lemma live_append:
  "live (rs @ [r]) i \<longleftrightarrow> live rs i \<or> i = length rs \<and> \<not> run_done r \<and> \<not> run_aborted r"
  by (auto simp: live_def nth_append less_Suc_eq)

definition hook_inv :: "('k, 'r) hook \<Rightarrow> bool" where
  "hook_inv S \<longleftrightarrow>
     (\<forall>i. live (hk_runs S) i \<longrightarrow> hk_ac S = Some i) \<and> (\<forall>i. hk_ac S = Some i \<longrightarrow> i < length (hk_runs S))"

lemma hook_invI:
  "(\<And>i. live (hk_runs S) i \<Longrightarrow> hk_ac S = Some i) \<Longrightarrow>
   (\<And>i. hk_ac S = Some i \<Longrightarrow> i < length (hk_runs S)) \<Longrightarrow> hook_inv S"
  unfolding hook_inv_def by blast

lemma hook_invD:
  "hook_inv S \<Longrightarrow> live (hk_runs S) i \<Longrightarrow> hk_ac S = Some i"
  "hook_inv S \<Longrightarrow> hk_ac S = Some i \<Longrightarrow> i < length (hk_runs S)"
  unfolding hook_inv_def by blast+

lemma hook_inv_init: "hook_inv (hook_init C)"
  by (rule hook_invI) (simp_all add: hook_init_def live_def)

lemma hook_inv_cleanup: "hook_inv S \<Longrightarrow> hook_inv (hook_cleanup S) \<and> hk_ac (hook_cleanup S) = None"
proof (cases "hk_ac S")
  case None
  then show "hook_inv S \<Longrightarrow> ?thesis" by (simp add: hook_cleanup_def)
next
  case (Some j)
  assume inv: "hook_inv S"
  then have j: "j < length (hk_runs S)" using Some hook_invD(2) by blast
  have "\<not> live (hk_runs (hook_cleanup S)) i" for i
    using hook_invD(1) [OF inv, of i] j Some by (auto simp: hook_cleanup_def live_update)
  then show ?thesis using Some by (intro conjI hook_invI) (auto simp: hook_cleanup_def)
qed

lemma hook_inv_effect:
  assumes "hook_inv S" and "hk_ac S = None"
  shows "hook_inv (hook_effect C svc k S)"
proof -
  have "\<not> live (hk_runs S) i" for i using hook_invD(1) [OF assms(1), of i] assms(2) by auto
  then show ?thesis
    by (intro hook_invI) (auto simp: hook_effect_def live_append assms(2) split: option.splits)
qed

lemma settle_runs:
  "hk_runs (hook_settle C i a S) =
     (if length (hk_runs S) \<le> i \<or> run_done (hk_runs S ! i) then hk_runs S
      else (hk_runs S)[i := (hk_runs S ! i)\<lparr>run_done := True\<rparr>])"
  "hk_ac (hook_settle C i a S) =
     (if length (hk_runs S) \<le> i \<or> run_done (hk_runs S ! i) then hk_ac S
      else if hk_ac S = Some i then None else hk_ac S)"
  by (simp_all add: hook_settle_def Let_def split: sum.splits js_error.splits option.splits)

lemma hook_inv_settle:
  assumes "hook_inv S"
  shows "hook_inv (hook_settle C i a S)"
proof (rule hook_invI)
  fix j
  show "hk_ac (hook_settle C i a S) = Some j" if "live (hk_runs (hook_settle C i a S)) j"
    using that hook_invD(1) [OF assms, of j] by (auto simp: settle_runs live_update split: if_splits)
  show "j < length (hk_runs (hook_settle C i a S))" if "hk_ac (hook_settle C i a S) = Some j"
    using that hook_invD(2) [OF assms, of j] by (auto simp: settle_runs split: if_splits)
qed

lemma hook_inv_step: "hook_inv S \<Longrightarrow> hook_inv (hook_step C e S)"
  by (cases e) (simp_all add: hook_inv_effect hook_inv_cleanup hook_inv_settle)

lemma hook_inv_run: "hook_inv S \<Longrightarrow> hook_inv (hook_run C es S)"
  by (induction es arbitrary: S) (simp_all add: hook_run_def hook_inv_step)

text \<open>An answer to any other run than the current one is without effect.\<close>

lemma stale_settle:
  assumes "hook_inv S" and "hk_ac S \<noteq> Some i"
  shows "hk_data (hook_settle C i a S) = hk_data S" and "hk_loading (hook_settle C i a S) = hk_loading S"
    and "hk_thrown (hook_settle C i a S) = hk_thrown S"
proof -
  have "\<not> live (hk_runs S) i" using hook_invD(1) [OF assms(1), of i] assms(2) by blast
  then have "length (hk_runs S) \<le> i \<or> run_done (hk_runs S ! i) \<or> run_aborted (hk_runs S ! i)"
    by (auto simp: live_def)
  then show "hk_data (hook_settle C i a S) = hk_data S" "hk_loading (hook_settle C i a S) = hk_loading S"
    "hk_thrown (hook_settle C i a S) = hk_thrown S"
    by (auto simp: hook_settle_def Let_def)
qed

text \<open>After an effect that sent a request, only answers arrive until the dependencies change.\<close>

definition settles :: "(nat \<times> 'ans result) list \<Rightarrow> ('k, 'ans) hook_event list" where
  "settles as = map (\<lambda>(i, a). Settle i a) as"

definition waiting :: "'k \<Rightarrow> nat \<Rightarrow> ('k, 'r) hook \<Rightarrow> bool" where
  "waiting k n S \<longleftrightarrow> hook_inv S \<and> hk_ac S = Some n \<and> hk_loading S \<and> n < length (hk_runs S) \<and>
     run_key (hk_runs S ! n) = k \<and> \<not> run_done (hk_runs S ! n) \<and> \<not> run_aborted (hk_runs S ! n)"

definition finished :: "('k, 'r) hook \<Rightarrow> bool" where
  "finished S \<longleftrightarrow> hook_inv S \<and> hk_ac S = None"

lemma finished_settle:
  assumes "finished S"
  shows "finished (hook_settle C i a S)" and "hk_data (hook_settle C i a S) = hk_data S"
    and "hk_loading (hook_settle C i a S) = hk_loading S" and "hk_thrown (hook_settle C i a S) = hk_thrown S"
  using assms stale_settle [of S i C a] by (auto simp: finished_def hook_inv_settle settle_runs)

lemma finished_run:
  assumes "finished S"
  shows "hk_data (hook_run C (settles as) S) = hk_data S \<and> hk_loading (hook_run C (settles as) S) = hk_loading S \<and>
    hk_thrown (hook_run C (settles as) S) = hk_thrown S"
  using assms
proof (induction as arbitrary: S)
  case Nil
  then show ?case by (simp add: hook_run_def settles_def)
next
  case (Cons p as)
  obtain i a where p: "p = (i, a)" by (cases p)
  have "hook_run C (settles (p # as)) S = hook_run C (settles as) (hook_settle C i a S)"
    by (simp add: hook_run_def settles_def p)
  with Cons.IH [OF finished_settle(1) [OF Cons.prems, of C i a]] finished_settle [OF Cons.prems, of C i a]
  show ?case by simp
qed

lemma waiting_other: "waiting k n S \<Longrightarrow> i \<noteq> n \<Longrightarrow> waiting k n (hook_settle C i a S)"
  using stale_settle [of S i C a] by (auto simp: waiting_def hook_inv_settle settle_runs)

lemma waiting_own:
  assumes "waiting k n S"
  shows "finished (hook_settle C n a S)"
    and "cfg_result C k a = Inr v \<Longrightarrow> hk_data (hook_settle C n a S) = v \<and> \<not> hk_loading (hook_settle C n a S) \<and>
      hk_thrown (hook_settle C n a S) = hk_thrown S"
    and "cfg_result C k a = Inl e \<Longrightarrow> hk_data (hook_settle C n a S) = hk_data S \<and> hk_loading (hook_settle C n a S) \<and>
      hk_thrown (hook_settle C n a S) =
        (if e = AbortError \<or> cfg_message C = None then hk_thrown S else cfg_message C)"
  using assms
  by (auto simp: waiting_def finished_def hook_inv_settle settle_runs)
    (auto simp: hook_settle_def Let_def split: js_error.splits option.splits)

text \<open>The first answer to the current run decides what is shown.\<close>

lemma waiting_run:
  assumes "waiting k n S"
  shows "(case List.find (\<lambda>(i, a). i = n) as of
      None \<Rightarrow> hk_loading (hook_run C (settles as) S) \<and> hk_data (hook_run C (settles as) S) = hk_data S \<and>
        hk_thrown (hook_run C (settles as) S) = hk_thrown S
    | Some (_, a) \<Rightarrow>
        (case cfg_result C k a of
           Inr v \<Rightarrow> hk_data (hook_run C (settles as) S) = v \<and> \<not> hk_loading (hook_run C (settles as) S) \<and>
             hk_thrown (hook_run C (settles as) S) = hk_thrown S
         | Inl e \<Rightarrow> hk_data (hook_run C (settles as) S) = hk_data S \<and> hk_loading (hook_run C (settles as) S) \<and>
             hk_thrown (hook_run C (settles as) S) =
               (if e = AbortError \<or> cfg_message C = None then hk_thrown S else cfg_message C)))"
  using assms
proof (induction as arbitrary: S)
  case Nil
  then show ?case by (simp add: hook_run_def settles_def waiting_def)
next
  case (Cons p as)
  obtain i a where p: "p = (i, a)" by (cases p)
  have r: "hook_run C (settles ((i, a) # as)) S = hook_run C (settles as) (hook_settle C i a S)"
    by (simp add: hook_run_def settles_def)
  show ?case
  proof (cases "i = n")
    case True
    note own = waiting_own [OF Cons.prems, where C = C and a = a]
    note fin = finished_run [OF own(1), of C as]
    show ?thesis using True fin own(2,3) unfolding p r by (cases "cfg_result C k a") auto
  next
    case False
    have w: "waiting k n (hook_settle C i a S)" using Cons.prems False by (rule waiting_other)
    have "hk_ac S \<noteq> Some i" "hook_inv S" using Cons.prems False by (auto simp: waiting_def)
    then have st: "hk_data (hook_settle C i a S) = hk_data S"
        "hk_loading (hook_settle C i a S) = hk_loading S" "hk_thrown (hook_settle C i a S) = hk_thrown S"
      by (simp_all add: stale_settle)
    show ?thesis using Cons.IH [OF w, unfolded st] False unfolding p r by simp
  qed
qed

lemma waiting_change:
  assumes "hook_inv S" and "cfg_request C svc k = Some q"
  shows "waiting k (length (hk_runs S)) (hook_step C (Change (Some svc) k) S)"
    and "hk_data (hook_step C (Change (Some svc) k) S) = hk_data S"
    and "hk_thrown (hook_step C (Change (Some svc) k) S) = hk_thrown S"
proof -
  have len: "length (hk_runs (hook_cleanup S)) = length (hk_runs S)"
    by (simp add: hook_cleanup_def split: option.splits)
  have inv: "hook_inv (hook_step C (Change (Some svc) k) S)" using assms(1) by (rule hook_inv_step)
  show "waiting k (length (hk_runs S)) (hook_step C (Change (Some svc) k) S)"
    using inv assms(2) unfolding len [symmetric] by (simp add: waiting_def hook_effect_def)
  show "hk_data (hook_step C (Change (Some svc) k) S) = hk_data S"
    "hk_thrown (hook_step C (Change (Some svc) k) S) = hk_thrown S"
    using assms(2) by (simp_all add: hook_effect_def hook_cleanup_def split: option.splits)
qed

lemma rejected_change:
  assumes "hook_inv S" and "cfg_request C svc k = None"
  shows "finished (hook_step C (Change (Some svc) k) S)"
    and "hk_data (hook_step C (Change (Some svc) k) S) = cfg_reset C"
    and "hk_loading (hook_step C (Change (Some svc) k) S) = hk_loading S"
proof -
  have "hook_inv (hook_step C (Change (Some svc) k) S)" using assms(1) by (rule hook_inv_step)
  with assms(2) show "finished (hook_step C (Change (Some svc) k) S)"
    by (simp add: finished_def hook_effect_def)
  show "hk_data (hook_step C (Change (Some svc) k) S) = cfg_reset C"
    "hk_loading (hook_step C (Change (Some svc) k) S) = hk_loading S"
    using assms(2) by (simp_all add: hook_effect_def hook_cleanup_def split: option.splits)
qed

section \<open>Properties\<close>

text \<open>
  C26: What a hook shows belongs to its present dependencies. Whatever happened before, once the
  dependencies are such that a request is sent, only the answer to that request counts: before it,
  the hook is loading and shows what it showed; a result is shown and ends the loading; an error is
  thrown with the hook's message and leaves the data. Answers to earlier requests change nothing,
  whenever they come.
\<close>

theorem hook_shows_latest:
  assumes "cfg_request C svc k = Some q" and "S = hook_run C es (hook_init C)"
    and "S' = hook_run C (settles as) (hook_step C (Change (Some svc) k) S)"
  shows "(case List.find (\<lambda>(i, a). i = length (hk_runs S)) as of
      None \<Rightarrow> hk_loading S' \<and> hk_data S' = hk_data S \<and> hk_thrown S' = hk_thrown S
    | Some (_, a) \<Rightarrow>
        (case cfg_result C k a of
           Inr v \<Rightarrow> hk_data S' = v \<and> \<not> hk_loading S' \<and> hk_thrown S' = hk_thrown S
         | Inl e \<Rightarrow> hk_data S' = hk_data S \<and> hk_loading S' \<and>
             hk_thrown S' = (if e = AbortError \<or> cfg_message C = None then hk_thrown S else cfg_message C)))"
proof -
  have "hook_inv S" unfolding assms(2) by (intro hook_inv_run hook_inv_init)
  note change = waiting_change [OF this assms(1)]
  show ?thesis
    using waiting_run [OF change(1), where C = C and as = as] unfolding assms(3) [symmetric] change(2,3) .
qed

definition sample_service :: RpcService where
  "sample_service = \<lparr>rpcUrl = ''http://rpc''\<rparr>"

definition sample_validators :: "validatorList rpcResponse" where
  "sample_validators = \<lparr>rr_jsonrpc = ''2.0'', rr_id = 1, rr_result = Some [], rr_error = None\<rparr>"

lemma hook_shows_latest_witness:
  "hk_data (hook_run useValidators (settles [(0, Inl (Error ''late'')), (1, Inr sample_validators)])
     (hook_step useValidators (Change (Some sample_service) ())
       (hook_run useValidators [Change (Some sample_service) ()] (hook_init useValidators)))) = Some []"
proof -
  have q: "cfg_request useValidators sample_service () = Some (rpc_getValidators sample_service None)"
    by (simp add: useValidators_def)
  have n: "length (hk_runs (hook_run useValidators [Change (Some sample_service) ()] (hook_init useValidators))) = 1"
    by (simp add: hook_run_def hook_effect_def hook_init_def hook_cleanup_def useValidators_def)
  have v: "cfg_result useValidators () (Inr sample_validators) = Inr (Some [])"
    by (simp add: useValidators_def data_of_def getResponseResult_def sample_validators_def)
  show ?thesis
    using hook_shows_latest [OF q refl refl, of "[(0, Inl (Error ''late'')), (1, Inr sample_validators)]"
        "[Change (Some sample_service) ()]"]
    unfolding n by (simp add: v)
qed

text \<open>
  A guard that fails leaves the loading flag alone. So for a block number that is not a number,
  or 0, the block page loads for ever: no request is sent, and no answer that may still come ends
  the loading; the same holds for the parameters of a module that does not exist.
\<close>

theorem rejected_key_loads_forever:
  assumes "\<not> truthy_num blockNo" and "m \<notin> set MODULES"
    and "S = hook_run useBlockDetail es (hook_init useBlockDetail)" and "hk_loading S"
    and "T = hook_run useModuleParams fs (hook_init useModuleParams)" and "hk_loading T"
  shows "hk_loading (hook_run useBlockDetail (settles as) (hook_step useBlockDetail (Change (Some svc) blockNo) S)) \<and>
    hk_data (hook_run useBlockDetail (settles as) (hook_step useBlockDetail (Change (Some svc) blockNo) S)) = None \<and>
    hk_loading (hook_run useModuleParams (settles bs) (hook_step useModuleParams (Change (Some svc) m) T))"
proof -
  have S: "hook_inv S" unfolding assms(3) by (intro hook_inv_run hook_inv_init)
  have T: "hook_inv T" unfolding assms(5) by (intro hook_inv_run hook_inv_init)
  have q: "cfg_request useBlockDetail svc blockNo = None" "cfg_request useModuleParams svc m = None"
    "cfg_reset useBlockDetail = None"
    using assms(1,2) by (simp_all add: useBlockDetail_def useModuleParams_def)
  note s = rejected_change [OF S q(1)] and t = rejected_change [OF T q(2)]
  show ?thesis
    using finished_run [OF s(1), of useBlockDetail as] finished_run [OF t(1), of useModuleParams bs]
      s(2,3) t(3) assms(4,6) q(3) by simp
qed

lemma rejected_key_loads_forever_witness:
  "hk_loading (hook_run useBlockDetail (settles []) (hook_step useBlockDetail (Change (Some sample_service) (parseInt ''ab''))
     (hook_init useBlockDetail)))"
proof -
  have "\<not> truthy_num (parseInt ''ab'')" by code_simp
  moreover have "''nft'' \<notin> set MODULES" by (simp add: cfg_defs)
  ultimately show ?thesis
    using rejected_key_loads_forever [of "parseInt ''ab''" "''nft''" "hook_init useBlockDetail" "[]"
        "hook_init useModuleParams" "[]" "[]" sample_service "[]"]
    by (simp add: hook_run_def) (simp add: hook_init_def)
qed

end
