(* ===== verification/TxDetail.thy ===== *)
theory TxDetail
  imports Rpc Transaction
begin

text \<open>
  \<open>web-app/src/hooks/useTransactionDetail.ts\<close>: the transaction shown for a hash. The asynchronous
  function of the hook asks for the transaction, for its EVM form when the first message is one,
  and for the token contracts that take part. \<open>ask_tx\<close> and \<open>ask_contracts\<close> are what the network
  answers to these requests.
\<close>

definition EVM_TX_TYPE :: string where
  [cfg_defs]: "EVM_TX_TYPE = ''ethermint.evm.v1.MsgEthereumTx''"

section \<open>Reading parts that may be missing\<close>

text \<open>\<open>get(tx, 'msgs[0].type', null)\<close> and \<open>get(tx, 'msgs[0].protoContent.hash', null)\<close>\<close>

definition first_msg :: "transaction option \<Rightarrow> msg option" where
  "first_msg t =
     (case t of
        None \<Rightarrow> None
      | Some t \<Rightarrow> (case tx_msgs t of Some (m # _) \<Rightarrow> Some m | _ \<Rightarrow> None))"

definition evm_hash :: "transaction option \<Rightarrow> string option" where
  "evm_hash t =
     (case first_msg t of
        None \<Rightarrow> None
      | Some m \<Rightarrow>
          (case msg_protoContent m of
             JObject fs \<Rightarrow> (case obj_get fs ''hash'' of Some (JString (c # h)) \<Rightarrow> Some (c # h) | _ \<Rightarrow> None)
           | _ \<Rightarrow> None))"

text \<open>An optional string that is missing or empty is falsy.\<close>

definition truthy_str :: "string option \<Rightarrow> bool" where
  "truthy_str s \<longleftrightarrow> s \<noteq> None \<and> s \<noteq> Some []"

section \<open>The mode and the contracts\<close>

definition has_input :: "evmTx \<Rightarrow> bool" where
  "has_input info = (case et_input info of None \<Rightarrow> False | Some i \<Rightarrow> 10 \<le> length i)"

definition has_logs :: "evmReceipt \<Rightarrow> bool" where
  "has_logs receipt = (case er_logs receipt of None \<Rightarrow> False | Some ls \<Rightarrow> ls \<noteq> [])"

definition mode_and_contracts :: "evmTx \<Rightarrow> evmReceipt \<Rightarrow> TxMode \<times> string list" where
  "mode_and_contracts info receipt =
     (if truthy_str (et_to info)
      then (if truthy_str (et_value info) \<and> \<not> has_input info \<and> \<not> has_logs receipt
            then (EVM_GENERAL_TRANSFER, [])
            else (EVM_CONTRACT_CALL, [the (et_to info)]))
      else (EVM_CONTRACT_DEPLOY,
            if truthy_str (er_contractAddress receipt) then [the (er_contractAddress receipt)] else []))"

text \<open>
  \<open>evmTxReceipt.logs.length > 0\<close> reads the length without the guard used above: when there are no
  logs at all, it throws.
\<close>

definition with_log_contracts :: "evmReceipt \<Rightarrow> string list \<Rightarrow> string list result" where
  "with_log_contracts receipt contracts =
     rmap (\<lambda>ls. js_set (contracts @ map log_address ls)) (of_opt TypeError (er_logs receipt))"

text \<open>The answers for the contracts, by place; a failed one leaves an object with its error, and a
  falsy one is passed over.\<close>

definition contract_info :: "erc20ContractInfo rpcResult \<Rightarrow> erc20ContractInfo option" where
  "contract_info r =
     (case r of
        Result i \<Rightarrow> Some i
      | ErrorObj e \<Rightarrow> Some \<lparr>ec_name = None, ec_symbol = None, ec_decimals = None, ec_error = e\<rparr>
      | Undefined \<Rightarrow> None)"

definition contract_map ::
    "string list \<Rightarrow> erc20ContractInfo rpcResult list \<Rightarrow> (string \<times> erc20ContractInfo) list" where
  "contract_map contractsAddress infos =
     foldl (\<lambda>m (a, r). case contract_info r of None \<Rightarrow> m | Some i \<Rightarrow> obj_set a i m) []
       (zip contractsAddress infos)"

section \<open>The function of the effect\<close>

definition load_evm_form ::
    "(string \<Rightarrow> transaction rpcResponse result) \<Rightarrow> transaction option \<Rightarrow> transaction option result" where
  "load_evm_form ask_tx t =
     (if map_option msg_type (first_msg t) = Some EVM_TX_TYPE
      then (case evm_hash t of
              None \<Rightarrow> Inr t
            | Some h \<Rightarrow> rmap (\<lambda>x. case x of Result v \<Rightarrow> Some v | _ \<Rightarrow> None) (getResponseResult (ask_tx h) True))
      else Inr t)"

definition add_contracts ::
    "(string list \<Rightarrow> erc20ContractInfo rpcResponse list result) \<Rightarrow> transaction \<Rightarrow> string list \<Rightarrow> transaction result"
    where
  "add_contracts ask_contracts t contracts =
     (if (case tx_result t of None \<Rightarrow> False | Some r \<Rightarrow> res_success r) \<and> contracts \<noteq> []
      then rmap (\<lambda>infos. t\<lparr>tx_evmContractAddressToErc20ContractInfo := Some (contract_map contracts infos)\<rparr>)
             (getResponseResults (ask_contracts contracts) False)
      else Inr t)"

definition classify ::
    "(string list \<Rightarrow> erc20ContractInfo rpcResponse list result) \<Rightarrow> transaction \<Rightarrow> transaction result" where
  "classify ask_contracts t =
     (let t = t\<lparr>tx_mode := Some COSMOS\<rparr> in
      case (tx_evmTx t, tx_evmReceipt t) of
        (Some info, Some receipt) \<Rightarrow>
          (let (mode, contracts) = mode_and_contracts info receipt;
               t = t\<lparr>tx_mode := Some mode\<rparr>
           in rbind (with_log_contracts receipt contracts) (add_contracts ask_contracts t))
      | _ \<Rightarrow> Inr t)"

definition useTransactionDetail ::
    "(string \<Rightarrow> transaction rpcResponse result) \<Rightarrow>
     (string list \<Rightarrow> erc20ContractInfo rpcResponse list result) \<Rightarrow> string \<Rightarrow> transaction option result" where
  "useTransactionDetail ask_tx ask_contracts txHash =
     (if txHash = [] then Inr None
      else
        rbind (rmap (\<lambda>x. case x of Result v \<Rightarrow> Some v | _ \<Rightarrow> None) (getResponseResult (ask_tx txHash) True))
          (\<lambda>t. rbind (load_evm_form ask_tx t)
             (\<lambda>t. case t of None \<Rightarrow> Inr None | Some t \<Rightarrow> rmap Some (classify ask_contracts t))))"

section \<open>Facts\<close>

lemma classify_cosmos:
  "tx_evmTx t = None \<or> tx_evmReceipt t = None \<Longrightarrow> classify ask t = Inr (t\<lparr>tx_mode := Some COSMOS\<rparr>)"
  by (auto simp: classify_def Let_def split: option.splits)

lemma classify_evm:
  assumes "tx_evmTx t = Some info" and "tx_evmReceipt t = Some receipt" and "er_logs receipt = Some ls"
  shows "classify ask t =
    add_contracts ask (t\<lparr>tx_mode := Some (fst (mode_and_contracts info receipt))\<rparr>)
      (js_set (snd (mode_and_contracts info receipt) @ map log_address ls))"
  using assms by (simp add: classify_def with_log_contracts_def case_prod_unfold Let_def)

lemma add_contracts_mode:
  "add_contracts ask t cs = Inr t' \<Longrightarrow> tx_mode t' = tx_mode t \<and> tx_hash t' = tx_hash t"
  by (auto simp: add_contracts_def result_simps split: if_splits)

lemma contract_map_get:
  assumes "distinct cs" and "length infos = length cs" and "i < length cs" and "Undefined \<notin> set infos"
  shows "obj_get (contract_map cs infos) (cs ! i) = contract_info (infos ! i)"
proof -
  let ?val = "\<lambda>x. the (contract_info (snd x))" and ?z = "zip cs infos"
  have defined: "contract_info (snd x) = Some (?val x)" if "x \<in> set ?z" for x
    using that assms(4) set_zip_rightD [of "fst x" "snd x" cs infos] by (auto simp: contract_info_def split: rpcResult.splits)
  have map: "contract_map cs infos = foldl (\<lambda>m x. obj_set (fst x) (?val x) m) [] ?z"
    unfolding contract_map_def
  proof (rule foldl_cong)
    fix m x
    assume "x \<in> set ?z"
    then show "(case x of (a, r) \<Rightarrow> case contract_info r of None \<Rightarrow> m | Some i \<Rightarrow> obj_set a i m) =
        obj_set (fst x) (?val x) m"
      using defined [of x] by (cases "contract_info (snd x)") (simp_all add: case_prod_unfold)
  qed simp_all
  have k: "map fst ?z = cs" using assms(2) by simp
  have x: "(cs ! i, infos ! i) \<in> set ?z" using assms(2,3) by (auto simp: set_zip)
  from obj.get_build_distinct [where key = fst and val = ?val and xs = ?z, unfolded k, OF assms(1) x]
  show ?thesis using defined [OF x] by (simp add: map)
qed

section \<open>Properties\<close>


definition sample_tx :: transaction where
  "sample_tx = \<lparr>tx_hash = ''ab'', tx_height = 5, tx_msgs = None, tx_evmTx = None, tx_evmReceipt = None,
     tx_mode = None, tx_evmContractAddressToErc20ContractInfo = None, tx_result = None\<rparr>"


text \<open>
  A receipt whose list of logs is null, a case the code allows for when it looks for the mode,
  makes the page fail: the later read of the length throws, so no transaction is shown.
\<close>

theorem null_logs_fail:
  assumes "txHash \<noteq> []" and "ask_tx txHash = Inr r" and "rr_error r = None" and "rr_result r = Some t"
    and "map_option msg_type (first_msg (Some t)) \<noteq> Some EVM_TX_TYPE"
    and "tx_evmTx t = Some info" and "tx_evmReceipt t = Some receipt" and "er_logs receipt = None"
  shows "useTransactionDetail ask_tx ask_contracts txHash = Inl TypeError"
proof -
  have "load_evm_form ask_tx (Some t) = Inr (Some t)"
    unfolding load_evm_form_def using assms(5) by (simp only: if_False)
  moreover have "classify ask_contracts t = Inl TypeError"
    using assms(6-8) by (simp add: classify_def with_log_contracts_def case_prod_unfold Let_def)
  ultimately show ?thesis
    using assms(1-4) by (simp add: useTransactionDetail_def getResponseResult_def)
qed

definition sample_evmTx :: evmTx where
  "sample_evmTx = \<lparr>et_blockHash = [], et_blockNumber = ''0x5'', et_from = ''0x1'', et_gas = ''0x0'',
     et_gasPrice = ''0x0'', et_maxFeePerGas = [], et_maxPriorityFeePerGas = [], et_hash = ''0x2'',
     et_input = None, et_nonce = ''0x0'', et_to = Some ''0x3'', et_transactionIndex = ''0x0'',
     et_value = Some ''0x1'', et_type = ''0x0'', et_accessList = None, et_chainId = ''0x1'', et_v = [],
     et_r = [], et_s = []\<rparr>"

definition sample_receipt :: evmReceipt where
  "sample_receipt = \<lparr>er_blockHash = [], er_blockNumber = ''0x5'', er_contractAddress = None,
     er_cumulativeGasUsed = ''0x0'', er_effectiveGasPrice = ''0x0'', er_from = ''0x1'', er_gasUsed = ''0x0'',
     er_logs = None, er_logsBloom = [], er_status = ''0x1'', er_to = None, er_transactionHash = ''0x2'',
     er_transactionIndex = ''0x0'', er_type = ''0x0''\<rparr>"

definition sample_evm_tx :: transaction where
  "sample_evm_tx = sample_tx\<lparr>tx_evmTx := Some sample_evmTx, tx_evmReceipt := Some sample_receipt\<rparr>"

lemma null_logs_fail_witness:
  "useTransactionDetail (\<lambda>_. Inr \<lparr>rr_jsonrpc = ''2.0'', rr_id = 1, rr_result = Some sample_evm_tx,
      rr_error = None\<rparr>) (\<lambda>_. Inr []) ''ab'' = Inl TypeError"
proof -
  have "tx_evmTx sample_evm_tx = Some sample_evmTx" "tx_evmReceipt sample_evm_tx = Some sample_receipt"
    "map_option msg_type (first_msg (Some sample_evm_tx)) \<noteq> Some EVM_TX_TYPE" "er_logs sample_receipt = None"
    by (simp_all add: sample_evm_tx_def sample_tx_def sample_receipt_def first_msg_def)
  then show ?thesis
    using null_logs_fail [where txHash = "''ab''" and t = sample_evm_tx and info = sample_evmTx and
        receipt = sample_receipt and r = "\<lparr>rr_jsonrpc = ''2.0'', rr_id = 1, rr_result = Some sample_evm_tx,
          rr_error = None\<rparr>" and
        ask_tx = "\<lambda>_. Inr \<lparr>rr_jsonrpc = ''2.0'', rr_id = 1, rr_result = Some sample_evm_tx, rr_error = None\<rparr>" and
        ask_contracts = "\<lambda>_. Inr []"]
    by simp
qed

text \<open>
  C28: When a successful transaction has contracts, each of them is looked up once and gets the
  answer at its place: its data, or the error of its own call, which does not spoil the others.
\<close>

theorem contracts_looked_up:
  assumes "tx_evmTx t = Some info" and "tx_evmReceipt t = Some receipt" and "er_logs receipt = Some ls"
    and "tx_result t = Some res" and "res_success res"
    and "cs = js_set (snd (mode_and_contracts info receipt) @ map log_address ls)"
    and "ask cs = Inr answers" and "length answers = length cs" and "i < length cs"
  shows "\<exists>t' m. classify ask t = Inr t' \<and> tx_evmContractAddressToErc20ContractInfo t' = Some m \<and>
    distinct cs \<and> set (map log_address ls) \<subseteq> set cs \<and>
    obj_get m (cs ! i) = Some
      (case rr_result (answers ! i) of
         Some c \<Rightarrow> c
       | None \<Rightarrow> \<lparr>ec_name = None, ec_symbol = None, ec_decimals = None, ec_error = rr_error (answers ! i)\<rparr>)"
proof -
  have cs: "distinct cs" "set (map log_address ls) \<subseteq> set cs" unfolding assms(6) by auto
  have ne: "cs \<noteq> []" using assms(9) by auto
  let ?infos = "map (\<lambda>res. case rr_result res of Some r \<Rightarrow> Result r | None \<Rightarrow> ErrorObj (rr_error res)) answers"
  have "classify ask t = Inr (t\<lparr>tx_mode := Some (fst (mode_and_contracts info receipt)),
      tx_evmContractAddressToErc20ContractInfo := Some (contract_map cs ?infos)\<rparr>)"
    using assms(4,5,7) ne unfolding classify_evm [OF assms(1-3)] assms(6) [symmetric]
    by (simp add: add_contracts_def getResponseResults_def)
  moreover have "obj_get (contract_map cs ?infos) (cs ! i) = contract_info (?infos ! i)"
    using cs(1) assms(8,9) by (intro contract_map_get) (auto split: option.splits)
  moreover have "contract_info (?infos ! i) = Some
      (case rr_result (answers ! i) of
         Some c \<Rightarrow> c
       | None \<Rightarrow> \<lparr>ec_name = None, ec_symbol = None, ec_decimals = None, ec_error = rr_error (answers ! i)\<rparr>)"
    using assms(8,9) by (simp add: contract_info_def split: option.splits)
  ultimately show ?thesis using cs by auto
qed

definition sample_logs :: "evmLog list" where
  "sample_logs = [\<lparr>log_address = ''0x3'', log_topics = [], log_data = [], log_logIndex = []\<rparr>]"

definition sample_call :: transaction where
  "sample_call = sample_tx\<lparr>tx_evmTx := Some sample_evmTx,
     tx_evmReceipt := Some (sample_receipt\<lparr>er_logs := Some sample_logs\<rparr>),
     tx_result := Some \<lparr>res_code = 0, res_events = [], res_gas = \<lparr>gas_limit = 1, gas_used = 1\<rparr>,
       res_success = True\<rparr>\<rparr>"

definition sample_answers :: "erc20ContractInfo rpcResponse list" where
  "sample_answers = [\<lparr>rr_jsonrpc = ''2.0'', rr_id = 1, rr_result = Some sample_contract, rr_error = None\<rparr>]"

lemma contracts_looked_up_witness:
  "\<exists>t' m. classify (\<lambda>_. Inr sample_answers) sample_call = Inr t' \<and>
    tx_evmContractAddressToErc20ContractInfo t' = Some m \<and> obj_get m ''0x3'' = Some sample_contract"
proof -
  let ?receipt = "sample_receipt\<lparr>er_logs := Some sample_logs\<rparr>"
  have t: "tx_evmTx sample_call = Some sample_evmTx" "tx_evmReceipt sample_call = Some ?receipt"
    "er_logs ?receipt = Some sample_logs" "length sample_answers = length [''0x3'']"
    by (simp_all add: sample_call_def sample_answers_def)
  obtain res where r: "tx_result sample_call = Some res" "res_success res" by (auto simp: sample_call_def)
  have "mode_and_contracts sample_evmTx ?receipt = (EVM_CONTRACT_CALL, [''0x3''])"
    by (simp add: mode_and_contracts_def truthy_str_def has_logs_def sample_evmTx_def sample_logs_def)
  then have cs: "[''0x3''] = js_set (snd (mode_and_contracts sample_evmTx ?receipt) @ map log_address sample_logs)"
    by (simp add: js_set_def sample_logs_def)
  show ?thesis
    using contracts_looked_up [OF t(1-3) r cs, of "\<lambda>_. Inr sample_answers" sample_answers 0, OF refl t(4)]
    by (auto simp: sample_answers_def)
qed

end
