(* ===== verification/DenomsHook.thy ===== *)
theory DenomsHook
  imports Rpc
begin

text \<open>
  \<open>web-app/src/hooks/useDenomsMetadata.ts\<close>. The metadata comes in pages; the loop asks for the next
  page while a page is full, with no bound of its own, so \<open>collect_pages\<close> is a partial function:
  \<open>None\<close> is a loop that does not end. The effect depends on \<open>loading\<close>, which it sets itself, so
  its runs are modelled with the re-rendering that follows each change of the flag.
\<close>

section \<open>The pages\<close>

text \<open>20 is the number of records of a full page.\<close>

definition PAGE_LIMIT :: nat where
  [cfg_defs]: "PAGE_LIMIT = 20"

text \<open>One round: the collected entries and whether another page is asked for.\<close>

definition page_round ::
    "denomsMetadata rpcResponse result \<Rightarrow> denomsMetadata \<Rightarrow> (denomsMetadata \<times> bool) result" where
  "page_round answer acc =
     rbind (getResponseResult answer True) (\<lambda>x.
       case x of
         Result page \<Rightarrow> Inr (obj_assign acc page, PAGE_LIMIT \<le> length (obj_keys page))
       | _ \<Rightarrow> Inl TypeError)"

partial_function (option) collect_pages ::
    "(nat \<Rightarrow> denomsMetadata rpcResponse result) \<Rightarrow> nat \<Rightarrow> denomsMetadata \<Rightarrow> denomsMetadata result option"
where
  "collect_pages ask pageNumber acc =
     (case page_round (ask pageNumber) acc of
        Inl e \<Rightarrow> Some (Inl e)
      | Inr (acc', again) \<Rightarrow> if again then collect_pages ask (pageNumber + 1) acc' else Some (Inr acc'))"

declare collect_pages.simps [code]

section \<open>The effect\<close>

text \<open>
  \<open>dm_started\<close> counts the requests for a first page; \<open>dm_live\<close> is the run whose controller the
  current effect holds. A run that is aborted settles without any effect, so it is dropped.
\<close>

record denomsHook =
  dm_loading :: bool
  dm_hasGotten :: bool
  dm_metadata :: denomsMetadata
  dm_started :: nat
  dm_live :: "nat option"
  dm_thrown :: "string option"

definition dm_init :: "bool \<Rightarrow> denomsMetadata \<Rightarrow> denomsHook" where
  "dm_init hasGotten m = \<lparr>dm_loading = \<not> hasGotten, dm_hasGotten = hasGotten, dm_metadata = m,
     dm_started = 0, dm_live = None, dm_thrown = None\<rparr>"

definition dm_effect :: "denomsHook \<Rightarrow> denomsHook" where
  "dm_effect S =
     (if dm_hasGotten S then S\<lparr>dm_loading := False\<rparr>
      else S\<lparr>dm_loading := True, dm_started := dm_started S + 1, dm_live := Some (dm_started S)\<rparr>)"

definition dm_cleanup :: "denomsHook \<Rightarrow> denomsHook" where
  "dm_cleanup S = S\<lparr>dm_live := None\<rparr>"

text \<open>An effect that changed \<open>loading\<close> is followed by its cleanup and another one.\<close>

function dm_effects :: "denomsHook \<Rightarrow> denomsHook" where
  "dm_effects S =
     (if dm_loading (dm_effect S) \<noteq> dm_loading S then dm_effects (dm_cleanup (dm_effect S))
      else dm_effect S)"
  by pat_completeness auto
termination
  by (relation "measure (\<lambda>S. if dm_loading S = dm_hasGotten S then 1 else 0)")
    (auto simp: dm_effect_def dm_cleanup_def split: if_splits)

declare dm_effects.simps [simp del]

text \<open>
  The live run ends: the metadata is dispatched to the store, or the error is thrown or, without
  \<open>shouldThrowError\<close>, ends the loading. Either way the effect's dependencies have changed.
\<close>

definition dm_finish :: "bool \<Rightarrow> denomsMetadata result \<Rightarrow> denomsHook \<Rightarrow> denomsHook" where
  "dm_finish shouldThrowError outcome S =
     (case dm_live S of
        None \<Rightarrow> S
      | Some _ \<Rightarrow>
          (case outcome of
             Inr m \<Rightarrow> dm_effects (dm_cleanup (S\<lparr>dm_metadata := m, dm_hasGotten := True, dm_loading := False\<rparr>))
           | Inl AbortError \<Rightarrow> S\<lparr>dm_live := None\<rparr>
           | Inl _ \<Rightarrow>
               if shouldThrowError
               then S\<lparr>dm_live := None, dm_thrown := Some ''Failed to fetch Denoms Metadata''\<rparr>
               else dm_effects (dm_cleanup (S\<lparr>dm_loading := False\<rparr>))))"

section \<open>Facts\<close>

lemma page_round_Result:
  "rr_error r = None \<Longrightarrow> rr_result r = Some page \<Longrightarrow>
   page_round (Inr r) acc = Inr (obj_assign acc page, PAGE_LIMIT \<le> length page)"
  by (simp add: page_round_def getResponseResult_def obj_keys_def)

text \<open>The pages of a list answered one by one, the last of them not full.\<close>

definition answers_pages :: "(nat \<Rightarrow> denomsMetadata rpcResponse result) \<Rightarrow> nat \<Rightarrow> denomsMetadata list \<Rightarrow> bool" where
  "answers_pages ask n pages \<longleftrightarrow>
     (\<forall>i<length pages. \<exists>r. ask (n + i) = Inr r \<and> rr_error r = None \<and> rr_result r = Some (pages ! i))"

lemma answers_pages_Cons:
  "answers_pages ask n (p # ps) \<longleftrightarrow>
     (\<exists>r. ask n = Inr r \<and> rr_error r = None \<and> rr_result r = Some p) \<and> answers_pages ask (n + 1) ps"
  unfolding answers_pages_def by (simp add: All_less_Suc2)

lemma collect_pages_eq:
  assumes "answers_pages ask n (pages @ [last_page])" and "\<forall>p\<in>set pages. PAGE_LIMIT \<le> length p"
    and "length last_page < PAGE_LIMIT"
  shows "collect_pages ask n acc = Some (Inr (obj_assign acc (concat (pages @ [last_page]))))"
  using assms
proof (induction pages arbitrary: n acc)
  case Nil
  then obtain r where "ask n = Inr r" "rr_error r = None" "rr_result r = Some last_page"
    by (auto simp: answers_pages_Cons)
  with Nil show ?case
    by (subst collect_pages.simps) (simp add: page_round_Result)
next
  case (Cons p pages)
  then obtain r where r: "ask n = Inr r" "rr_error r = None" "rr_result r = Some p"
    and rest: "answers_pages ask (n + 1) (pages @ [last_page])"
    by (auto simp: answers_pages_Cons)
  from Cons have "collect_pages ask (n + 1) (obj_assign acc p) =
      Some (Inr (obj_assign (obj_assign acc p) (concat (pages @ [last_page]))))"
    using rest by (intro Cons.IH) auto
  with Cons.prems(2) r show ?case
    by (subst collect_pages.simps) (simp add: page_round_Result obj_assign_append)
qed

text \<open>The loop ends only at a page that is not full or at an error.\<close>

definition page_stops :: "denomsMetadata rpcResponse result \<Rightarrow> bool" where
  "page_stops answer \<longleftrightarrow>
     (\<exists>e. page_round answer [] = Inl e) \<or> (\<exists>a. page_round answer [] = Inr (a, False))"

lemma page_round_again:
  assumes "page_round answer [] = Inr (a, b)"
  obtains c where "page_round answer acc = Inr (c, b)"
  using assms by (auto simp: page_round_def rbind_def split: sum.splits rpcResult.splits)

lemma collect_pages_ends:
  assumes ends: "collect_pages ask n acc = Some r"
  shows "\<exists>m\<ge>n. page_stops (ask m)"
proof (rule collect_pages.raw_induct [where P = "\<lambda>ask n acc r. \<exists>m\<ge>n. page_stops (ask m)", OF _ ends])
  fix f :: "(nat \<Rightarrow> denomsMetadata rpcResponse result) \<Rightarrow> nat \<Rightarrow> denomsMetadata \<Rightarrow> denomsMetadata result option"
    and ask n acc r
  assume IH: "\<And>ask n acc r. f ask n acc = Some r \<Longrightarrow> \<exists>m\<ge>n. page_stops (ask m)"
    and body: "(case page_round (ask n) acc of Inl e \<Rightarrow> Some (Inl e)
      | Inr (acc', again) \<Rightarrow> if again then f ask (n + 1) acc' else Some (Inr acc')) = Some r"
  show "\<exists>m\<ge>n. page_stops (ask m)"
  proof (cases "page_stops (ask n)")
    case False
    then obtain a where "page_round (ask n) [] = Inr (a, True)"
      by (cases "page_round (ask n) []") (auto simp: page_stops_def)
    then obtain c where c: "page_round (ask n) acc = Inr (c, True)"
      by (rule page_round_again)
    with body have "f ask (n + 1) c = Some r" by simp
    from IH [OF this] show ?thesis by (meson add_leD1)
  qed blast
qed

lemma dm_effects_loading:
  "\<not> dm_hasGotten S \<Longrightarrow> dm_loading S \<Longrightarrow> dm_effects S =
     S\<lparr>dm_started := dm_started S + 1, dm_live := Some (dm_started S)\<rparr>"
  by (subst dm_effects.simps) (simp add: dm_effect_def)

lemma dm_effects_restart:
  "\<not> dm_hasGotten S \<Longrightarrow> \<not> dm_loading S \<Longrightarrow> dm_effects S =
     S\<lparr>dm_loading := True, dm_started := dm_started S + 2, dm_live := Some (dm_started S + 1)\<rparr>"
  by (subst dm_effects.simps) (simp add: dm_effect_def dm_cleanup_def dm_effects_loading)

lemma dm_effects_gotten:
  "dm_hasGotten S \<Longrightarrow> \<not> dm_loading S \<Longrightarrow> dm_effects S = S"
  by (subst dm_effects.simps) (simp add: dm_effect_def)

section \<open>Properties\<close>


definition one_page :: "nat \<Rightarrow> denomsMetadata rpcResponse result" where
  "one_page n = Inr \<lparr>rr_jsonrpc = ''2.0'', rr_id = 1, rr_result = Some
     [(''adym'', \<lparr>dm_denomUnits = [], dm_base = ''adym'', dm_name = ''Dym'', dm_symbol = ''DYM'',
                 dm_highestExponent = 18\<rparr>)], rr_error = None\<rparr>"


text \<open>
  Against a node whose pages are always full, for instance one that ignores the page number,
  the loop never ends.
\<close>

theorem denoms_full_pages_diverge:
  assumes "\<And>n. \<exists>r page. ask n = Inr r \<and> rr_error r = None \<and> rr_result r = Some page \<and> PAGE_LIMIT \<le> length page"
  shows "collect_pages ask 1 [] = None"
proof (rule ccontr)
  assume "collect_pages ask 1 [] \<noteq> None"
  then obtain r where "collect_pages ask 1 [] = Some r" by blast
  then obtain m where "page_stops (ask m)"
    using collect_pages_ends by blast
  moreover obtain x page where "ask m = Inr x" "rr_error x = None" "rr_result x = Some page"
      "PAGE_LIMIT \<le> length page"
    using assms by blast
  ultimately show False by (auto simp: page_stops_def page_round_Result)
qed

definition full_page :: "nat \<Rightarrow> denomsMetadata rpcResponse result" where
  "full_page n = Inr \<lparr>rr_jsonrpc = ''2.0'', rr_id = 1, rr_result = Some (map (\<lambda>i. (show_nat i,
     \<lparr>dm_denomUnits = [], dm_base = show_nat i, dm_name = [], dm_symbol = [], dm_highestExponent = 0\<rparr>)) [0..<20]), rr_error = None\<rparr>"

lemma denoms_full_pages_diverge_witness: "collect_pages full_page 1 [] = None"
  by (rule denoms_full_pages_diverge) (simp add: full_page_def cfg_defs)



end
