(* ===== verification/View.thy ===== *)
theory View
  imports Common Address Transaction
begin

text \<open>
  What a component renders, and the small components every page is made of
  (\<open>web-app/src/components/commons\<close>, \<open>client/commons/CopyButton.tsx\<close>, the links to addresses and
  blocks, \<open>utils/datetime.ts\<close>).

  An element of the component library is a \<open>Tag\<close> with its name, the properties that carry data
  (link targets, labels, keys, colours chosen by the code) and its children; properties that only
  style are left out. \<open>null\<close>, \<open>undefined\<close> and \<open>false\<close> render as \<open>Nothing\<close>, a number as the
  \<open>Digits\<close> of its decimal text, and an array or a fragment as \<open>Frag\<close>. A component whose rendering may throw returns a \<open>result\<close>.
\<close>

section \<open>Rendered elements\<close>

datatype view =
    Text string
  | Digits string
  | Nothing
  | Frag "view list"
  | Tag string "(string \<times> string) list" "view list"

primrec view_text :: "view \<Rightarrow> string" where
  "view_text (Text s) = s"
| "view_text (Digits s) = s"
| "view_text Nothing = []"
| "view_text (Frag vs) = concat (map view_text vs)"
| "view_text (Tag n ps vs) = concat (map view_text vs)"

text \<open>The targets of all links, in order.\<close>

primrec view_links :: "view \<Rightarrow> string list" where
  "view_links (Text s) = []"
| "view_links (Digits s) = []"
| "view_links Nothing = []"
| "view_links (Frag vs) = concat (map view_links vs)"
| "view_links (Tag n ps vs) =
     (case map_of ps ''href'' of None \<Rightarrow> [] | Some h \<Rightarrow> [h]) @ concat (map view_links vs)"

text \<open>Several views that may throw, side by side.\<close>

definition frag_of :: "view result list \<Rightarrow> view result" where
  "frag_of rs = rmap Frag (rmap_list (\<lambda>r. r) rs)"

fun num_text :: "jsnum \<Rightarrow> string" where
  "num_text NaN = ''NaN''"
| "num_text PosInf = ''Infinity''"
| "num_text NegInf = ''-Infinity''"
| "num_text (Num i) = show_int i"

definition num_view :: "jsnum \<Rightarrow> view" where
  "num_view n = Digits (num_text n)"

definition Skeleton :: view where
  "Skeleton = Tag ''Skeleton'' [] []"

definition Typography :: "view list \<Rightarrow> view" where
  "Typography vs = Tag ''Typography'' [] vs"

section \<open>Arrays with numbers as bounds\<close>

text \<open>\<open>xs.slice(a, b)\<close>: bounds that are no number count as 0, negative ones from the end.\<close>

definition slice_bound :: "nat \<Rightarrow> jsnum \<Rightarrow> nat" where
  "slice_bound len a =
     (case a of
        NaN \<Rightarrow> 0
      | PosInf \<Rightarrow> len
      | NegInf \<Rightarrow> 0
      | Num i \<Rightarrow> if i < 0 then nat (int len + i) else min (nat i) len)"

definition js_slice :: "jsnum \<Rightarrow> jsnum \<Rightarrow> 'a list \<Rightarrow> 'a list" where
  "js_slice a b xs = slice (slice_bound (length xs) a) (slice_bound (length xs) b) xs"

text \<open>\<open>Array(n)\<close>: its length, or a \<open>RangeError\<close>.\<close>

definition invalid_length :: js_error where
  "invalid_length = Error ''Invalid array length''"

definition array_length :: "jsnum \<Rightarrow> nat result" where
  "array_length n =
     (case n of Num i \<Rightarrow> if 0 \<le> i \<and> i < 2 ^ 32 then Inr (nat i) else Inl invalid_length
      | _ \<Rightarrow> Inl invalid_length)"

lemma slice_min: "slice (min a (length xs)) (min b (length xs)) xs = slice a b xs"
proof -
  have "take (min b (length xs)) xs = take b xs" by (simp add: min_def)
  moreover have "drop (min a (length xs)) (take b xs) = drop a (take b xs)"
    by (cases "a \<le> length xs") (simp_all add: min_def)
  ultimately show ?thesis by (simp add: slice_def)
qed

lemma js_slice_page:
  assumes "0 \<le> p" and "0 \<le> s" and "(p + 1) * s < 2 ^ 53"
  shows "js_slice (num_mul (Num p) (Num s)) (num_mul (num_add (Num p) (Num 1)) (Num s)) xs =
    slice (nat p * nat s) (Suc (nat p) * nat s) xs"
proof (cases "s = 0")
  case True
  then have "slice_bound (length xs) (num_mul x (Num s)) = 0" for x
    by (cases x) (simp_all add: slice_bound_def)
  then show ?thesis using True by (simp add: js_slice_def slice_def)
next
  case False
  with assms(2) have s: "1 \<le> s" by simp
  have le: "0 \<le> p * s" "0 \<le> (p + 1) * s" using assms(1,2) by simp_all
  have "p * s \<le> (p + 1) * s" using s by (simp add: distrib_right)
  then have ps: "\<bar>p * s\<bar> < 2 ^ 53" using le(1) assms(3) by (metis abs_of_nonneg le_less_trans)
  have "(p + 1) * 1 \<le> (p + 1) * s" using assms(1) s by (intro mult_left_mono) simp_all
  then have "p + 1 < 2 ^ 53" using assms(3) by (metis mult.right_neutral le_less_trans)
  then have p1: "\<bar>p + 1\<bar> < 2 ^ 53" using assms(1) by simp
  have ps1: "\<bar>(p + 1) * s\<bar> < 2 ^ 53" using le(2) assms(3) by (metis abs_of_nonneg)
  have num: "num_mul (Num p) (Num s) = Num (p * s)"
      "num_mul (num_add (Num p) (Num 1)) (Num s) = Num ((p + 1) * s)"
    unfolding num_mul.simps num_add.simps num_of_safe [OF ps] num_of_safe [OF p1] num_of_safe [OF ps1] by (rule refl)+
  have bound: "slice_bound (length xs) (Num i) = min (nat i) (length xs)" if "0 \<le> i" for i
    using that by (simp add: slice_bound_def)
  have n: "nat (p * s) = nat p * nat s" "nat ((p + 1) * s) = Suc (nat p) * nat s"
    using assms(1,2) by (simp_all only: nat_mult_distrib add_nonneg_nonneg zero_le_one Suc_nat_eq_nat_zadd1 add.commute)
  show ?thesis
    unfolding num js_slice_def bound [OF le(1)] bound [OF le(2)] slice_min n ..
qed

section \<open>Dates\<close>

text \<open>
  The package \<open>dayjs\<close> prints a time in the format of the settings and its distance from now;
  \<open>formatUnixTime\<close> and \<open>getTimeDurationDisplay\<close> only call it.
\<close>

record date_ops =
  dayjs_format_utc :: "string \<Rightarrow> int \<Rightarrow> string"
  dayjs_to :: "int \<Rightarrow> string"

definition DEFAULT_DATE_TIME_FORMAT :: string where
  [cfg_defs]: "DEFAULT_DATE_TIME_FORMAT = ''YYYY-MM-DD HH:mm:ss +UTC''"

definition formatUnixTime :: "date_ops \<Rightarrow> int \<Rightarrow> string" where
  "formatUnixTime D unixTime = dayjs_format_utc D DEFAULT_DATE_TIME_FORMAT unixTime"

definition getTimeDurationDisplay :: "date_ops \<Rightarrow> int \<Rightarrow> string" where
  "getTimeDurationDisplay D date = dayjs_to D date"

section \<open>Common components\<close>

definition Card :: "view list \<Rightarrow> view" where
  "Card children = Tag ''Card'' [] [Tag ''CardContent'' [] children]"

definition Link :: "string \<Rightarrow> view list \<Rightarrow> view" where
  "Link href children = Tag ''Link'' [(''href'', href)] children"

definition PageTitle :: "view \<Rightarrow> view \<Rightarrow> view" where
  "PageTitle title subtitle =
     Tag ''Box'' []
       [Typography [Tag ''b'' [] [title]],
        if subtitle = Nothing \<or> subtitle = Text [] then subtitle else Typography [subtitle]]"

text \<open>\<open>typeof value === 'string' ? <Typography>{value}</Typography> : value\<close>\<close>

definition in_typography :: "view \<Rightarrow> view" where
  "in_typography value = (case value of Text s \<Rightarrow> Typography [Text s] | _ \<Rightarrow> value)"

definition DetailItem :: "string \<Rightarrow> view \<Rightarrow> bool \<Rightarrow> view" where
  "DetailItem label value loading =
     Tag ''Grid'' []
       [Tag ''Grid'' [] [Typography [Text label]],
        Tag ''Grid'' [] [if loading then Skeleton else in_typography value]]"

definition ItemContainer :: "view list \<Rightarrow> view" where
  "ItemContainer children = Tag ''Grid'' [] children"

definition RowItem :: "string \<Rightarrow> view \<Rightarrow> view" where
  "RowItem label value =
     Tag ''Grid'' []
       [Tag ''Grid'' [] [Typography [Text label]],
        Tag ''Grid'' [] [in_typography value]]"

definition ShortAddress :: "string \<Rightarrow> view" where
  "ShortAddress address =
     Tag ''Tooltip'' [(''title'', address)] [Tag ''span'' [] [Text (getShortAddress address)]]"

definition ShortTxHash :: "string \<Rightarrow> view" where
  "ShortTxHash txHash =
     Tag ''Tooltip'' [(''title'', txHash)] [Tag ''span'' [] [Text (getShortTxHash txHash)]]"

text \<open>A \<open>Chip\<close> of the component library, with its label and the colour the code chooses.\<close>

definition Chip :: "string \<Rightarrow> view \<Rightarrow> view" where
  "Chip color label = Tag ''Chip'' [(''color'', color)] [label]"

text \<open>A read-only text field.\<close>

definition TextField :: "string \<Rightarrow> view" where
  "TextField value = Tag ''TextField'' [(''value'', value)] []"

subsection \<open>Copying\<close>

text \<open>
  \<open>CopyButton\<close>: each click copies and starts a timer of its own; the first timer that fires clears
  the mark, also when a later click has set it again.
\<close>

record copyButton =
  cb_isCopied :: bool
  cb_timers :: nat
  cb_clipboard :: "string option"

datatype copy_event = CopyClick | CopyTimeout

fun copy_step :: "string \<Rightarrow> copy_event \<Rightarrow> copyButton \<Rightarrow> copyButton" where
  "copy_step textToCopy CopyClick S =
     S\<lparr>cb_clipboard := Some textToCopy, cb_isCopied := True, cb_timers := cb_timers S + 1\<rparr>"
| "copy_step textToCopy CopyTimeout S =
     (if cb_timers S = 0 then S else S\<lparr>cb_isCopied := False, cb_timers := cb_timers S - 1\<rparr>)"

definition CopyButton_view :: "bool \<Rightarrow> view" where
  "CopyButton_view isCopied =
     Tag ''Tooltip'' [(''title'', if isCopied then ''Copied'' else ''Copy'')]
       [Tag ''IconButton'' [] [Tag (if isCopied then ''DoneIcon'' else ''ContentCopyIcon'') [] []]]"

text \<open>The button where another component shows it, before any click.\<close>

definition CopyButton :: "string \<Rightarrow> view" where
  "CopyButton textToCopy = Tag ''CopyButton'' [(''textToCopy'', textToCopy)] [CopyButton_view False]"

definition QRCodeButton :: "string \<Rightarrow> bool \<Rightarrow> view" where
  "QRCodeButton value isOpen =
     Frag [Tag ''IconButton'' [] [Tag ''QrCodeScannerIcon'' [] []],
           if isOpen then Tag ''Modal'' [] [Tag ''QRCodeCanvas'' [(''value'', value)] []] else Nothing]"

subsection \<open>Links\<close>

text \<open>The explorer of the hub, when the environment names no other one.\<close>

definition DYM_ESCAN_URL :: string where
  [cfg_defs]: "DYM_ESCAN_URL = ''https://dym.fyi''"

text \<open>\<open>usePathname()\<close> is the argument \<open>pathname\<close>. A display text that is missing or empty is falsy.\<close>

definition address_href :: "string \<Rightarrow> string \<Rightarrow> string" where
  "address_href pathname address =
     (if startsWith (toLowerCase address) DYM_ADDRESS_PREFIX
      then DYM_ESCAN_URL @ ''/address/'' @ address
      else getNewPathByRollapp pathname (Path_text ADDRESS @ ''/'' @ address))"

definition AddressLink :: "string \<Rightarrow> string \<Rightarrow> string option \<Rightarrow> bool \<Rightarrow> view" where
  "AddressLink pathname address display showCopyButton =
     Frag [Link (address_href pathname address)
             [Text (case display of Some (c # s) \<Rightarrow> c # s | _ \<Rightarrow> address)],
           if showCopyButton then CopyButton address else Nothing]"

definition LinkToBlockNo :: "string \<Rightarrow> view \<Rightarrow> view" where
  "LinkToBlockNo pathname blockNo =
     Link (getNewPathByRollapp pathname (Path_text BLOCK) @ ''/'' @ view_text blockNo) [blockNo]"

subsection \<open>Dates with a tooltip\<close>

text \<open>
  \<open>age\<close> is the text the interval last wrote: \<open>-\<close> before its first tick, and as it was while the
  date is shown, when no interval runs.
\<close>

definition refresh_age :: "date_ops \<Rightarrow> bool \<Rightarrow> int \<Rightarrow> string \<Rightarrow> string" where
  "refresh_age D showDateTime unixTimestamp age =
     (if \<not> showDateTime then getTimeDurationDisplay D unixTimestamp else age)"

definition DateWithTooltip :: "date_ops \<Rightarrow> bool \<Rightarrow> int \<Rightarrow> string \<Rightarrow> view" where
  "DateWithTooltip D showDateTime unixTimestamp age =
     (let timeUtc = formatUnixTime D unixTimestamp in
      Tag ''Tooltip'' [(''title'', if \<not> showDateTime then timeUtc else age)]
        [Tag ''span'' [] [Text (if showDateTime then timeUtc else age)]])"

subsection \<open>Breadcrumbs\<close>

definition breadcrumb :: "string \<Rightarrow> string list \<Rightarrow> nat \<Rightarrow> string \<Rightarrow> view" where
  "breadcrumb pathname splittedPath idx value =
     (if idx = 0 then Nothing
      else
        (let isLast = (idx = length splittedPath - 1);
             to = ''/'' @ value;
             breadcrumbName = breadcrumb_of to
         in if isLast
            then Typography [Text (case breadcrumbName of
                Some n \<Rightarrow> n
              | None \<Rightarrow> if test_full (plus1 (Cls is_digit)) value then ''#'' @ value else value)]
            else Link (getNewPathByRollapp pathname to)
                   [case breadcrumbName of Some n \<Rightarrow> Text n | None \<Rightarrow> Nothing]))"

definition PageBreadcrumb :: "string \<Rightarrow> view" where
  "PageBreadcrumb pathname =
     (let splittedPath = filter (\<lambda>p. p \<noteq> []) (split_on CHR ''/'' pathname) in
      Tag ''Breadcrumbs'' []
        (Link (getNewPathByRollapp pathname (Path_text OVERVIEW)) [Text ''Home''] #
         map (\<lambda>(value, idx). breadcrumb pathname splittedPath idx value)
           (zip splittedPath [0..<length splittedPath])))"

section \<open>Facts\<close>

lemmas view_simps = Card_def Link_def PageTitle_def in_typography_def DetailItem_def ItemContainer_def
  RowItem_def ShortAddress_def ShortTxHash_def Chip_def TextField_def CopyButton_view_def CopyButton_def
  AddressLink_def LinkToBlockNo_def Typography_def Skeleton_def

lemma links_AddressLink [simp]: "view_links (AddressLink pathname a d c) = [address_href pathname a]"
  by (simp add: view_simps)

lemma links_LinkToBlockNo [simp]:
  "view_links (LinkToBlockNo pathname b) = (getNewPathByRollapp pathname (Path_text BLOCK) @ ''/'' @ view_text b) # view_links b"
  by (simp add: view_simps)

lemma links_DateWithTooltip [simp]: "view_links (DateWithTooltip D s t age) = []"
  by (simp add: DateWithTooltip_def Let_def)

lemma links_many: "view_links (Frag vs) = concat (map view_links vs)" by simp

end
