(* ===== verification/Table.thy ===== *)
theory Table
  imports View
begin

text \<open>
  \<open>web-app/src/components/commons/DataTable.tsx\<close> and the navigation its users share: a click on the
  pagination pushes the present path with one parameter of the query string replaced.
\<close>

section \<open>The table\<close>

record tableProps =
  tp_headers :: "view list"
  tp_body :: "view list list"
  tp_rowKeys :: "string list"
  tp_total :: "int option"
  tp_page :: jsnum
  tp_pageSize :: jsnum
  tp_loading :: bool
  tp_loadingItems :: "nat option"
  tp_enablePagination :: bool
  tp_summaryRows :: view
  tp_showPaginationOnTop :: bool
  tp_noDataTitle :: string

text \<open>The properties a user gives, with the defaults of the others.\<close>

definition basic_table ::
    "view list \<Rightarrow> view list list \<Rightarrow> string list \<Rightarrow> int option \<Rightarrow> jsnum \<Rightarrow> jsnum \<Rightarrow> bool \<Rightarrow> tableProps" where
  "basic_table headers body rowKeys totalRows page pageSize loading =
     \<lparr>tp_headers = headers, tp_body = body, tp_rowKeys = rowKeys, tp_total = totalRows, tp_page = page,
      tp_pageSize = pageSize, tp_loading = loading, tp_loadingItems = None, tp_enablePagination = True,
      tp_summaryRows = Nothing, tp_showPaginationOnTop = True, tp_noDataTitle = ''No data''\<rparr>"

text \<open>\<open>Array(loadingItems || pageSize)\<close>\<close>

definition table_body :: "tableProps \<Rightarrow> view list list result" where
  "table_body P =
     (if tp_loading P
      then rmap (\<lambda>n. replicate n (replicate (length (tp_headers P)) Skeleton))
             (case tp_loadingItems P of
                Some (Suc k) \<Rightarrow> Inr (Suc k)
              | _ \<Rightarrow> array_length (tp_pageSize P))
      else Inr (tp_body P))"

definition showPagination :: "tableProps \<Rightarrow> bool" where
  "showPagination P \<longleftrightarrow> tp_enablePagination P \<and>
     (case tp_total P of None \<Rightarrow> True | Some n \<Rightarrow> num_less (tp_pageSize P) (Num n))"

definition pagination_view :: "tableProps \<Rightarrow> view" where
  "pagination_view P =
     (if showPagination P
      then Tag ''TablePagination''
        [(''rowsPerPageOptions'', if tp_total P \<noteq> None then ''10,25,50,100'' else []),
         (''count'', case tp_total P of Some n \<Rightarrow> show_int n | None \<Rightarrow> ''-1''),
         (''rowsPerPage'', num_text (tp_pageSize P)), (''page'', num_text (tp_page P)),
         (''showFirstButton'', if tp_total P \<noteq> None then ''true'' else ''false''),
         (''showLastButton'', if tp_total P \<noteq> None then ''true'' else ''false'')] []
      else Nothing)"

definition header_view :: "view \<Rightarrow> view" where
  "header_view header =
     (case header of Text s \<Rightarrow> Typography [Tag ''b'' [] [Text s]] | _ \<Rightarrow> header)"

definition row_key :: "string list \<Rightarrow> nat \<Rightarrow> string" where
  "row_key rowKeys idx = (if idx < length rowKeys then rowKeys ! idx else show_nat idx)"

definition row_view :: "string list \<Rightarrow> view list \<Rightarrow> nat \<Rightarrow> view" where
  "row_view rowKeys row idx =
     Tag ''TableRow'' [(''key'', row_key rowKeys idx)] (map (\<lambda>cell. Tag ''TableCell'' [] [cell]) row)"

definition DataTable :: "tableProps \<Rightarrow> view result" where
  "DataTable P =
     rmap (\<lambda>body.
       if body = [] then Tag ''Box'' [] [Text (tp_noDataTitle P)]
       else
         Frag [if tp_showPaginationOnTop P then pagination_view P else Nothing,
           Tag ''TableContainer'' []
             [Tag ''Table'' []
               [Tag ''TableHead'' []
                  [Tag ''TableRow'' [] (map (\<lambda>h. Tag ''TableCell'' [] [header_view h]) (tp_headers P))],
                Tag ''TableBody'' []
                  (map (\<lambda>(row, idx). row_view (tp_rowKeys P) row idx) (zip body [0..<length body]) @
                   [if \<not> tp_loading P then tp_summaryRows P else Nothing])]],
           pagination_view P])
       (table_body P)"

section \<open>Navigation\<close>

text \<open>
  \<open>URLSearchParams\<close> is the list of the parameters; \<open>get\<close> reads the first of a name, \<open>set\<close> replaces
  it and removes the others of that name, or appends it.
\<close>

type_synonym searchParams = "(string \<times> string) list"

definition params_get :: "searchParams \<Rightarrow> string \<Rightarrow> string option" where
  "params_get ps k = map_of ps k"

fun params_set :: "string \<Rightarrow> string \<Rightarrow> searchParams \<Rightarrow> searchParams" where
  "params_set k v [] = [(k, v)]"
| "params_set k v ((k', v') # ps) =
     (if k' = k then (k, v) # filter (\<lambda>p. fst p \<noteq> k) ps else (k', v') # params_set k v ps)"

text \<open>What \<open>router.push\<close> is given: the path and the parameters.\<close>

definition push_page :: "string \<Rightarrow> searchParams \<Rightarrow> nat \<Rightarrow> string \<times> searchParams" where
  "push_page pathname searchParams newPage =
     (pathname, params_set PAGE_PARAM_NAME (show_nat newPage) searchParams)"

definition push_page_size :: "string \<Rightarrow> searchParams \<Rightarrow> string \<Rightarrow> string \<times> searchParams" where
  "push_page_size pathname searchParams newPageSize =
     (pathname, params_set PAGE_SIZE_PARAM_NAME newPageSize searchParams)"

definition page_of_params :: "searchParams \<Rightarrow> nat option \<Rightarrow> jsnum \<times> jsnum" where
  "page_of_params searchParams totalRows =
     getPageAndPageSizeFromStringParam (params_get searchParams PAGE_SIZE_PARAM_NAME)
       (params_get searchParams PAGE_PARAM_NAME) totalRows"

section \<open>Facts\<close>

lemma params_get_set: "params_get (params_set k v ps) k' = (if k' = k then Some v else params_get ps k')"
proof (induction ps)
  case Nil
  then show ?case by (simp add: params_get_def)
next
  case (Cons p ps)
  obtain a b where p: "p = (a, b)" by (cases p)
  have "map_of (filter (\<lambda>p. fst p \<noteq> k) ps) k' = map_of ps k'" if "k' \<noteq> k"
    using that by (induction ps) auto
  with Cons show ?case by (auto simp: params_get_def p)
qed

lemma number_of_digits:
  "n < 2 ^ 53 \<Longrightarrow> getNumberFromStringParam (Some (show_nat n)) = Num (int n)"
  by (simp add: getNumberFromStringParam_def test_full_iff parseInt_digits)

text \<open>The keys of the rows, in order.\<close>

lemma row_key_slice:
  "length rowKeys = length body \<Longrightarrow> map (\<lambda>(row, idx). row_key rowKeys idx) (zip body [0..<length body]) = rowKeys"
  by (rule nth_equalityI) (simp_all add: row_key_def)

lemma valid_page_exact:
  assumes "1 \<le> s" and "t < 2 ^ 52" and "n * s < t"
  shows "getValidPage (Num (int n)) (Num (int s)) (Some t) = Num (int n)"
proof (cases "n = 0")
  case True
  then show ?thesis by (simp add: getValidPage_def num_le_def)
next
  case False
  let ?c = "ceil_div (int t) (int s)"
  have t: "t \<noteq> 0" using assms(3) by simp
  have c: "1 \<le> ?c" "?c \<le> int t" "int t \<le> ?c * int s"
    using assms(1) t ceil_div_pos [of "int s" "int t"] ceil_div_le [of "int s" "int t"]
      ceil_div_bounds(1) [of "int s" "int t"] by auto
  have "int n * int s < ?c * int s" using c(3) assms(3) by (metis le_less_trans of_nat_less_iff of_nat_mult less_le_trans)
  then have "int n < ?c" using assms(1) by simp
  moreover have "\<bar>?c\<bar> < 2 ^ 52" using c(1,2) assms(2) by (simp add: zless_nat_eq_int_zless [symmetric])
  then have "num_add (pages_of t (Num (int s))) (Num (- 1)) = Num (?c - 1)"
    using assms(1) num_add_minus1 [of ?c] by (simp add: pages_of_def)
  ultimately show ?thesis
    using False t by (simp add: getValidPage_def num_le_def num_min_def)
qed

lemma page_click_eq:
  assumes "totalRows < 2 ^ 52" and "page_of_params ps (Some totalRows) = (Num (int s), q)" and "n * s < totalRows"
  shows "page_of_params (snd (push_page pathname ps n)) (Some totalRows) = (Num (int s), Num (int n))"
proof -
  obtain s' where s': "getValidPageSize (getNumberFromStringParam (params_get ps PAGE_SIZE_PARAM_NAME)) = Num (int s')"
      "1 \<le> s'"
    using valid_page_size by blast
  with assms(2) have s: "s' = s" by (simp add: page_of_params_def getPageAndPageSizeFromStringParam_def Let_def)
  have "n * 1 \<le> n * s" using s'(2) unfolding s by (rule mult_le_mono2)
  then have "n < totalRows" using assms(3) by linarith
  also have "\<dots> < 2 ^ 53" using assms(1) by simp
  finally have "n < 2 ^ 53" .
  then have "getNumberFromStringParam (Some (show_nat n)) = Num (int n)" by (rule number_of_digits)
  then show ?thesis
    using s' valid_page_exact [OF _ assms(1,3)] unfolding s
    by (simp add: page_of_params_def push_page_def params_get_set getPageAndPageSizeFromStringParam_def Let_def
        PAGE_PARAM_NAME_def PAGE_SIZE_PARAM_NAME_def)
qed

section \<open>Properties\<close>

text \<open>
  C22: A click on a page of the pagination leads to that page: the parameters that are pushed are
  read back as the page clicked, with the page size as it was, whenever the page has a row, and the
  other parameters are kept.
\<close>

theorem page_click_roundtrip:
  assumes "totalRows < 2 ^ 52" and "page_of_params ps (Some totalRows) = (Num (int s), q)" and "n * s < totalRows"
  shows "fst (push_page pathname ps n) = pathname \<and>
    page_of_params (snd (push_page pathname ps n)) (Some totalRows) = (Num (int s), Num (int n)) \<and>
    (k \<noteq> PAGE_PARAM_NAME \<longrightarrow> params_get (snd (push_page pathname ps n)) k = params_get ps k)"
  using page_click_eq [OF assms] by (simp add: push_page_def params_get_set)

lemma page_click_roundtrip_witness:
  "page_of_params (snd (push_page ''/nim/txs'' [(''block'', ''x'')] 3)) (Some 100) = (Num 25, Num 3)"
proof -
  have "page_of_params [(''block'', ''x'')] (Some 100) = (Num (int 25), Num 0)"
    by (simp add: page_of_params_def params_get_def getPageAndPageSizeFromStringParam_def Let_def
        getNumberFromStringParam_def getValidPageSize_def getValidPage_def cfg_defs)
  from page_click_roundtrip [OF _ this, where n = 3] show ?thesis by simp
qed

end
