(* ===== verification/AddressView.thy ===== *)
theory AddressView
  imports Table FetchHook
begin

text \<open>
  The address page's components (\<open>web-app/src/components/client/address\<close>): the coins, tokens, NFTs
  and stakes of an account, its title and tabs. Balances and metadata are what the hooks return.
  \<open>B\<close> is the package \<open>big.js\<close>, \<open>localeCompare\<close> the comparison of the platform.
\<close>

section \<open>Coins\<close>

definition coin_row :: "'b big_ops \<Rightarrow> BalancesWithMetadata \<Rightarrow> string \<Rightarrow> (string \<times> string) result" where
  "coin_row B accountBalances denom =
     (case obj_get accountBalances denom of
        None \<Rightarrow> Inl TypeError
      | Some b \<Rightarrow>
          (let (d, decimals) = (case bwm_metadata b of
               Some m \<Rightarrow> (dm_symbol m, dm_highestExponent m) | None \<Rightarrow> (denom, 0))
           in rmap (Pair d) (formatBlockchainAmount B (Some (FromString (bwm_balance b))) decimals None)))"

definition coin_rows ::
    "'b big_ops \<Rightarrow> (string \<Rightarrow> string \<Rightarrow> int) \<Rightarrow> BalancesWithMetadata option \<Rightarrow> (string list \<times> (string \<times> string) list) result"
    where
  "coin_rows B localeCompare accountBalances =
     (case accountBalances of
        None \<Rightarrow> Inr ([], [])
      | Some bs \<Rightarrow>
          (let rowKeys = toSortedDenoms localeCompare bs
           in rmap (Pair rowKeys) (rmap_list (coin_row B bs) rowKeys)))"

definition text_row :: "string \<times> string \<Rightarrow> view list" where
  "text_row r = [Text (fst r), Text (snd r)]"

definition summary_slice :: "nat \<Rightarrow> 'a list \<Rightarrow> 'a list" where
  "summary_slice page xs =
     slice (page * ADDRESS_SUMMARY_COINS_PAGE_SIZE) (Suc page * ADDRESS_SUMMARY_COINS_PAGE_SIZE) xs"

definition summary_table :: "view list \<Rightarrow> view list list \<Rightarrow> string list \<Rightarrow> nat \<Rightarrow> bool \<Rightarrow> tableProps" where
  "summary_table headers body rowKeys page loading =
     (basic_table headers body rowKeys (Some (int (length rowKeys))) (Num (int page))
        (Num (int ADDRESS_SUMMARY_COINS_PAGE_SIZE)) loading)\<lparr>tp_loadingItems := Some 1\<rparr>"

definition AddressCoins ::
    "'b big_ops \<Rightarrow> (string \<Rightarrow> string \<Rightarrow> int) \<Rightarrow> nat \<Rightarrow> BalancesWithMetadata option \<Rightarrow> bool \<Rightarrow> tableProps result"
    where
  "AddressCoins B localeCompare page accountBalances loading =
     rmap (\<lambda>(rowKeys, body).
       summary_table [Text ''Denom'', Text ''Balance''] (summary_slice page (map text_row body)) rowKeys page loading)
       (coin_rows B localeCompare accountBalances)"

section \<open>Tokens\<close>

record dbAccount =
  da_chain_id :: string
  da_bech32_address :: string
  da_balance_on_erc20_contracts :: "string list"
  da_balance_on_nft_contracts :: "string list"

text \<open>The dependencies of \<open>useTokenBalances\<close>: the address and the contracts of the page.\<close>

definition tokens_asked :: "dbAccount \<Rightarrow> string option \<Rightarrow> nat \<Rightarrow> string \<times> string list" where
  "tokens_asked accountInfo evmAddress page =
     ((case evmAddress of Some (c # s) \<Rightarrow> c # s | _ \<Rightarrow> da_bech32_address accountInfo),
      summary_slice page (da_balance_on_erc20_contracts accountInfo))"

definition token_row :: "'b big_ops \<Rightarrow> string \<Rightarrow> erc20Balance \<Rightarrow> view list result" where
  "token_row B pathname tokenBalance =
     rmap (\<lambda>amount. [AddressLink pathname (eb_contract tokenBalance) (Some (eb_display tokenBalance)) False, Text amount])
       (formatBlockchainAmount B (Some (FromString (eb_balance tokenBalance))) (eb_decimals tokenBalance) None)"

definition AddressTokens ::
    "'b big_ops \<Rightarrow> string \<Rightarrow> nat \<Rightarrow> erc20Balance list \<Rightarrow> bool \<Rightarrow> tableProps result" where
  "AddressTokens B pathname page tokenBalances loading =
     rmap (\<lambda>body.
       summary_table [Text ''Token'', Text ''Balance''] body (map eb_contract tokenBalances) page loading)
       (rmap_list (token_row B pathname) tokenBalances)"

section \<open>NFTs\<close>

definition nft_name :: "account \<Rightarrow> string" where
  "nft_name a = (case acc_contract a of
     Some c \<Rightarrow> (case ct_name c of Some n \<Rightarrow> n | None \<Rightarrow> []) | None \<Rightarrow> [])"

definition nft_address :: "account \<Rightarrow> string" where
  "nft_address a = (if aa_evm (acc_address a) \<noteq> [] then aa_evm (acc_address a) else aa_cosmos (acc_address a))"

definition compare_nft :: "(string \<Rightarrow> string \<Rightarrow> int) \<Rightarrow> account \<Rightarrow> account \<Rightarrow> int" where
  "compare_nft localeCompare a b =
     (if nft_name a \<noteq> [] \<and> nft_name b \<noteq> [] then localeCompare (nft_name a) (nft_name b)
      else if nft_name a \<noteq> [] \<and> nft_name b = [] then -1
      else if nft_name a = [] \<and> nft_name b \<noteq> [] then 1
      else localeCompare (nft_address a) (nft_address b))"

definition AddressNft :: "(string \<Rightarrow> string \<Rightarrow> int) \<Rightarrow> string \<Rightarrow> nat \<Rightarrow> account list \<Rightarrow> bool \<Rightarrow> tableProps" where
  "AddressNft localeCompare pathname page nfts loading =
     (let sorted = js_sort (compare_nft localeCompare) nfts;
          rowKeys = map (\<lambda>a. aa_cosmos (acc_address a)) sorted;
          body = map (\<lambda>a. [AddressLink pathname (nft_address a)
                     (case acc_contract a of Some c \<Rightarrow> ct_name c | None \<Rightarrow> None) False]) sorted
      in summary_table [Text ''NFT Contract''] (summary_slice page body) rowKeys page loading)"

section \<open>Stakes\<close>

text \<open>\<open>bond\<close> is the bond denomination of the chain; a missing metadata prints as \<open>undefined\<close>.\<close>

definition stake_row :: "'b big_ops \<Rightarrow> denomMetadata option \<Rightarrow> string \<times> string \<Rightarrow> (string \<times> string) result" where
  "stake_row B denomMetadata s =
     rmap (\<lambda>amount. (fst s, amount @ '' '' @
        (case denomMetadata of Some m \<Rightarrow> dm_symbol m | None \<Rightarrow> ''undefined'')))
       (formatBlockchainAmount B (Some (FromString (snd s)))
          (case denomMetadata of Some m \<Rightarrow> dm_highestExponent m | None \<Rightarrow> 0) None)"

definition AddressStaking ::
    "'b big_ops \<Rightarrow> nat \<Rightarrow> accountStaking \<Rightarrow> string \<Rightarrow> denomsMetadata \<Rightarrow> bool \<Rightarrow> tableProps result" where
  "AddressStaking B page accountStakingInfo bond denomsMetadata denomsMetadataLoading =
     rbind (rmap_list (stake_row B (obj_get denomsMetadata bond)) (as_staking accountStakingInfo)) (\<lambda>body.
     rmap (\<lambda>totalReward.
       (summary_table [Text ''Governor'', Text ''Delegated Amount''] (summary_slice page (map text_row body))
          (obj_keys (as_staking accountStakingInfo)) page denomsMetadataLoading)
       \<lparr>tp_summaryRows := Tag ''TableRow'' [(''key'', ''rewards'')]
          [Tag ''TableCell'' [] [Tag ''strong'' [] [Text ''Total rewards: '', Text totalReward]]]\<rparr>)
       (formatRpcAmount B (as_rewards accountStakingInfo) denomsMetadata))"

section \<open>The page\<close>

definition balances_with_metadata :: "account option \<Rightarrow> denomsMetadata \<Rightarrow> BalancesWithMetadata option" where
  "balances_with_metadata accountRpcData denomsMetadata =
     map_option (\<lambda>a. foldl (\<lambda>final (denom, balance).
         obj_set denom \<lparr>bwm_balance = balance, bwm_metadata = obj_get denomsMetadata denom\<rparr> final)
       [] (acc_balances a)) accountRpcData"

text \<open>\<open>Object.keys(contract).length\<close>: the fields that are there.\<close>

definition contract_keys :: "contractAccountInfo \<Rightarrow> nat" where
  "contract_keys c = length (filter id [ct_name c \<noteq> None, ct_symbol c \<noteq> None, ct_decimals c \<noteq> None])"

definition opt_text :: "string option \<Rightarrow> view" where
  "opt_text s = (case s of Some t \<Rightarrow> Text t | None \<Rightarrow> Nothing)"

definition TokenSummary :: "contractAccountInfo \<Rightarrow> bool \<Rightarrow> view" where
  "TokenSummary contract loading =
     Card [Tag ''Grid'' []
       [DetailItem ''Name'' (opt_text (ct_name contract)) loading,
        DetailItem ''Symbol'' (opt_text (ct_symbol contract)) loading,
        DetailItem ''Decimals'' (case ct_decimals contract of Some d \<Rightarrow> num_view (Num d) | None \<Rightarrow> Nothing) loading]]"

text \<open>\<open>isToken && <TokenSummary/>\<close>: a contract without fields makes \<open>isToken\<close> the number 0, which is shown.\<close>

definition token_part :: "account option \<Rightarrow> bool \<Rightarrow> view" where
  "token_part accountRpcData accountLoading =
     (case accountRpcData of
        None \<Rightarrow> Nothing
      | Some a \<Rightarrow>
          (case acc_contract a of
             None \<Rightarrow> Nothing
           | Some c \<Rightarrow> if contract_keys c = 0 then num_view (Num 0) else TokenSummary c accountLoading))"

definition token_not_found :: "bool \<Rightarrow> account option \<Rightarrow> bool" where
  "token_not_found tokenMode accountRpcData \<longleftrightarrow>
     tokenMode \<and>
     (case accountRpcData of
        None \<Rightarrow> False
      | Some a \<Rightarrow> (case acc_contract a of None \<Rightarrow> True | Some c \<Rightarrow> contract_keys c = 0))"

text \<open>
  The title: \<open>prototype\<close> is the text the effect last wrote; before the account is there it is the
  initial one.
\<close>

definition set_prototype :: "account option \<Rightarrow> string option \<Rightarrow> string option" where
  "set_prototype account prototype = (case account of Some a \<Rightarrow> Some (getAccountType a) | None \<Rightarrow> prototype)"

definition AddressPageTitle ::
    "string \<Rightarrow> string option \<Rightarrow> bool \<Rightarrow> string option \<Rightarrow> string option \<Rightarrow> view" where
  "AddressPageTitle bech32Address evmAddress isValidator prototype title =
     PageTitle
       (case title of
          Some (c # s) \<Rightarrow> Text (c # s)
        | _ \<Rightarrow> (case prototype of
             Some p \<Rightarrow> Text p
           | None \<Rightarrow> if isValidator then Text ''Governor''
                     else Frag [Text ''Account '', Tag ''CircularProgress'' [] []]))
       (Frag ([Tag ''b'' [] [Text bech32Address], CopyButton bech32Address, QRCodeButton bech32Address False] @
          (case evmAddress of
             Some (c # s) \<Rightarrow> [Tag ''br'' [] [], Tag ''b'' [] [Text (c # s)], CopyButton (c # s),
                              QRCodeButton (c # s) False]
           | _ \<Rightarrow> [Nothing])))"

section \<open>The tabs of the summary\<close>

datatype AccountSummaryTab = COINS_TAB | TOKENS_TAB | NFTS_TAB | STAKING_TAB

fun AccountSummaryTab_text :: "AccountSummaryTab \<Rightarrow> string" where
  "AccountSummaryTab_text COINS_TAB = ''Coins''"
| "AccountSummaryTab_text TOKENS_TAB = ''Tokens''"
| "AccountSummaryTab_text NFTS_TAB = ''NFTs''"
| "AccountSummaryTab_text STAKING_TAB = ''Staking''"

definition summary_tab :: "AccountSummaryTab \<Rightarrow> view" where
  "summary_tab t = Tag ''Tab'' [(''value'', AccountSummaryTab_text t), (''label'', AccountSummaryTab_text t)] []"

text \<open>\<open>a && n && <Tab/>\<close>: the number \<open>n\<close> itself is shown when it is 0.\<close>

definition counted_tab :: "nat option \<Rightarrow> AccountSummaryTab \<Rightarrow> view" where
  "counted_tab n t =
     (case n of None \<Rightarrow> Nothing | Some 0 \<Rightarrow> num_view (Num 0) | Some (Suc k) \<Rightarrow> summary_tab t)"

definition summary_tabs :: "dbAccount option \<Rightarrow> account option \<Rightarrow> view list" where
  "summary_tabs accountInfo accountRpcData =
     [summary_tab COINS_TAB,
      counted_tab (map_option (\<lambda>a. length (da_balance_on_erc20_contracts a)) accountInfo) TOKENS_TAB,
      counted_tab (map_option (\<lambda>a. length (da_balance_on_nft_contracts a)) accountInfo) NFTS_TAB,
      (case Option.bind accountRpcData acc_staking of
         None \<Rightarrow> Nothing
       | Some s \<Rightarrow> if as_rewards s \<noteq> [] then summary_tab STAKING_TAB
                   else counted_tab (Some (length (obj_keys (as_staking s)))) STAKING_TAB)]"

text \<open>What the chosen tab shows: the component with the data it is given.\<close>

datatype summary_content =
    ShowCoins
  | ShowTokens dbAccount "string option"
  | ShowNfts dbAccount
  | ShowStaking accountStaking

definition getContent ::
    "string option \<Rightarrow> dbAccount option \<Rightarrow> account option \<Rightarrow> AccountSummaryTab \<Rightarrow> summary_content result" where
  "getContent evmAddress accountInfo accountRpcData tab =
     (case tab of
        TOKENS_TAB \<Rightarrow> rmap (\<lambda>a. ShowTokens a evmAddress) (of_opt TypeError accountInfo)
      | NFTS_TAB \<Rightarrow> rmap ShowNfts (of_opt TypeError accountInfo)
      | STAKING_TAB \<Rightarrow> rbind (of_opt TypeError accountRpcData) (\<lambda>a. rmap ShowStaking (of_opt TypeError (acc_staking a)))
      | COINS_TAB \<Rightarrow> Inr ShowCoins)"

section \<open>The transactions of an address\<close>

definition transactionTabs :: "(AddressTransactionType \<times> string) list" where
  "transactionTabs = [(TRANSACTIONS_TAB, ''Transactions''), (SENT_TRANSACTIONS, ''Sent Transactions''),
     (ERC20_TRANSFER_TAB, ''Token Transfers''), (NFT_TRANSFER, ''NFT Transfers'')]"

text \<open>The values of the tabs need no escaping in a query string.\<close>

definition AddressTransactionsSection :: "string \<Rightarrow> string option \<Rightarrow> view \<Rightarrow> view" where
  "AddressTransactionsSection pathname txType children =
     Card [Tag ''Tabs'' [(''value'', case txType of Some t \<Rightarrow> t | None \<Rightarrow> AddressTransactionType_text TRANSACTIONS_TAB)]
             (map (\<lambda>(value, label). Tag ''Tab'' [(''href'', pathname @ ''?txType='' @ AddressTransactionType_text value),
                  (''label'', label), (''value'', AddressTransactionType_text value)] []) transactionTabs),
           children]"

section \<open>Facts\<close>

lemma obj_set_new: "k \<notin> fst ` set m \<Longrightarrow> obj_set k v m = m @ [(k, v)]"
  by (induction m) auto

lemma obj_build:
  "distinct (map fst xs) \<Longrightarrow> fst ` set xs \<inter> fst ` set m = {} \<Longrightarrow>
   foldl (\<lambda>m (k, v). obj_set k (f k v) m) m xs = m @ map (\<lambda>(k, v). (k, f k v)) xs"
  by (induction xs arbitrary: m) (auto simp: obj_set_new)

lemma balances_with_metadata_eq:
  assumes "obj_wf (acc_balances a)"
  shows "balances_with_metadata (Some a) md =
    Some (map (\<lambda>(d, b). (d, \<lparr>bwm_balance = b, bwm_metadata = obj_get md d\<rparr>)) (acc_balances a))"
  using obj_build [of "acc_balances a" "[]" "\<lambda>d b. \<lparr>bwm_balance = b, bwm_metadata = obj_get md d\<rparr>"] assms
  by (simp add: balances_with_metadata_def obj_wf_def)

lemma get_balances:
  "obj_get (map (\<lambda>(d, b). (d, \<lparr>bwm_balance = b, bwm_metadata = obj_get md d\<rparr>)) bs) d =
   map_option (\<lambda>b. \<lparr>bwm_balance = b, bwm_metadata = obj_get md d\<rparr>) (obj_get bs d)"
  by (induction bs) auto

lemma keys_balances:
  "obj_keys (map (\<lambda>(d, b). (d, \<lparr>bwm_balance = b, bwm_metadata = obj_get md d\<rparr>)) bs) = obj_keys bs"
  by (simp add: obj_keys_def case_prod_unfold comp_def)

lemma sorted_denoms_keys: "mset (toSortedDenoms lc bs) = mset (obj_keys bs)"
  by (simp add: toSortedDenoms_def)

lemma summary_slices: "length xs \<le> n * 10 \<Longrightarrow> concat (map (\<lambda>p. summary_slice p xs) [0..<n]) = xs"
  unfolding summary_slice_def concat_slices by (simp add: cfg_defs)

text \<open>The row of a coin: its symbol and its exact amount.\<close>

definition coin_shown :: "denomsMetadata \<Rightarrow> accountBalances \<Rightarrow> string \<Rightarrow> string \<times> string \<Rightarrow> bool" where
  "coin_shown md bs d r \<longleftrightarrow>
     (\<exists>amount q. obj_get bs d = Some amount \<and> plain_value (strip_commas (snd r)) = Some q \<and>
       (case obj_get md d of
          Some m \<Rightarrow> fst r = dm_symbol m \<and> q * 10 ^ nat (dm_highestExponent m) = of_nat (read_base 10 amount)
        | None \<Rightarrow> fst r = d \<and> q = of_nat (read_base 10 amount)))"

lemma coin_row_shown:
  assumes B: "big_number B val" and amount: "obj_get bs d = Some amount" "amount \<noteq> []" "list_all is_digit amount"
    and md: "\<And>m. obj_get md d = Some m \<Longrightarrow> 0 \<le> dm_highestExponent m \<and> dm_highestExponent m \<le> 20"
  shows "\<exists>r. coin_row B (map (\<lambda>(d, b). (d, \<lparr>bwm_balance = b, bwm_metadata = obj_get md d\<rparr>)) bs) d = Inr r \<and>
    coin_shown md bs d r"
proof -
  let ?e = "case obj_get md d of Some m \<Rightarrow> dm_highestExponent m | None \<Rightarrow> 0"
  obtain x where x: "new_big B amount = Inr x" "val x = of_nat (read_base 10 amount)"
    using big_number.new_big_digits [OF B amount(2,3)] by blast
  then have "to_big B (FromString amount) = Inr x" and "val x = of_int (int (read_base 10 amount))"
    by (simp_all add: to_big_def)
  moreover have "0 \<le> ?e" "?e \<le> 20" using md by (auto split: option.splits)
  ultimately obtain s q where s: "formatBlockchainAmount B (Some (FromString amount)) ?e None = Inr s"
      "plain_value (strip_commas s) = Some q" "q * 10 ^ nat ?e = of_int (int (read_base 10 amount))"
    using big_number.formatBlockchainAmount_exact [OF B] by blast
  then show ?thesis
    by (intro exI [of _ "(case obj_get md d of Some m \<Rightarrow> dm_symbol m | None \<Rightarrow> d, s)"])
      (auto simp: coin_row_def get_balances amount(1) coin_shown_def split: option.splits)
qed

section \<open>Properties\<close>

text \<open>
  C19: The coins of an account are shown completely and exactly: put together, the pages of the table
  list every denomination of the balances once, with the symbol of its metadata (or its own name
  when there is none) and an amount that is the balance divided by the power of ten, without loss.
\<close>

theorem account_coins_shown:
  assumes "big_number B val" and "obj_wf (acc_balances a)"
    and "\<And>d amount. obj_get (acc_balances a) d = Some amount \<Longrightarrow> amount \<noteq> [] \<and> list_all is_digit amount"
    and "\<And>d m. obj_get md d = Some m \<Longrightarrow> 0 \<le> dm_highestExponent m \<and> dm_highestExponent m \<le> 20"
    and "length (acc_balances a) \<le> n * 10"
  shows "\<exists>table keys rows.
    (\<forall>p. AddressCoins B lc p (balances_with_metadata (Some a) md) loading = Inr (table p)) \<and>
    concat (map (\<lambda>p. tp_body (table p)) [0..<n]) = map text_row rows \<and>
    mset keys = mset (obj_keys (acc_balances a)) \<and> list_all2 (coin_shown md (acc_balances a)) keys rows"
proof -
  let ?bs = "map (\<lambda>(d, b). (d, \<lparr>bwm_balance = b, bwm_metadata = obj_get md d\<rparr>)) (acc_balances a)"
  let ?keys = "toSortedDenoms lc ?bs"
  have keys: "mset ?keys = mset (obj_keys (acc_balances a))"
    by (simp only: sorted_denoms_keys keys_balances)
  have "\<exists>r. coin_row B ?bs d = Inr r \<and> coin_shown md (acc_balances a) d r" if "d \<in> set ?keys" for d
  proof -
    have "d \<in> dom (obj_get (acc_balances a))"
      using that arg_cong [OF keys, of set_mset] by (simp only: set_mset_mset set_obj_keys)
    then obtain amount where amount: "obj_get (acc_balances a) d = Some amount" by blast
    then show ?thesis using coin_row_shown [OF assms(1) amount] assms(3) [OF amount] assms(4) by blast
  qed
  then obtain f where "\<forall>d\<in>set ?keys. coin_row B ?bs d = Inr (f d) \<and> coin_shown md (acc_balances a) d (f d)"
    using bchoice [of "set ?keys" "\<lambda>d r. coin_row B ?bs d = Inr r \<and> coin_shown md (acc_balances a) d r"] by blast
  then have f: "\<And>d. d \<in> set ?keys \<Longrightarrow> coin_row B ?bs d = Inr (f d) \<and> coin_shown md (acc_balances a) d (f d)"
    by (rule bspec)
  have rows: "coin_rows B lc (balances_with_metadata (Some a) md) = Inr (?keys, map f ?keys)"
    using rmap_list_total [of ?keys "coin_row B ?bs" f, OF conjunct1 [OF f]]
    by (simp add: coin_rows_def balances_with_metadata_eq [OF assms(2)] Let_def)
  define table where "table p = summary_table [Text ''Denom'', Text ''Balance'']
      (summary_slice p (map text_row (map f ?keys))) ?keys p loading" for p
  have "length ?keys = length (acc_balances a)"
    using arg_cong [OF keys, of size] by (simp only: size_mset obj_keys_def length_map)
  then have "concat (map (\<lambda>p. tp_body (table p)) [0..<n]) = map text_row (map f ?keys)"
    using assms(5) by (simp add: table_def summary_table_def basic_table_def summary_slices)
  moreover have "\<forall>p. AddressCoins B lc p (balances_with_metadata (Some a) md) loading = Inr (table p)"
    by (simp add: AddressCoins_def rows table_def)
  moreover have "list_all2 (coin_shown md (acc_balances a)) ?keys (map f ?keys)"
    using f by (simp add: list_all2_map2 list_all2_same)
  ultimately show ?thesis using keys by blast
qed

text \<open>
  The tokens beyond the tenth cannot be reached. The table is given the number of balances of its
  page as the number of all rows, so for a node that answers at most one balance for each contract
  asked the pagination is never shown, and the first page asks for the first ten contracts only.
\<close>

theorem tokens_beyond_first_page:
  assumes "AddressTokens B pathname page tokenBalances loading = Inr P"
    and "length tokenBalances \<le> length (snd (tokens_asked accountInfo evmAddress page))"
  shows "\<not> showPagination P \<and> pagination_view P = Nothing \<and>
    snd (tokens_asked accountInfo evmAddress 0) = take 10 (da_balance_on_erc20_contracts accountInfo)"
proof -
  have "length tokenBalances \<le> 10"
    using assms(2) by (simp add: tokens_asked_def summary_slice_def cfg_defs)
  then have "\<not> showPagination P"
    using assms(1) by (auto simp: AddressTokens_def result_simps summary_table_def basic_table_def
        showPagination_def cfg_defs)
  then show ?thesis
    by (simp add: pagination_view_def tokens_asked_def summary_slice_def slice_def cfg_defs)
qed

definition sample_account :: account where
  "sample_account = \<lparr>acc_address = \<lparr>aa_cosmos = ''nim1q'', aa_evm = ''0x1''\<rparr>,
     acc_balances = [(''anim'', ''1250''), (''ibc/7'', ''3'')], acc_staking = None, acc_txsCount = 0,
     acc_typeUrl = [], acc_contract = None\<rparr>"

definition nim_metadata :: denomsMetadata where
  "nim_metadata = [(''anim'', \<lparr>dm_denomUnits = [], dm_base = ''anim'', dm_name = ''Nim'', dm_symbol = ''NIM'',
     dm_highestExponent = 18\<rparr>)]"

lemma account_coins_shown_witness:
  "\<exists>table keys rows.
    (\<forall>p. AddressCoins dec_ops compare_units p (balances_with_metadata (Some sample_account) nim_metadata) False
       = Inr (table p)) \<and>
    concat (map (\<lambda>p. tp_body (table p)) [0..<1]) = map text_row rows \<and>
    mset keys = mset (obj_keys (acc_balances sample_account)) \<and>
    list_all2 (coin_shown nim_metadata (acc_balances sample_account)) keys rows"
  by (rule account_coins_shown [OF dec.big_number_axioms])
    (auto simp: sample_account_def nim_metadata_def obj_wf_def is_digit_def code_def split: if_splits)

definition many_tokens :: dbAccount where
  "many_tokens = \<lparr>da_chain_id = ''nim_1-1'', da_bech32_address = ''nim1q'',
     da_balance_on_erc20_contracts = map show_nat [0..<30], da_balance_on_nft_contracts = []\<rparr>"

lemma tokens_beyond_first_page_witness:
  "\<exists>P. AddressTokens dec_ops ''/nim'' 0 [\<lparr>eb_balance = ''1'', eb_contract = ''0'', eb_decimals = 0,
      eb_display = ''T''\<rparr>] False = Inr P \<and> \<not> showPagination P \<and>
    snd (tokens_asked many_tokens None 0) = map show_nat [0..<10]"
proof -
  let ?bs = "[\<lparr>eb_balance = ''1'', eb_contract = ''0'', eb_decimals = 0, eb_display = ''T''\<rparr>]"
  have "\<not> isl (AddressTokens dec_ops ''/nim'' 0 ?bs False)" by code_simp
  then obtain P where P: "AddressTokens dec_ops ''/nim'' 0 ?bs False = Inr P"
    by (cases "AddressTokens dec_ops ''/nim'' 0 ?bs False") auto
  have "length ?bs \<le> length (snd (tokens_asked many_tokens None 0))"
    by (simp add: tokens_asked_def many_tokens_def summary_slice_def cfg_defs)
  from tokens_beyond_first_page [OF P this] P show ?thesis
    by (simp add: many_tokens_def take_map take_upt)
qed

end
