(* ===== verification/TxTable.thy ===== *)
theory TxTable
  imports Table FetchHook Db Search
begin

text \<open>
  Lists of transactions: \<open>components/client/transaction/TransactionListTable.tsx\<close> and
  \<open>TransactionListByBlockNo.tsx\<close>, and the pages \<open>app/[rollappPath]/txs/page.tsx\<close> and
  \<open>app/[rollappPath]/page.tsx\<close>, which put queries, page parameters and the table together. The
  database is the pair of its answers: \<open>run_count\<close> and \<open>run_find\<close>.
\<close>

section \<open>Rows\<close>

record TransactionFields =
  tf_height :: int
  tf_hash :: string
  tf_epoch :: int
  tf_tx_type :: string
  tf_message_types :: "string list"
  tf_action :: "string option"
  tf_value :: "string list option"

datatype TxTableHeader = H_TRANSACTION_HASH | H_MESSAGES | H_VALUE | H_BLOCK | H_DATE_TIME | H_Age

fun TxTableHeader_text :: "TxTableHeader \<Rightarrow> string" where
  "TxTableHeader_text H_TRANSACTION_HASH = ''Transaction Hash''"
| "TxTableHeader_text H_MESSAGES = ''Messages''"
| "TxTableHeader_text H_VALUE = ''Value''"
| "TxTableHeader_text H_BLOCK = ''Block''"
| "TxTableHeader_text H_DATE_TIME = ''Date Time''"
| "TxTableHeader_text H_Age = ''Age''"

text \<open>\<open>splitted[1] || splitted[0]\<close> of \<open>action.split(':')\<close>\<close>

definition action_label :: "string \<Rightarrow> string" where
  "action_label action =
     (let splitted = split_on CHR '':'' action in
      if 1 < length splitted \<and> splitted ! 1 \<noteq> [] then splitted ! 1 else splitted ! 0)"

definition message_chips :: "string list \<Rightarrow> view" where
  "message_chips message_types =
     (let messages = js_set (map getMessageName message_types) in
      Frag (map (\<lambda>(i, idx). Frag [Chip ''default'' (Text i),
                               if idx + 1 \<noteq> length messages then Tag ''br'' [] [] else Nothing])
             (zip messages [0..<length messages])))"

definition getMessageLabel :: "string list \<Rightarrow> string option \<Rightarrow> string \<Rightarrow> view" where
  "getMessageLabel message_types action tx_type =
     (case action of
        Some (c # s) \<Rightarrow>
          (let label = action_label (c # s) in
           if label \<noteq> [] \<and> tx_type = ''evm'' then Chip ''info'' (Text label)
           else if label \<noteq> [] \<and> tx_type = ''wasm'' then Chip ''secondary'' (Text label)
           else message_chips message_types)
      | _ \<Rightarrow> message_chips message_types)"

text \<open>One amount: shown with its metadata, or counted as \<open>some token\<close>. A missing denomination reads
  as the text \<open>undefined\<close>.\<close>

definition known_amount :: "'b big_ops \<Rightarrow> denomsMetadata \<Rightarrow> string \<Rightarrow> string option result" where
  "known_amount B dmeta v =
     (let splitted = split_on CHR '' '' v; amount = splitted ! 0;
          denom = (if 1 < length splitted then splitted ! 1 else ''undefined'')
      in case obj_get dmeta denom of
           None \<Rightarrow> Inr None
         | Some m \<Rightarrow> rmap (\<lambda>a. Some (a @ '' '' @ dm_symbol m))
             (formatBlockchainAmount B (Some (FromString amount)) (dm_highestExponent m) None))"

definition value_cell :: "'b big_ops \<Rightarrow> denomsMetadata \<Rightarrow> string list option \<Rightarrow> view result" where
  "value_cell B dmeta value =
     (case value of
        None \<Rightarrow> Inr (Text ''-'')
      | Some [] \<Rightarrow> Inr (Text ''-'')
      | Some vs \<Rightarrow>
          rmap (\<lambda>amounts. Frag (map (\<lambda>a. Typography [Text a]) (List.map_filter id amounts) @
                 (if None \<in> set amounts then [Typography [Text ''some token'']] else [])))
            (rmap_list (known_amount B dmeta) vs))"

definition tx_href :: "string \<Rightarrow> string \<Rightarrow> string" where
  "tx_href pathname hash = getNewPathByRollapp pathname (''/'' @ Path_text TRANSACTION @ ''/'' @ hash)"

definition tx_row ::
    "'b big_ops \<Rightarrow> date_ops \<Rightarrow> string \<Rightarrow> denomsMetadata \<Rightarrow> bool \<Rightarrow> bool \<Rightarrow> (string \<Rightarrow> string) \<Rightarrow> TransactionFields \<Rightarrow>
     view list result" where
  "tx_row B D pathname dmeta includeValue showDateTime ages t =
     rmap (\<lambda>value.
       [Link (tx_href pathname (tf_hash t)) [ShortTxHash (tf_hash t)],
        getMessageLabel (tf_message_types t) (tf_action t) (tf_tx_type t)] @
       (if includeValue then [value] else []) @
       [LinkToBlockNo pathname (Text (show_int (tf_height t))),
        DateWithTooltip D showDateTime (tf_epoch t) (ages (tf_hash t))])
       (if includeValue then value_cell B dmeta (tf_value t) else Inr Nothing)"

definition tx_headers :: "bool \<Rightarrow> bool \<Rightarrow> view list" where
  "tx_headers includeValue showDateTime =
     [Text (TxTableHeader_text H_TRANSACTION_HASH), Text (TxTableHeader_text H_MESSAGES)] @
     (if includeValue then [Text (TxTableHeader_text H_VALUE)] else []) @
     [Text (TxTableHeader_text H_BLOCK),
      Tag ''MuiLink'' [] [Text (TxTableHeader_text (if showDateTime then H_DATE_TIME else H_Age))]]"

section \<open>The table\<close>

record txListProps =
  tl_transactions :: "TransactionFields list"
  tl_totalTransactions :: nat
  tl_pageSize :: jsnum
  tl_page :: jsnum
  tl_enablePagination :: bool
  tl_loading :: bool
  tl_includeValue :: bool
  tl_autoRefresh :: bool
  tl_showPaginationOnTop :: bool

definition default_list :: "TransactionFields list \<Rightarrow> txListProps" where
  "default_list transactions =
     \<lparr>tl_transactions = transactions, tl_totalTransactions = 0,
      tl_pageSize = Num (int DEFAULT_PAGINATION_SIZE), tl_page = Num 0, tl_enablePagination = True,
      tl_loading = False, tl_includeValue = False, tl_autoRefresh = False,
      tl_showPaginationOnTop = True\<rparr>"

text \<open>
  The state of the component: loading after a click until the transactions change, and the format of
  the times. Pushed locations are the output.
\<close>

record txListState =
  ts_loading :: bool
  ts_showDateTime :: bool

datatype tx_event = PageClicked nat | SizeChosen string | TransactionsChanged | DateClicked

fun tx_step :: "string \<Rightarrow> searchParams \<Rightarrow> tx_event \<Rightarrow> txListState \<Rightarrow> txListState \<times> (string \<times> searchParams) option" where
  "tx_step pathname ps (PageClicked n) S = (S\<lparr>ts_loading := True\<rparr>, Some (push_page pathname ps n))"
| "tx_step pathname ps (SizeChosen s) S = (S\<lparr>ts_loading := True\<rparr>, Some (push_page_size pathname ps s))"
| "tx_step pathname ps TransactionsChanged S = (S\<lparr>ts_loading := False\<rparr>, None)"
| "tx_step pathname ps DateClicked S = (S\<lparr>ts_showDateTime := \<not> ts_showDateTime S\<rparr>, None)"

definition TransactionListTable ::
    "'b big_ops \<Rightarrow> date_ops \<Rightarrow> string \<Rightarrow> denomsMetadata \<Rightarrow> bool \<Rightarrow> txListState \<Rightarrow> (string \<Rightarrow> string) \<Rightarrow> txListProps \<Rightarrow>
     tableProps result" where
  "TransactionListTable B D pathname dmeta denomsMetadataLoading S ages P =
     rmap (\<lambda>body.
       (basic_table (tx_headers (tl_includeValue P) (ts_showDateTime S)) body (map tf_hash (tl_transactions P))
          (Some (int (tl_totalTransactions P))) (tl_page P) (tl_pageSize P)
          (tl_loading P \<or> ts_loading S \<or> (tl_includeValue P \<and> denomsMetadataLoading)))
       \<lparr>tp_enablePagination := tl_enablePagination P, tp_showPaginationOnTop := tl_showPaginationOnTop P,
        tp_noDataTitle := ''No transaction''\<rparr>)
       (rmap_list (tx_row B D pathname dmeta (tl_includeValue P) (ts_showDateTime S) ages)
          (tl_transactions P))"

section \<open>The transactions of a block\<close>

definition block_tx :: "block \<Rightarrow> transactionInBlock \<Rightarrow> TransactionFields" where
  "block_tx b t =
     \<lparr>tf_height = bl_height b, tf_hash = tib_hash t, tf_epoch = bl_timeEpochUTC b, tf_tx_type = tib_type t,
      tf_message_types = tib_messages t,
      tf_action = (case tib_evmTx t of
         Some e \<Rightarrow> if etb_action e \<noteq> [] then Some (etb_action e) else None | None \<Rightarrow> None),
      tf_value = None\<rparr>"

definition TransactionListByBlockNo :: "block option \<Rightarrow> bool \<Rightarrow> searchParams \<Rightarrow> bool \<Rightarrow> txListProps" where
  "TransactionListByBlockNo block loading searchParams showPaginationOnTop =
     (let (pageSize, page) = page_of_params searchParams
            (Some (case block of Some b \<Rightarrow> length (bl_txs b) | None \<Rightarrow> 0))
      in (default_list (case block of
              None \<Rightarrow> []
            | Some b \<Rightarrow> map (block_tx b)
                (js_slice (num_mul page pageSize) (num_mul (num_add page (Num 1)) pageSize) (bl_txs b))))
         \<lparr>tl_totalTransactions := (case block of Some b \<Rightarrow> length (bl_txs b) | None \<Rightarrow> 0),
          tl_pageSize := pageSize, tl_page := page, tl_loading := loading,
          tl_showPaginationOnTop := showPaginationOnTop\<rparr>)"

section \<open>The pages on the server\<close>

text \<open>A whole number that is not negative, as the database takes it.\<close>

definition num_nat :: "jsnum \<Rightarrow> nat" where
  "num_nat n = (case n of Num i \<Rightarrow> nat i | _ \<Rightarrow> 0)"

datatype txs_shown =
    TxList txListProps
  | TxsOfBlock jsnum

text \<open>
  \<open>Transactions\<close> of \<open>txs/page.tsx\<close>: for a block number (a parameter that is a number other than 0)
  the list of the block, otherwise the page of the database, with the subtitle's block.
\<close>

definition txs_page ::
    "(query \<Rightarrow> nat result) \<Rightarrow> (query \<Rightarrow> TransactionFields list result) \<Rightarrow> ChainInfo \<Rightarrow> searchParams \<Rightarrow> txs_shown result"
    where
  "txs_page run_count run_find rollappInfo searchParams =
     (let n = getNumberFromStringParam (params_get searchParams ''block'') in
      if truthy_num n then Inr (TxsOfBlock n)
      else
        rbind (run_count (countTransactions (chain_id rollappInfo))) (\<lambda>totalRows.
          (let (pageSize, page) = page_of_params searchParams (Some totalRows) in
           rmap (\<lambda>transactions. TxList ((default_list transactions)
                \<lparr>tl_totalTransactions := totalRows, tl_pageSize := pageSize, tl_page := page,
                 tl_includeValue := True\<rparr>))
             (run_find (getTransactions (chain_id rollappInfo)
                \<lparr>skip = Some (num_nat (getOffsetFromPageAndPageSize page pageSize)),
                 take_n = Some (num_nat pageSize)\<rparr>)))))"

definition txs_subtitle :: "string \<Rightarrow> txs_shown \<Rightarrow> view" where
  "txs_subtitle pathname page =
     (case page of
        TxList P \<Rightarrow> Nothing
      | TxsOfBlock n \<Rightarrow> Frag [Text ''For Block '', LinkToBlockNo pathname (num_view n)])"

definition DEFAULT_TX_OVERVIEW_SIZE :: nat where
  [cfg_defs]: "DEFAULT_TX_OVERVIEW_SIZE = 10"

text \<open>\<open>Overview\<close> of \<open>[rollappPath]/page.tsx\<close>: the list it shows and the links to the two full lists.\<close>

definition overview_page ::
    "(query \<Rightarrow> TransactionFields list result) \<Rightarrow> RollappInfo option \<Rightarrow> (view \<times> txListProps \<times> string list) option result"
    where
  "overview_page run_find rollappInfo =
     (case rollappInfo of
        None \<Rightarrow> Inr None
      | Some r \<Rightarrow>
          rmap (\<lambda>transactions. Some
             (PageTitle (Text (toUpperCase (name r))) (Text (chain_id r)),
              (default_list transactions)\<lparr>tl_includeValue := True, tl_enablePagination := False, tl_autoRefresh := True\<rparr>,
              [path r @ Path_text BLOCKS, path r @ Path_text TRANSACTIONS]))
            (run_find (getTransactions (chain_id r) \<lparr>skip = None, take_n = Some DEFAULT_TX_OVERVIEW_SIZE\<rparr>)))"

section \<open>Facts\<close>

text \<open>What the application relies on of the database: the number of rows and their pages in one order.\<close>

definition pages_through ::
    "(query \<Rightarrow> nat result) \<Rightarrow> (query \<Rightarrow> 'a list result) \<Rightarrow> query \<Rightarrow> (pagination \<Rightarrow> query) \<Rightarrow> 'a list \<Rightarrow> bool" where
  "pages_through run_count run_find q_count q_find rows \<longleftrightarrow>
     run_count q_count = Inr (length rows) \<and>
     (\<forall>s t. run_find (q_find \<lparr>skip = Some s, take_n = Some t\<rparr>) = Inr (take t (drop s rows)))"

lemma take_drop_slice: "take s (drop (n * s) xs) = slice (n * s) (Suc n * s) xs"
  by (simp add: slice_def take_drop add.commute)

lemma page_size_params:
  "\<exists>s. 1 \<le> s \<and> s \<le> MAX_PAGINATION_SIZE \<and> (\<forall>ps. params_get ps PAGE_SIZE_PARAM_NAME = v \<longrightarrow>
     fst (page_of_params ps c) = Num (int s))"
  using valid_page_size [of v] by (auto simp: page_of_params_def getPageAndPageSizeFromStringParam_def Let_def)

lemma page_offset:
  assumes "q * s < 2 ^ 53"
  shows "num_nat (getOffsetFromPageAndPageSize (Num (int q)) (Num (int s))) = q * s"
proof -
  have "\<bar>int q * int s\<bar> < 2 ^ 53"
    using assms by (metis abs_of_nat of_nat_less_iff of_nat_mult of_nat_numeral of_nat_power)
  then have "num_mul (Num (int q)) (Num (int s)) = Num (int q * int s)" by simp
  then show ?thesis
    by (simp only: getOffsetFromPageAndPageSize_def num_nat_def isNaN.simps num_less.simps jsnum.case)
      (simp add: nat_mult_distrib)
qed

lemma page_count:
  fixes s :: nat
  assumes "1 \<le> s"
  shows "n < (len + s - 1) div s \<Longrightarrow> n * s < len" and "len \<le> (len + s - 1) div s * s"
proof -
  let ?k = "(len + s - 1) div s"
  have "?k * s + (len + s - 1) mod s = len + s - 1" by (rule div_mult_mod_eq)
  moreover have "(len + s - 1) mod s < s" using assms by simp
  ultimately show "len \<le> ?k * s" by linarith
  assume "n < ?k"
  then have "Suc n * s \<le> ?k * s" by (intro mult_le_mono1) simp
  also have "\<dots> \<le> len + s - 1" by (rule div_times_less_eq_dividend)
  finally show "n * s < len" using assms by simp
qed

text \<open>A page that is clicked, as the parameters that are read from it.\<close>

lemma clicked_page:
  assumes "len < 2 ^ 52"
  shows "\<exists>s k. 1 \<le> s \<and> len \<le> k * s \<and> (\<forall>n<k. n * s < len \<and>
    page_of_params (snd (push_page pathname ps n)) (Some len) = (Num (int s), Num (int n)))"
proof -
  obtain s where s: "1 \<le> s" "fst (page_of_params ps (Some len)) = Num (int s)"
    using page_size_params [of "params_get ps PAGE_SIZE_PARAM_NAME" "Some len"] by blast
  then have "page_of_params ps (Some len) = (Num (int s), snd (page_of_params ps (Some len)))"
    by (metis prod.collapse)
  note click = page_click_eq [OF assms this]
  show ?thesis
    using s(1) page_count [OF s(1), where len = len] click
    by (intro exI [of _ s] exI [of _ "(len + s - 1) div s"]) blast
qed

text \<open>Clicks whose pages put together are all rows, for any list that is paged by its parameters.\<close>

lemma pages_cover:
  assumes len: "length rows < 2 ^ 52"
    and page: "\<And>n s. n * s < 2 ^ 53 \<Longrightarrow>
      page_of_params (snd (push_page pathname ps n)) (Some (length rows)) = (Num (int s), Num (int n)) \<Longrightarrow>
      \<exists>P. shown n P \<and> rows_of P = slice (n * s) (Suc n * s) rows"
  shows "\<exists>k P. (\<forall>n<k. shown n (P n)) \<and> concat (map (\<lambda>n. rows_of (P n)) [0..<k]) = rows"
proof -
  obtain s k where sk: "length rows \<le> k * s" and click: "\<And>n. n < k \<Longrightarrow> n * s < length rows \<and>
      page_of_params (snd (push_page pathname ps n)) (Some (length rows)) = (Num (int s), Num (int n))"
    using clicked_page [OF len] by blast
  have "\<exists>P. shown n P \<and> rows_of P = slice (n * s) (Suc n * s) rows" if "n < k" for n
    by (rule page) (use click [OF that] len in simp_all)
  then obtain P where P: "\<And>n. n < k \<Longrightarrow> shown n (P n) \<and> rows_of (P n) = slice (n * s) (Suc n * s) rows" by metis
  then have "concat (map (\<lambda>n. rows_of (P n)) [0..<k]) = concat (map (\<lambda>n. slice (n * s) (Suc n * s) rows) [0..<k])"
    by (intro arg_cong [where f = concat] map_cong) auto
  also have "\<dots> = rows" using sk by (simp only: concat_slices take_all)
  finally show ?thesis using P by blast
qed

lemma txs_page_list:
  assumes db: "pages_through run_count run_find (countTransactions (chain_id info)) (getTransactions (chain_id info)) rows"
    and page: "page_of_params ps (Some (length rows)) = (Num (int s), Num (int n))" "n * s < 2 ^ 53"
    and no_block: "\<not> truthy_num (getNumberFromStringParam (params_get ps ''block''))"
  shows "\<exists>P. txs_page run_count run_find info ps = Inr (TxList P) \<and>
    tl_transactions P = slice (n * s) (Suc n * s) rows \<and> tl_page P = Num (int n) \<and>
    tl_totalTransactions P = length rows"
  using db no_block page
  by (simp add: txs_page_def pages_through_def page_offset num_nat_def [of "Num (int s)"] take_drop_slice default_list_def)

lemma links_message_chips: "view_links (message_chips ts) = []"
  by (simp add: message_chips_def Let_def Chip_def case_prod_unfold)

lemma links_message_label: "view_links (getMessageLabel ts action ty) = []"
  by (simp add: getMessageLabel_def Let_def links_message_chips Chip_def split: option.splits list.splits)

section \<open>Properties\<close>


definition sample_rows :: "TransactionFields list" where
  "sample_rows = replicate 42 \<lparr>tf_height = 7, tf_hash = ''AB12'', tf_epoch = 0, tf_tx_type = ''evm'',
     tf_message_types = [], tf_action = None, tf_value = None\<rparr>"

definition sample_find :: "query \<Rightarrow> TransactionFields list result" where
  "sample_find q = Inr (take (the (take_n (q_page q))) (drop (the (skip (q_page q))) sample_rows))"


text \<open>
  Every link of a row stays in the rollapp of the page: the hash leads to the transaction and the
  height to the block, the first with a doubled slash after the rollapp's path.
\<close>

theorem tx_row_links:
  assumes "list_all not_slash seg" and "seg \<noteq> []" and "rest = [] \<or> startsWith rest ''/''"
    and "tx_row B D (''/'' @ seg @ rest) metadata includeValue showDateTime ages t = Inr cells"
  shows "view_links (Frag cells) =
      [''/'' @ seg @ ''//tx/'' @ tf_hash t, ''/'' @ seg @ ''/block/'' @ show_int (tf_height t)] \<and>
    (\<forall>l\<in>set (view_links (Frag cells)). getRollappPathFromPathname l = Inr (''/'' @ seg))"
proof -
  obtain v where v: "cells = [Link (tx_href (''/'' @ seg @ rest) (tf_hash t)) [ShortTxHash (tf_hash t)],
        getMessageLabel (tf_message_types t) (tf_action t) (tf_tx_type t)] @ (if includeValue then [v] else []) @
       [LinkToBlockNo (''/'' @ seg @ rest) (Text (show_int (tf_height t))),
        DateWithTooltip D showDateTime (tf_epoch t) (ages (tf_hash t))]"
      and cell: "includeValue \<Longrightarrow> value_cell B metadata (tf_value t) = Inr v"
    using assms(4) by (auto simp: tx_row_def result_simps split: if_splits)
  have "view_links v = []" if includeValue
    using cell [OF that] by (auto simp: value_cell_def result_simps Typography_def split: option.splits list.splits)
  then have links: "view_links (Frag cells) =
      [''/'' @ seg @ ''//tx/'' @ tf_hash t, ''/'' @ seg @ ''/block/'' @ show_int (tf_height t)]"
    by (simp add: v links_message_label tx_href_def new_path_eq [OF assms(1-3), simplified] view_simps)
  show ?thesis
    unfolding links using rollapp_path_append [OF assms(1)] by simp
qed

lemma tx_row_links_witness:
  "\<exists>cells. tx_row dec_ops \<lparr>dayjs_format_utc = (\<lambda>_ _. []), dayjs_to = (\<lambda>_. [])\<rparr> (''/'' @ ''nim'' @ ''/txs'') [] False True
      (\<lambda>_. []) (hd sample_rows) = Inr cells \<and>
    view_links (Frag cells) = [''/nim//tx/AB12'', ''/nim/block/'' @ show_int 7]"
proof -
  let ?row = "tx_row dec_ops \<lparr>dayjs_format_utc = (\<lambda>_ _. []), dayjs_to = (\<lambda>_. [])\<rparr> (''/'' @ ''nim'' @ ''/txs'') [] False True
      (\<lambda>_. []) (hd sample_rows)"
  obtain cells where cells: "?row = Inr cells" by (simp add: tx_row_def)
  have "list_all not_slash ''nim''" by (simp add: not_slash_def)
  from tx_row_links [OF this _ _ cells, THEN conjunct1] show ?thesis
    using cells by (simp add: sample_rows_def)
qed

end
