(* ===== verification/Polling.thy ===== *)
theory Polling
  imports View FetchHook
begin

text \<open>
  The two hooks that may poll: \<open>web-app/src/hooks/useLatestBlock.ts\<close> and \<open>useRecentBlocks.ts\<close>. With
  \<open>autoRefresh\<close> an interval starts a fetch at each tick, otherwise the effect starts one. All the
  fetches of one effect share its variable \<open>ac\<close>, and a fetch may await several answers one after the
  other, its stages.
\<close>

section \<open>The machine\<close>

text \<open>
  \<open>pc_advance\<close> is what the function does with the answer it awaits: it goes on to a next stage, or
  it ends by writing data, throwing, or doing nothing. \<open>pc_begins_loading\<close> tells whether it sets
  \<open>loading\<close> when it starts, \<open>pc_always_ends\<close> whether every end clears it or only a write.
\<close>

datatype 'v poll_end = Write 'v | Throw string | Ignore

record ('k, 's, 'ans, 'v) poll_cfg =
  pc_start :: 's
  pc_begins_loading :: bool
  pc_always_ends :: bool
  pc_advance :: "'k \<Rightarrow> 's \<Rightarrow> 'ans result \<Rightarrow> 's + 'v poll_end"

record ('k, 's) poll_run =
  pr_key :: 'k
  pr_stage :: 's
  pr_epoch :: nat
  pr_aborted :: bool
  pr_done :: bool

record ('k, 's, 'v) poll =
  pl_loading :: bool
  pl_data :: 'v
  pl_thrown :: "string option"
  pl_runs :: "('k, 's) poll_run list"
  pl_ac :: "nat option"
  pl_epoch :: nat
  pl_key :: "('k \<times> bool) option"

datatype ('k, 'ans) poll_event =
    PChange 'k bool
  | PTick
  | PSettle nat "'ans result"
  | PUnmount

definition poll_init :: "'v \<Rightarrow> ('k, 's, 'v) poll" where
  "poll_init v = \<lparr>pl_loading = True, pl_data = v, pl_thrown = None, pl_runs = [], pl_ac = None,
     pl_epoch = 0, pl_key = None\<rparr>"

definition poll_cleanup :: "('k, 's, 'v) poll \<Rightarrow> ('k, 's, 'v) poll" where
  "poll_cleanup S =
     (case pl_ac S of
        None \<Rightarrow> S\<lparr>pl_key := None\<rparr>
      | Some i \<Rightarrow> S\<lparr>pl_runs := (pl_runs S)[i := (pl_runs S ! i)\<lparr>pr_aborted := True\<rparr>], pl_ac := None, pl_key := None\<rparr>)"

definition poll_fetch :: "('k, 's, 'ans, 'v) poll_cfg \<Rightarrow> 'k \<Rightarrow> ('k, 's, 'v) poll \<Rightarrow> ('k, 's, 'v) poll" where
  "poll_fetch C k S =
     S\<lparr>pl_loading := pc_begins_loading C \<or> pl_loading S,
       pl_runs := pl_runs S @ [\<lparr>pr_key = k, pr_stage = pc_start C, pr_epoch = pl_epoch S, pr_aborted = False,
                                pr_done = False\<rparr>],
       pl_ac := Some (length (pl_runs S))\<rparr>"

text \<open>The variable \<open>ac\<close> of an effect that is over is not the one of the present effect.\<close>

definition own_ac :: "('k, 's, 'v) poll \<Rightarrow> nat \<Rightarrow> nat option \<Rightarrow> nat option" where
  "own_ac S i ac = (if pr_epoch (pl_runs S ! i) = pl_epoch S \<and> pl_key S \<noteq> None then ac else pl_ac S)"

definition poll_settle ::
    "('k, 's, 'ans, 'v) poll_cfg \<Rightarrow> nat \<Rightarrow> 'ans result \<Rightarrow> ('k, 's, 'v) poll \<Rightarrow> ('k, 's, 'v) poll" where
  "poll_settle C i answer S =
     (if length (pl_runs S) \<le> i \<or> pr_done (pl_runs S ! i) then S
      else
        (let r = pl_runs S ! i;
             answer' = (if pr_aborted r then Inl AbortError else answer)
         in case pc_advance C (pr_key r) (pr_stage r) answer' of
              Inl stage \<Rightarrow>
                S\<lparr>pl_runs := (pl_runs S)[i := r\<lparr>pr_stage := stage, pr_aborted := False\<rparr>], pl_ac := own_ac S i (Some i)\<rparr>
            | Inr ending \<Rightarrow>
                (let S' = S\<lparr>pl_runs := (pl_runs S)[i := r\<lparr>pr_done := True\<rparr>], pl_ac := own_ac S i None,
                            pl_loading := pl_loading S \<and> \<not> pc_always_ends C\<rparr>
                 in case ending of
                      Write v \<Rightarrow> S'\<lparr>pl_data := v, pl_loading := False\<rparr>
                    | Throw msg \<Rightarrow> S'\<lparr>pl_thrown := Some msg\<rparr>
                    | Ignore \<Rightarrow> S')))"

fun poll_step :: "('k, 's, 'ans, 'v) poll_cfg \<Rightarrow> ('k, 'ans) poll_event \<Rightarrow> ('k, 's, 'v) poll \<Rightarrow> ('k, 's, 'v) poll" where
  "poll_step C (PChange k autoRefresh) S =
     (let S' = (poll_cleanup S)\<lparr>pl_epoch := pl_epoch S + 1, pl_key := Some (k, autoRefresh)\<rparr>
      in if autoRefresh then S' else poll_fetch C k S')"
| "poll_step C PTick S =
     (case pl_key S of Some (k, True) \<Rightarrow> poll_fetch C k S | _ \<Rightarrow> S)"
| "poll_step C (PSettle i answer) S = poll_settle C i answer S"
| "poll_step C PUnmount S = poll_cleanup S"

definition poll_steps :: "('k, 's, 'ans, 'v) poll_cfg \<Rightarrow> ('k, 'ans) poll_event list \<Rightarrow> ('k, 's, 'v) poll \<Rightarrow> ('k, 's, 'v) poll" where
  "poll_steps C es S = foldl (\<lambda>S e. poll_step C e S) S es"

section \<open>The latest block\<close>

text \<open>
  The key holds what the function closes over: the service, whether errors are thrown, and
  \<open>latest_indexed_block\<close> of the selected rollapp, if one is selected.
\<close>

record latest_key =
  lk_rpcService :: RpcService
  lk_shouldThrowError :: bool
  lk_latest_indexed_block :: "int option"

definition latest_advance ::
    "latest_key \<Rightarrow> unit \<Rightarrow> latestBlockNumber rpcResponse result \<Rightarrow> unit + jsnum poll_end" where
  "latest_advance k _ answer =
     (case rbind (data_of answer) (of_opt TypeError) of
        Inr r \<Rightarrow> Inr (Write (Num (lb_latestBlock r)))
      | Inl AbortError \<Rightarrow> Inr Ignore
      | Inl _ \<Rightarrow>
          if lk_shouldThrowError k then Inr (Throw ''Failed to fetch Latest Block'')
          else (case lk_latest_indexed_block k of
                  Some b \<Rightarrow> Inr (Write (num_of b))
                | None \<Rightarrow> Inr Ignore))"

definition useLatestBlock :: "(latest_key, unit, latestBlockNumber rpcResponse, jsnum) poll_cfg" where
  "useLatestBlock = \<lparr>pc_start = (), pc_begins_loading = False, pc_always_ends = True, pc_advance = latest_advance\<rparr>"

section \<open>The recent blocks\<close>

record RecentBlocksHookResult =
  rbh_blocks :: "recentBlock list"
  rbh_latestBlock :: int

record recent_key =
  rk_rpcService :: RpcService
  rk_page :: jsnum
  rk_pageSize :: jsnum
  rk_useFallback :: bool

datatype recent_stage = AskRecent | AskLatest | AskBlocks int "jsnum list"

datatype recent_answer =
    RecentAnswer "recentBlocks rpcResponse"
  | LatestAnswer "latestBlockNumber rpcResponse"
  | BlocksAnswer "block rpcResponse list"

definition num_neg :: "jsnum \<Rightarrow> jsnum" where
  "num_neg a = (case a of NaN \<Rightarrow> NaN | PosInf \<Rightarrow> NegInf | NegInf \<Rightarrow> PosInf | Num i \<Rightarrow> Num (- i))"

definition num_sub :: "jsnum \<Rightarrow> jsnum \<Rightarrow> jsnum" where
  "num_sub a b = num_add a (num_neg b)"

text \<open>The heights of a page, from its top block down; a negative count is a \<open>RangeError\<close>.\<close>

definition fallback_heights :: "jsnum \<Rightarrow> jsnum \<Rightarrow> int \<Rightarrow> jsnum list result" where
  "fallback_heights page pageSize latestBlock =
     (let topBlockNoInPage = num_sub (num_of latestBlock) (num_mul page pageSize) in
      rmap (\<lambda>n. map (\<lambda>idx. num_sub topBlockNoInPage (Num (int idx))) [0..<n])
        (array_length (num_min topBlockNoInPage pageSize)))"

definition recent_of_block :: "block \<Rightarrow> recentBlock" where
  "recent_of_block b =
     \<lparr>rb_hash = bl_hash b, rb_height = bl_height b, rb_timeEpochUTC = bl_timeEpochUTC b,
      rb_txsCount = int (length (bl_txs b)), rb_proposer = bl_proposer b\<rparr>"

text \<open>The request a stage awaits.\<close>

definition recent_request :: "recent_key \<Rightarrow> recent_stage \<Rightarrow> request" where
  "recent_request k stage =
     (case stage of
        AskRecent \<Rightarrow> rpc_getRecentBlocks (rk_rpcService k) (num_add (rk_page k) (Num 1)) (rk_pageSize k) None
      | AskLatest \<Rightarrow> rpc_getLatestBlockNumber (rk_rpcService k) None
      | AskBlocks _ heights \<Rightarrow> rpc_getBlockByNumber (rk_rpcService k) (Many heights) None)"

text \<open>
  What the stage takes out of its answer; an answer to another stage does not occur. Reading a
  property of a missing result throws.
\<close>

definition recent_data :: "recent_answer result \<Rightarrow> recentBlocks result" where
  "recent_data answer =
     rbind answer (\<lambda>a. case a of RecentAnswer r \<Rightarrow> rbind (data_of (Inr r)) (of_opt TypeError) | _ \<Rightarrow> Inl TypeError)"

definition latest_data :: "recent_answer result \<Rightarrow> int result" where
  "latest_data answer =
     rbind answer (\<lambda>a. case a of
         LatestAnswer r \<Rightarrow> rmap lb_latestBlock (rbind (data_of (Inr r)) (of_opt TypeError)) | _ \<Rightarrow> Inl TypeError)"

definition blocks_data :: "recent_answer result \<Rightarrow> recentBlock list result" where
  "blocks_data answer =
     rbind answer (\<lambda>a. case a of
         BlocksAnswer rs \<Rightarrow> rbind (getResponseResults (Inr rs) True)
           (\<lambda>bs. rmap_list (\<lambda>b. case b of Result b \<Rightarrow> Inr (recent_of_block b) | _ \<Rightarrow> Inl TypeError) (rev bs))
       | _ \<Rightarrow> Inl TypeError)"

definition blocks_failed :: "js_error \<Rightarrow> recent_stage + RecentBlocksHookResult option poll_end" where
  "blocks_failed e = Inr (if e = AbortError then Ignore else Throw ''Failed to fetch Blocks'')"

fun recent_advance ::
    "recent_key \<Rightarrow> recent_stage \<Rightarrow> recent_answer result \<Rightarrow> recent_stage + RecentBlocksHookResult option poll_end" where
  "recent_advance k AskRecent answer =
     (case recent_data answer of
        Inr r \<Rightarrow> Inr (Write (Some \<lparr>rbh_blocks = rev (rbs_blocks r), rbh_latestBlock = rbs_latestBlock r\<rparr>))
      | Inl e \<Rightarrow>
          if e = AbortError then Inr Ignore
          else if \<not> rk_useFallback k then Inr (Throw ''Failed to fetch Recent Blocks'')
          else Inl AskLatest)"
| "recent_advance k AskLatest answer =
     (case rbind (latest_data answer) (\<lambda>l. rmap (Pair l) (fallback_heights (rk_page k) (rk_pageSize k) l)) of
        Inr (l, heights) \<Rightarrow> Inl (AskBlocks l heights)
      | Inl e \<Rightarrow> blocks_failed e)"
| "recent_advance k (AskBlocks l heights) answer =
     (case blocks_data answer of
        Inr bs \<Rightarrow> Inr (Write (Some \<lparr>rbh_blocks = bs, rbh_latestBlock = l\<rparr>))
      | Inl e \<Rightarrow> blocks_failed e)"

definition useRecentBlocks ::
    "(recent_key, recent_stage, recent_answer, RecentBlocksHookResult option) poll_cfg" where
  "useRecentBlocks = \<lparr>pc_start = AskRecent, pc_begins_loading = True, pc_always_ends = False,
     pc_advance = recent_advance\<rparr>"

section \<open>Facts\<close>

lemma num_sub_safe: "\<bar>a - b\<bar> < 2 ^ 53 \<Longrightarrow> num_sub (Num a) (Num b) = Num (a - b)"
  by (simp add: num_sub_def num_neg_def)

lemma fallback_heights_eq:
  assumes "L < 2 ^ 52" and "p * s < 2 ^ 52" and "s < 2 ^ 32"
  shows "fallback_heights (Num (int p)) (Num (int s)) (int L) =
    (if p * s \<le> L then Inr (map (\<lambda>i. Num (int (L - p * s - i))) [0..<min (L - p * s) s]) else Inl invalid_length)"
proof -
  let ?top = "int L - int p * int s"
  have L: "int L < 2 ^ 52" using assms(1) by (metis of_nat_less_iff of_nat_numeral of_nat_power)
  have ps: "0 \<le> int p * int s" "int p * int s < 2 ^ 52"
    using assms(2) by (simp, metis of_nat_less_iff of_nat_mult of_nat_numeral of_nat_power)
  have s: "int s < 2 ^ 32" using assms(3) by (metis of_nat_less_iff of_nat_numeral of_nat_power)
  have "num_mul (Num (int p)) (Num (int s)) = Num (int p * int s)" using ps by simp
  moreover have "num_of (int L) = Num (int L)" using L by simp
  moreover have "num_sub (Num (int L)) (Num (int p * int s)) = Num ?top"
  proof (rule num_sub_safe)
    have "?top \<le> int L" "- (2 ^ 52) < ?top" using L ps by linarith+
    with L have "?top < 2 ^ 52" "- (2 ^ 52) < ?top" by linarith+
    then show "\<bar>?top\<bar> < 2 ^ 53" by simp
  qed
  ultimately have top: "num_sub (num_of (int L)) (num_mul (Num (int p)) (Num (int s))) = Num ?top" by simp
  have min: "num_min (Num ?top) (Num (int s)) = Num (min ?top (int s))" by (simp add: num_min_def)
  show ?thesis
  proof (cases "p * s \<le> L")
    case True
    then have t: "?top = int (L - p * s)" by (simp add: of_nat_diff)
    have n: "array_length (Num (min ?top (int s))) = Inr (min (L - p * s) s)"
      using s unfolding t by (simp add: array_length_def min_def)
    have "num_sub (Num ?top) (Num (int i)) = Num (int (L - p * s - i))" if "i < min (L - p * s) s" for i
    proof -
      have "i \<le> L - p * s" using that by simp
      then have d: "int (L - p * s) - int i = int (L - p * s - i)" by (rule of_nat_diff [symmetric])
      have "int (L - p * s - i) \<le> int L" by simp
      then have "\<bar>int (L - p * s) - int i\<bar> < 2 ^ 53" using L unfolding d by simp
      from num_sub_safe [OF this] show ?thesis unfolding t d .
    qed
    then have "map (\<lambda>i. num_sub (Num ?top) (Num (int i))) [0..<min (L - p * s) s] =
        map (\<lambda>i. Num (int (L - p * s - i))) [0..<min (L - p * s) s]"
      by (intro map_cong refl) simp
    then show ?thesis
      unfolding fallback_heights_def Let_def top min n by (simp only: True if_True rmap_simps)
  next
    case False
    then have "int L < int p * int s" by (metis not_le of_nat_less_iff of_nat_mult)
    then show ?thesis
      unfolding fallback_heights_def Let_def top min using False by (simp add: array_length_def min_def)
  qed
qed

lemma heights_slice:
  "map (\<lambda>i. Num (int (L - p * s - i))) [0..<min (L - p * s) s] =
   slice (p * s) (Suc p * s) (map (\<lambda>h. Num (int h)) (rev [1..<Suc L]))"
proof -
  have "map (\<lambda>h. Num (int h)) (rev [1..<Suc L]) = map (\<lambda>j. Num (int (L - j))) [0..<L]"
    by (rule nth_equalityI) (simp_all add: rev_nth del: upt_Suc)
  moreover have "slice (p * s) (Suc p * s) [0..<L] = [p * s..<min (Suc p * s) L]"
    by (cases "Suc p * s \<le> L") (simp_all add: slice_def take_upt)
  ultimately have "slice (p * s) (Suc p * s) (map (\<lambda>h. Num (int h)) (rev [1..<Suc L])) =
      map (\<lambda>j. Num (int (L - j))) [p * s..<min (Suc p * s) L]"
    by (simp only: map_slice [symmetric])
  also have "\<dots> = map (\<lambda>i. Num (int (L - p * s - i))) [0..<min (L - p * s) s]"
  proof (cases "p * s \<le> L")
    case True
    then have "min (Suc p * s) L = min (L - p * s) s + p * s" unfolding mult_Suc min_def by auto
    then have "[p * s..<min (Suc p * s) L] = map (\<lambda>i. i + p * s) [0..<min (L - p * s) s]"
      by (simp only: map_add_upt)
    then show ?thesis by (simp add: comp_def add.commute)
  qed simp
  finally show ?thesis ..
qed

text \<open>While nothing refreshes, only the run whose controller the present effect holds is live.\<close>

definition poll_live :: "('k, 's, 'v) poll \<Rightarrow> nat \<Rightarrow> bool" where
  "poll_live S i \<longleftrightarrow> i < length (pl_runs S) \<and> \<not> pr_done (pl_runs S ! i) \<and> \<not> pr_aborted (pl_runs S ! i)"

definition poll_inv :: "('k, 's, 'v) poll \<Rightarrow> bool" where
  "poll_inv S \<longleftrightarrow> (\<forall>i. poll_live S i \<longrightarrow> pl_ac S = Some i) \<and>
     (\<forall>i. pl_ac S = Some i \<longrightarrow> i < length (pl_runs S) \<and> pr_epoch (pl_runs S ! i) = pl_epoch S \<and>
       pl_key S = Some (pr_key (pl_runs S ! i), False)) \<and>
     (\<forall>i < length (pl_runs S). pr_epoch (pl_runs S ! i) \<le> pl_epoch S \<and>
       (pr_aborted (pl_runs S ! i) \<and> pr_epoch (pl_runs S ! i) = pl_epoch S \<longrightarrow> pl_key S = None)) \<and>
     (\<forall>k. pl_key S \<noteq> Some (k, True))"

lemma poll_invD:
  assumes "poll_inv S"
  shows "poll_live S i \<Longrightarrow> pl_ac S = Some i" and "pl_ac S = Some i \<Longrightarrow> i < length (pl_runs S)"
    and "pl_ac S = Some i \<Longrightarrow> pr_epoch (pl_runs S ! i) = pl_epoch S"
    and "pl_ac S = Some i \<Longrightarrow> pl_key S = Some (pr_key (pl_runs S ! i), False)"
    and "i < length (pl_runs S) \<Longrightarrow> pr_epoch (pl_runs S ! i) \<le> pl_epoch S"
    and "i < length (pl_runs S) \<Longrightarrow> pr_aborted (pl_runs S ! i) \<Longrightarrow> pr_epoch (pl_runs S ! i) = pl_epoch S \<Longrightarrow>
      pl_key S = None"
    and "pl_key S \<noteq> Some (k, True)"
  using assms unfolding poll_inv_def by blast+

lemma poll_inv_cleanup:
  assumes "poll_inv S"
  shows "pl_ac (poll_cleanup S) = None" and "\<not> poll_live (poll_cleanup S) i" and "pl_key (poll_cleanup S) = None"
    and "pl_epoch (poll_cleanup S) = pl_epoch S"
    and "i < length (pl_runs (poll_cleanup S)) \<Longrightarrow> pr_epoch (pl_runs (poll_cleanup S) ! i) \<le> pl_epoch S"
proof -
  show "pl_ac (poll_cleanup S) = None" "pl_key (poll_cleanup S) = None" "pl_epoch (poll_cleanup S) = pl_epoch S"
    by (simp_all add: poll_cleanup_def split: option.splits)
  show "\<not> poll_live (poll_cleanup S) i"
  proof (cases "pl_ac S")
    case None
    then have "\<not> poll_live S i" using poll_invD(1) [OF assms, of i] by auto
    with None show ?thesis by (simp add: poll_cleanup_def poll_live_def)
  next
    case (Some j)
    have "\<not> poll_live S i" if "i \<noteq> j" using poll_invD(1) [OF assms, of i] Some that by auto
    then show ?thesis using Some by (cases "i = j") (auto simp: poll_cleanup_def poll_live_def)
  qed
  show "pr_epoch (pl_runs (poll_cleanup S) ! i) \<le> pl_epoch S" if "i < length (pl_runs (poll_cleanup S))"
    using that poll_invD(5) [OF assms, of i]
    by (cases "pl_ac S"; cases "pl_ac S = Some i") (auto simp: poll_cleanup_def)
qed

lemma poll_inv_fetch:
  assumes "pl_ac S = None" and "\<And>i. \<not> poll_live S i" and "pl_key S = Some (k, False)"
    and "\<And>i. i < length (pl_runs S) \<Longrightarrow> pr_epoch (pl_runs S ! i) < pl_epoch S"
  shows "poll_inv (poll_fetch C k S)"
  using assms(1-3) less_imp_le [OF assms(4)] less_imp_neq [OF assms(4)]
  unfolding poll_inv_def poll_fetch_def poll_live_def by (auto simp: nth_append less_Suc_eq)

lemma settle_parts:
  assumes "i < length (pl_runs S)" and "\<not> pr_done (pl_runs S ! i)"
  shows "\<exists>r ac. pl_runs (poll_settle C i a S) = (pl_runs S)[i := r] \<and> pl_ac (poll_settle C i a S) = own_ac S i ac \<and>
    pl_epoch (poll_settle C i a S) = pl_epoch S \<and> pl_key (poll_settle C i a S) = pl_key S \<and>
    pr_epoch r = pr_epoch (pl_runs S ! i) \<and> pr_key r = pr_key (pl_runs S ! i) \<and>
    (pr_aborted (pl_runs S ! i) \<longrightarrow> pr_done r \<or>
       (\<exists>s. pc_advance C (pr_key (pl_runs S ! i)) (pr_stage (pl_runs S ! i)) (Inl AbortError) = Inl s)) \<and>
    (pr_aborted r \<longrightarrow> pr_aborted (pl_runs S ! i)) \<and> (ac = Some i \<or> ac = None \<and> pr_done r)"
proof (cases "pc_advance C (pr_key (pl_runs S ! i)) (pr_stage (pl_runs S ! i))
    (if pr_aborted (pl_runs S ! i) then Inl AbortError else a)")
  case (Inl stage)
  with assms show ?thesis
    by (intro exI [of _ "(pl_runs S ! i)\<lparr>pr_stage := stage, pr_aborted := False\<rparr>"] exI [of _ "Some i"])
      (auto simp: poll_settle_def Let_def)
next
  case (Inr ending)
  with assms show ?thesis
    by (intro exI [of _ "(pl_runs S ! i)\<lparr>pr_done := True\<rparr>"] exI [of _ None])
      (simp add: poll_settle_def Let_def split: poll_end.splits)
qed

section \<open>Without polling\<close>

text \<open>While no effect refreshes, what is written comes from a run of the present effect.\<close>

definition ignores_abort :: "('k, 's, 'ans, 'v) poll_cfg \<Rightarrow> bool" where
  "ignores_abort C \<longleftrightarrow> (\<forall>k s. pc_advance C k s (Inl AbortError) = Inr Ignore)"

lemma poll_inv_settle:
  assumes "poll_inv S" and "ignores_abort C"
  shows "poll_inv (poll_settle C i a S)"
proof (cases "i < length (pl_runs S) \<and> \<not> pr_done (pl_runs S ! i)")
  case False
  with assms show ?thesis by (auto simp: poll_settle_def)
next
  case True
  then obtain r ac where parts: "pl_runs (poll_settle C i a S) = (pl_runs S)[i := r]"
      "pl_ac (poll_settle C i a S) = own_ac S i ac" "pl_epoch (poll_settle C i a S) = pl_epoch S"
      "pl_key (poll_settle C i a S) = pl_key S" "pr_epoch r = pr_epoch (pl_runs S ! i)"
      "pr_key r = pr_key (pl_runs S ! i)" "pr_aborted (pl_runs S ! i) \<longrightarrow> pr_done r"
      "pr_aborted r \<longrightarrow> pr_aborted (pl_runs S ! i)" "ac = Some i \<or> ac = None \<and> pr_done r"
    using settle_parts [of i S C a] assms(2) unfolding ignores_abort_def by (metis sum.distinct(1))
  note inv = poll_invD [OF assms(1)]
  have live: "poll_live (poll_settle C i a S) j \<longleftrightarrow> (if j = i then \<not> pr_done r \<and> \<not> pr_aborted r else poll_live S j)" for j
    using True parts(1) by (auto simp: poll_live_def)
  have own: "own_ac S i ac = (if pr_aborted (pl_runs S ! i) then pl_ac S else ac)"
  proof (cases "pr_aborted (pl_runs S ! i)")
    case True
    then show ?thesis using inv(6) [of i] \<open>i < _ \<and> _\<close> by (auto simp: own_ac_def)
  next
    case False
    then have "pl_ac S = Some i" using True inv(1) by (simp add: poll_live_def)
    with False show ?thesis using inv(3,4) by (simp add: own_ac_def)
  qed
  have at: "pl_ac S = Some i" if "\<not> pr_aborted (pl_runs S ! i)" using that True inv(1) by (simp add: poll_live_def)
  have "pl_ac (poll_settle C i a S) = Some j" if "poll_live (poll_settle C i a S) j" for j
    using that live [of j] inv(1) [of j] parts(2,7,9) own at by (auto split: if_splits)
  moreover have "j < length (pl_runs S) \<and> pr_epoch ((pl_runs S)[i := r] ! j) = pl_epoch S \<and>
      pl_key S = Some (pr_key ((pl_runs S)[i := r] ! j), False)" if "own_ac S i ac = Some j" for j
    using that inv(2,3,4) [of j] own at parts(5,6,9) True by (cases "j = i") (auto split: if_splits)
  moreover have "pr_epoch ((pl_runs S)[i := r] ! j) \<le> pl_epoch S \<and>
      (pr_aborted ((pl_runs S)[i := r] ! j) \<and> pr_epoch ((pl_runs S)[i := r] ! j) = pl_epoch S \<longrightarrow> pl_key S = None)"
    if "j < length (pl_runs S)" for j
    using that inv(5,6) [of j] parts(5,8) by (cases "j = i") auto
  ultimately show ?thesis
    unfolding poll_inv_def parts(1,2,3,4) using inv(7) by auto
qed

definition no_refresh :: "('k, 'ans) poll_event \<Rightarrow> bool" where
  "no_refresh e = (case e of PChange k autoRefresh \<Rightarrow> \<not> autoRefresh | _ \<Rightarrow> True)"

lemma poll_inv_step:
  assumes "poll_inv S" and "ignores_abort C" and "no_refresh e"
  shows "poll_inv (poll_step C e S)"
proof (cases e)
  case (PChange k autoRefresh)
  then have "\<not> autoRefresh" using assms(3) by (simp add: no_refresh_def)
  moreover have "poll_inv (poll_fetch C k ((poll_cleanup S)\<lparr>pl_epoch := pl_epoch S + 1, pl_key := Some (k, False)\<rparr>))"
    by (rule poll_inv_fetch)
      (use poll_inv_cleanup [OF assms(1)] in \<open>auto simp: poll_live_def less_Suc_eq_le\<close>)
  ultimately show ?thesis using PChange by (simp add: Let_def)
next
  case PTick
  then show ?thesis using assms(1) poll_invD(7) [OF assms(1)] by (auto split: option.splits bool.splits)
next
  case PUnmount
  then show ?thesis using poll_inv_cleanup [OF assms(1)] by (auto simp: poll_inv_def)
qed (simp add: poll_inv_settle [OF assms(1,2)])

lemma poll_inv_steps:
  assumes "ignores_abort C" and "list_all no_refresh es"
  shows "poll_inv (poll_steps C es (poll_init v))"
  using assms(2)
proof (induction es rule: rev_induct)
  case Nil
  show ?case by (simp add: poll_steps_def poll_init_def poll_inv_def poll_live_def)
next
  case (snoc e es)
  then show ?case using poll_inv_step [OF _ assms(1)] by (simp add: poll_steps_def)
qed

lemma settle_writes:
  assumes "poll_inv S" and "ignores_abort C" and "pl_data (poll_settle C i a S) \<noteq> pl_data S"
  shows "pl_key S = Some (pr_key (pl_runs S ! i), False)"
proof -
  have "i < length (pl_runs S)" "\<not> pr_done (pl_runs S ! i)" "\<not> pr_aborted (pl_runs S ! i)"
    using assms(2,3) by (auto simp: poll_settle_def Let_def ignores_abort_def split: if_splits)
  then have "pl_ac S = Some i" using poll_invD(1) [OF assms(1)] by (simp add: poll_live_def)
  then show ?thesis by (rule poll_invD(4) [OF assms(1)])
qed

lemma latest_ignores_abort: "ignores_abort useLatestBlock"
  by (simp add: ignores_abort_def useLatestBlock_def latest_advance_def data_of_def getResponseResult_def)

lemma recent_ignores_abort: "ignores_abort useRecentBlocks"
proof -
  have "recent_advance k s (Inl AbortError) = Inr Ignore" for k s
    by (cases s) (simp_all add: recent_data_def latest_data_def blocks_data_def blocks_failed_def)
  then show ?thesis by (simp add: ignores_abort_def useRecentBlocks_def)
qed

section \<open>Properties\<close>



text \<open>
  C23: As long as the list of blocks does not refresh itself, whatever it shows was fetched for what
  it is asked to show: an answer changes the data only when it answers a fetch for the present page.
\<close>

theorem recent_blocks_current:
  assumes "list_all no_refresh es"
    and "S = poll_steps useRecentBlocks es (poll_init None)"
    and "pl_data (poll_step useRecentBlocks (PSettle i answer) S) \<noteq> pl_data S"
  shows "pl_key S = Some (pr_key (pl_runs S ! i), False)"
  using settle_writes [OF poll_inv_steps [OF recent_ignores_abort assms(1)] recent_ignores_abort] assms(2,3) by simp

definition sample_key :: "int \<Rightarrow> recent_key" where
  "sample_key page = \<lparr>rk_rpcService = \<lparr>rpcUrl = ''u''\<rparr>, rk_page = Num page, rk_pageSize = Num 10, rk_useFallback = False\<rparr>"

definition sample_blocks :: "recent_answer" where
  "sample_blocks = RecentAnswer \<lparr>rr_jsonrpc = ''2.0'', rr_id = 1,
     rr_result = Some \<lparr>rbs_blocks = [], rbs_latestBlock = 5, rbs_latestBlockTimeEpochUTC = 0, rbs_pageNumber = 1,
       rbs_pageSize = 10\<rparr>, rr_error = None\<rparr>"

lemma recent_blocks_current_witness:
  "pl_key (poll_steps useRecentBlocks [PChange (sample_key 0) False, PTick, PChange (sample_key 1) False] (poll_init None)) =
     Some (sample_key 1, False)"
proof -
  let ?es = "[PChange (sample_key 0) False, PTick, PChange (sample_key 1) False] :: (recent_key, recent_answer) poll_event list"
  let ?S = "poll_steps useRecentBlocks ?es (poll_init None)"
  have data: "pl_data (poll_step useRecentBlocks (PSettle 1 (Inr sample_blocks)) ?S) \<noteq> pl_data ?S"
    by (simp add: poll_steps_def poll_init_def poll_cleanup_def poll_fetch_def poll_settle_def useRecentBlocks_def
      recent_data_def sample_blocks_def data_of_def getResponseResult_def)
  have "list_all no_refresh ?es" by (simp add: no_refresh_def)
  from recent_blocks_current [OF this refl data]
  have "pl_key ?S = Some (pr_key (pl_runs ?S ! 1), False)" .
  moreover have "pr_key (pl_runs ?S ! 1) = sample_key 1"
    by (simp add: poll_steps_def poll_init_def poll_cleanup_def poll_fetch_def useRecentBlocks_def)
  ultimately show ?thesis by simp
qed

lemma cleanup_runs:
  "pl_ac S = Some i \<Longrightarrow> pl_runs (poll_cleanup S) = (pl_runs S)[i := (pl_runs S ! i)\<lparr>pr_aborted := True\<rparr>]"
  by (simp add: poll_cleanup_def)

lemma two_ticks:
  assumes "X = poll_steps useRecentBlocks [PChange k True, PTick, PTick] T"
    and "r = \<lparr>pr_key = k, pr_stage = AskRecent, pr_epoch = pl_epoch T + 1, pr_aborted = False, pr_done = False\<rparr>"
  shows "pl_runs (poll_cleanup X) = pl_runs (poll_cleanup T) @ [r, r\<lparr>pr_aborted := True\<rparr>]"
proof -
  have "X = (poll_cleanup T)\<lparr>pl_epoch := pl_epoch T + 1, pl_key := Some (k, True), pl_loading := True,
        pl_runs := pl_runs (poll_cleanup T) @ [r, r], pl_ac := Some (Suc (length (pl_runs (poll_cleanup T))))\<rparr>"
    by (simp add: Let_def poll_steps_def poll_fetch_def useRecentBlocks_def assms)
  then have "pl_runs X = pl_runs (poll_cleanup T) @ [r, r]" "pl_ac X = Some (Suc (length (pl_runs (poll_cleanup T))))"
    by simp_all
  then show ?thesis by (simp add: cleanup_runs nth_append list_update_append)
qed

text \<open>
  C25: With refreshing it is not so: when two ticks overlap, a change of the page aborts only the later
  fetch, and the answer to the earlier one replaces the data although the other page is shown.
\<close>

theorem refresh_stale_write:
  "\<exists>S. poll_steps useRecentBlocks
      (es @ [PChange k1 True, PTick, PTick, PChange k2 True,
             PSettle (length (pl_runs (poll_steps useRecentBlocks es (poll_init None)))) (Inr sample_blocks)])
      (poll_init None) = S \<and>
    pl_key S = Some (k2, True) \<and> pl_data S = Some \<lparr>rbh_blocks = [], rbh_latestBlock = 5\<rparr> \<and>
    pr_key (pl_runs S ! length (pl_runs (poll_steps useRecentBlocks es (poll_init None)))) = k1"
proof -
  let ?C = useRecentBlocks and ?r = "\<lambda>k e. \<lparr>pr_key = k, pr_stage = AskRecent, pr_epoch = e, pr_aborted = False, pr_done = False\<rparr>"
  obtain T where T: "T = poll_steps ?C es (poll_init None)" by blast
  obtain X where X: "X = poll_steps ?C [PChange k1 True, PTick, PTick] T" by blast
  obtain U where U: "U = poll_step ?C (PChange k2 True) X" by blast
  have runs: "pl_runs U = pl_runs (poll_cleanup T) @ [?r k1 (pl_epoch T + 1), (?r k1 (pl_epoch T + 1))\<lparr>pr_aborted := True\<rparr>]"
    and key: "pl_key U = Some (k2, True)"
    unfolding U using two_ticks [OF X refl] by (simp_all add: Let_def)
  have n: "length (pl_runs (poll_cleanup T)) = length (pl_runs T)" by (simp add: poll_cleanup_def split: option.splits)
  have r: "length (pl_runs T) < length (pl_runs U)" "pl_runs U ! length (pl_runs T) = ?r k1 (pl_epoch T + 1)"
    using runs n by (simp_all add: nth_append)
  have "poll_steps ?C (es @ [PChange k1 True, PTick, PTick, PChange k2 True, PSettle (length (pl_runs T)) (Inr sample_blocks)])
      (poll_init None) = poll_settle ?C (length (pl_runs T)) (Inr sample_blocks) U"
    unfolding U X T poll_steps_def by (simp del: poll_step.simps add: poll_step.simps(3))
  moreover have "poll_settle ?C (length (pl_runs T)) (Inr sample_blocks) U =
      U\<lparr>pl_runs := (pl_runs U)[length (pl_runs T) := (?r k1 (pl_epoch T + 1))\<lparr>pr_done := True\<rparr>],
        pl_ac := own_ac U (length (pl_runs T)) None, pl_loading := False,
        pl_data := Some \<lparr>rbh_blocks = [], rbh_latestBlock = 5\<rparr>\<rparr>"
    using r by (simp add: poll_settle_def Let_def useRecentBlocks_def recent_data_def sample_blocks_def data_of_def
      getResponseResult_def)
  ultimately show ?thesis using key r(1) unfolding T [symmetric] by simp
qed

end
