(* ===== verification/BlockView.thy ===== *)
theory BlockView
  imports TxTable Polling
begin

text \<open>
  The pages about blocks: \<open>web-app/src/components/client/block\<close> (the list, the overview, the detail
  page) and the server components \<open>app/[rollappPath]/blocks/page.tsx\<close> and
  \<open>app/[rollappPath]/block/[blockNo]/page.tsx\<close>. What the hooks return is an argument.
\<close>

section \<open>The list of blocks\<close>

definition recent_txs_display :: "recentBlock \<Rightarrow> string \<Rightarrow> view" where
  "recent_txs_display b pathname =
     (if rb_txsCount b = 0 then Digits ''0''
      else Link (getNewPathByRollapp pathname (Path_text TRANSACTIONS) @ ''?block='' @ show_int (rb_height b))
             [Digits (show_int (rb_txsCount b))])"

text \<open>\<open>b.proposer ? b.proposer.moniker || <ShortAddress/> : '-'\<close>\<close>

definition proposer_view :: "proposer option \<Rightarrow> view" where
  "proposer_view proposer =
     (case proposer of
        None \<Rightarrow> Text ''-''
      | Some p \<Rightarrow>
          if pr_moniker p \<noteq> [] then Text (pr_moniker p) else ShortAddress (pr_consensusAddress p))"

definition block_row ::
    "date_ops \<Rightarrow> string \<Rightarrow> bool \<Rightarrow> (string \<Rightarrow> string) \<Rightarrow> recentBlock \<Rightarrow> view list" where
  "block_row D pathname showDateTime ages b =
     [LinkToBlockNo pathname (Digits (show_int (rb_height b))),
      DateWithTooltip D showDateTime (rb_timeEpochUTC b) (ages (show_int (rb_height b))),
      proposer_view (rb_proposer b),
      recent_txs_display b pathname]"

definition BlockListTable ::
    "date_ops \<Rightarrow> string \<Rightarrow> bool \<Rightarrow> (string \<Rightarrow> string) \<Rightarrow> RecentBlocksHookResult option \<Rightarrow> bool \<Rightarrow> jsnum \<Rightarrow> jsnum \<Rightarrow> tableProps"
    where
  "BlockListTable D pathname showDateTime ages recentBlocks recentBlocksLoading page pageSize =
     (let blocks = (case recentBlocks of Some r \<Rightarrow> rbh_blocks r | None \<Rightarrow> []) in
      basic_table
        [Text ''Block'', Tag ''MuiLink'' [] [Text (if showDateTime then ''Date Time'' else ''Age'')],
         Text ''Proposer'', Text ''Txs'']
        (map (block_row D pathname showDateTime ages) blocks)
        (map (\<lambda>b. show_int (rb_height b)) blocks)
        (map_option rbh_latestBlock recentBlocks) page pageSize recentBlocksLoading)"

text \<open>
  The table's clicks: the format of the times is its state, the pagination pushes (\<open>onPageChange\<close>,
  \<open>onRowsPerPageChange\<close>).
\<close>

datatype block_event = BlockPageClicked nat | BlockSizeChosen string | BlockDateClicked

fun block_step :: "string \<Rightarrow> searchParams \<Rightarrow> block_event \<Rightarrow> bool \<Rightarrow> bool \<times> (string \<times> searchParams) option" where
  "block_step pathname ps (BlockPageClicked n) showDateTime = (showDateTime, Some (push_page pathname ps n))"
| "block_step pathname ps (BlockSizeChosen s) showDateTime = (showDateTime, Some (push_page_size pathname ps s))"
| "block_step pathname ps BlockDateClicked showDateTime = (\<not> showDateTime, None)"

definition BlockSummaryCard :: "string \<Rightarrow> bool \<Rightarrow> view list \<Rightarrow> view" where
  "BlockSummaryCard label loading children =
     Tag ''Grid'' [] [Tag ''Paper'' [] [Tag ''Box'' []
       (Typography [Text label] # (if loading then [Skeleton] else children))]]"

text \<open>What the page asks its hook for, from the query string.\<close>

definition BlockListPage_key :: "RpcService \<Rightarrow> searchParams \<Rightarrow> recent_key" where
  "BlockListPage_key svc searchParams =
     (let (pageSize, page) = page_of_params searchParams None
      in \<lparr>rk_rpcService = svc, rk_page = page, rk_pageSize = pageSize, rk_useFallback = True\<rparr>)"

definition BlockListPage ::
    "date_ops \<Rightarrow> string \<Rightarrow> searchParams \<Rightarrow> bool \<Rightarrow> (string \<Rightarrow> string) \<Rightarrow> RecentBlocksHookResult option \<Rightarrow> bool \<Rightarrow> int \<Rightarrow>
     view result" where
  "BlockListPage D pathname searchParams showDateTime ages recentBlocks loading txsIn24h =
     (let (pageSize, page) = page_of_params searchParams None;
          strong = (\<lambda>v. [Typography [Tag ''strong'' [] [v]]])
      in rmap (\<lambda>table. Frag
           [Tag ''Grid'' []
              [BlockSummaryCard ''Block Height'' loading
                 (strong (case recentBlocks of Some r \<Rightarrow> Digits (show_int (rbh_latestBlock r)) | None \<Rightarrow> Nothing)),
               BlockSummaryCard ''Block Count (Last 24H)'' loading (strong (Text ''-'')),
               BlockSummaryCard ''Tx Count (Last 24H)'' loading (strong (Digits (show_int txsIn24h))),
               BlockSummaryCard ''Block Time'' loading (strong (Text ''-''))],
            Card [table]])
           (DataTable (BlockListTable D pathname showDateTime ages recentBlocks loading page pageSize)))"

section \<open>The overview\<close>

definition DEFAULT_BLOCK_OVERVIEW_SIZE :: nat where
  [cfg_defs]: "DEFAULT_BLOCK_OVERVIEW_SIZE = 4"

definition getBlockLoading :: "view list" where
  "getBlockLoading =
     replicate DEFAULT_BLOCK_OVERVIEW_SIZE
       (Tag ''Grid'' [] [Tag ''StyledPaper'' [] [Skeleton, Tag ''Box'' [] [Skeleton, Skeleton]]])"

text \<open>\<open>getTimeDisplay\<close>: the texts of the ages, recomputed each second while there are blocks.\<close>

definition getTimeDisplay :: "date_ops \<Rightarrow> RecentBlocksHookResult option \<Rightarrow> string list \<Rightarrow> string list" where
  "getTimeDisplay D recentBlocks timeDisplay =
     (case recentBlocks of
        None \<Rightarrow> timeDisplay
      | Some r \<Rightarrow> map (\<lambda>b. getTimeDurationDisplay D (rb_timeEpochUTC b)) (rbh_blocks r))"

text \<open>The bullet between the two texts is no character of the model's strings; it is the element \<open>bullet\<close>.\<close>

definition overview_item :: "string \<Rightarrow> string list \<Rightarrow> recentBlock \<times> nat \<Rightarrow> view" where
  "overview_item pathname timeDisplay = (\<lambda>(b, idx).
     Tag ''Grid'' [(''key'', show_int (rb_height b))] [Tag ''StyledPaper'' []
       [Typography [LinkToBlockNo pathname (Digits (show_int (rb_height b)))],
        Tag ''Box'' []
          [Typography [Digits (show_int (rb_txsCount b)), Text '' Transactions'', Tag ''bullet'' [] [],
             if idx < length timeDisplay then Text (timeDisplay ! idx) else Nothing],
           Typography [Text ''Proposer'', Text '' ''],
           Tag ''span'' [] [proposer_view (rb_proposer b)]]]])"

definition BlockOverview :: "string \<Rightarrow> string list \<Rightarrow> RecentBlocksHookResult option \<Rightarrow> bool \<Rightarrow> view result" where
  "BlockOverview pathname timeDisplay recentBlocks recentBlocksLoading =
     (let loading = recentBlocksLoading \<and>
            (case recentBlocks of Some r \<Rightarrow> rbh_blocks r = [] | None \<Rightarrow> True)
      in if loading then Inr (Tag ''Grid'' [] getBlockLoading)
         else
           (case recentBlocks of
              None \<Rightarrow> Inl TypeError
            | Some r \<Rightarrow> Inr (Tag ''Grid'' []
                (map (overview_item pathname timeDisplay) (zip (rbh_blocks r) [0..<length (rbh_blocks r)])))))"

section \<open>One block\<close>

definition block_txs_display :: "block option \<Rightarrow> string \<Rightarrow> view" where
  "block_txs_display blockDetail pathname =
     (case blockDetail of
        Some b \<Rightarrow>
          if bl_txs b \<noteq> []
          then Link (getNewPathByRollapp pathname (Path_text TRANSACTIONS) @ ''?block='' @ show_int (bl_height b))
                 [Digits (show_nat (length (bl_txs b))), Text '' transaction'',
                  if 1 < length (bl_txs b) then Text ''s'' else Nothing]
          else Text ''0 transaction''
      | None \<Rightarrow> Text ''0 transaction'')"

text \<open>The detail page, or \<open>None\<close> for the page that says there is no such page.\<close>

definition BlockDetailPage ::
    "date_ops \<Rightarrow> string \<Rightarrow> string \<Rightarrow> block option \<Rightarrow> bool \<Rightarrow> string \<Rightarrow> view option" where
  "BlockDetailPage D pathname blockNo blockDetail loading age =
     (if blockDetail = None \<and> \<not> loading then None
      else Some (Tag ''Grid'' []
        [DetailItem ''Block height'' (num_view (parseInt blockNo)) loading,
         DetailItem ''Date Time''
           (case blockDetail of
              None \<Rightarrow> Nothing
            | Some b \<Rightarrow> Frag [DateWithTooltip D False (bl_timeEpochUTC b) age, Text '' ('',
                Text (formatUnixTime D (bl_timeEpochUTC b)), Text '')'']) loading,
         DetailItem ''Transactions'' (Frag [block_txs_display blockDetail pathname, Text '' in this block'']) loading]))"

text \<open>
  The server component: another page to go to, or the numbers the two parts of the page ask their
  hooks for.
\<close>

datatype block_shown =
    BlockRedirect string
  | BlockShown jsnum jsnum

definition block_page :: "string \<Rightarrow> string \<Rightarrow> block_shown" where
  "block_page rollappPath blockNo =
     (if \<not> isBlockNo blockNo then BlockRedirect (''/'' @ rollappPath)
      else BlockShown (parseInt blockNo) (toNumber blockNo))"

section \<open>The list's server component\<close>

definition ONE_DAY_IN_SECONDS :: int where
  [cfg_defs]: "ONE_DAY_IN_SECONDS = 24 * 60 * 60"

definition blocks_page ::
    "(query \<Rightarrow> int result) \<Rightarrow> (string \<Rightarrow> RollappInfo option) \<Rightarrow> int \<Rightarrow> string \<Rightarrow> int result" where
  "blocks_page run_count find_rollapp unix_now rollappPath =
     (case find_rollapp rollappPath of
        None \<Rightarrow> Inl TypeError
      | Some r \<Rightarrow> run_count (countTransactionsSinceTimestamp (chain_id r) (unix_now - ONE_DAY_IN_SECONDS)))"

section \<open>Facts\<close>

lemma links_proposer [simp]: "view_links (proposer_view p) = []"
  by (simp add: proposer_view_def view_simps split: option.splits)

lemma block_param: "params_get [(''block'', show_int (int n))] ''block'' = Some (show_nat n)"
  by (simp add: params_get_def show_int_def)

lemma txs_of_block:
  assumes "0 < n" and "n < 2 ^ 53"
  shows "txs_page run_count run_find info [(''block'', show_int (int n))] = Inr (TxsOfBlock (Num (int n)))"
  using assms number_of_digits [OF assms(2)] by (simp add: txs_page_def block_param truthy_num_def)

lemma digits_space: "list_all is_digit s \<Longrightarrow> list_all (\<lambda>c. \<not> is_space c) s"
  by (auto simp: list_all_iff char_class_defs code_def)

lemma digits_no_prefix:
  assumes "list_all is_digit ds" and "c \<noteq> CHR ''e''" and "\<not> is_digit c"
  shows "prefixed c (ds @ ''e'' @ es) = False" and "prefixed c ds = False"
  using assms by (cases ds; cases "tl ds"; auto simp: prefixed_def startsWith_iff)+

lemma no_prefix_letters: "\<not> is_digit c" if "c \<in> {CHR ''x'', CHR ''X'', CHR ''o'', CHR ''O'', CHR ''b'', CHR ''B''}"
  using that by (auto simp: is_digit_def code_def)

lemma toNumber_digits:
  assumes "ds \<noteq> []" and "list_all is_digit ds"
  shows "toNumber ds = num_of (int (read_base 10 ds))"
  using assms digits_no_prefix(2) [OF assms(2)] no_prefix_letters trim_no_space [OF digits_space [OF assms(2)]]
  by (simp add: toNumber_def takeWhile_all Let_def list_all_iff)

lemma toNumber_hex:
  assumes "ds \<noteq> []" and "list_all is_hex ds"
  shows "toNumber (''0x'' @ ds) = num_of (int (read_base 16 ds))"
proof -
  have "list_all (\<lambda>c. \<not> is_space c) (''0x'' @ ds)"
    using assms(2) by (auto simp: list_all_iff char_class_defs code_def)
  then have "trim (''0x'' @ ds) = ''0x'' @ ds" by (rule trim_no_space)
  with assms show ?thesis by (simp add: toNumber_def prefixed_def startsWith_def parse_radix_def)
qed

lemma toNumber_exponent:
  assumes "ds \<noteq> []" and "list_all is_digit ds" and "es \<noteq> []" and "list_all is_digit es"
  shows "toNumber (ds @ ''e'' @ es) = num_of (int (read_base 10 ds * 10 ^ read_base 10 es))"
proof -
  have e: "\<not> is_digit CHR ''e''" "\<not> is_space CHR ''e''" by (simp_all add: char_class_defs code_def)
  have "trim (ds @ ''e'' @ es) = ds @ ''e'' @ es"
    by (rule trim_no_space) (use digits_space [OF assms(2)] digits_space [OF assms(4)] e in simp)
  moreover have "takeWhile is_digit (ds @ ''e'' @ es) = ds" "dropWhile is_digit (ds @ ''e'' @ es) = ''e'' @ es"
    using assms(2) e(1) by (simp_all add: list_all_iff takeWhile_append2 dropWhile_append2)
  ultimately show ?thesis
    using assms digits_no_prefix(1) [OF assms(2)] no_prefix_letters by (simp add: toNumber_def parse_radix_def Let_def)
qed

lemma parseInt_prefix:
  assumes "ds \<noteq> []" and "list_all is_digit ds"
  shows "parseInt (ds @ ''e'' @ es) = num_of (int (read_base 10 ds))"
proof -
  obtain c t where ds: "ds = c # t" and c: "is_digit c" using assms by (cases ds) auto
  have sp: "dropWhile is_space (ds @ ''e'' @ es) = ds @ ''e'' @ es"
    and sign: "startsWith (ds @ ''e'' @ es) ''-'' = False" "startsWith (ds @ ''e'' @ es) ''+'' = False"
    using c ds by (auto simp: startsWith_def char_class_defs code_def)
  have hex: "startsWith (ds @ ''e'' @ es) ''0x'' = False" "startsWith (ds @ ''e'' @ es) ''0X'' = False"
    using digits_no_prefix(1) [OF assms(2), of _ es] no_prefix_letters by (simp_all add: prefixed_def)
  have all: "takeWhile is_digit (ds @ ''e'' @ es) = ds"
    using assms(2) by (simp add: list_all_iff takeWhile_append2 is_digit_def code_def)
  show ?thesis
    unfolding parseInt_def Let_def sp sign simp_thms if_False hex using assms(1) all by simp
qed

section \<open>Properties\<close>

text \<open>
  A row of the list of blocks has a link to its block, and, when the block has transactions, one
  to the list of the transactions with the block as its parameter; both stay in the rollapp, and the
  list they lead to asks for exactly that block.
\<close>

theorem block_row_links:
  assumes "list_all not_slash seg" and "seg \<noteq> []" and "rest = [] \<or> startsWith rest ''/''"
    and "rb_height b = int n" and "0 < n" and "n < 2 ^ 53"
  shows "view_links (Frag (block_row D (''/'' @ seg @ rest) showDateTime ages b)) =
      (''/'' @ seg @ ''/block/'' @ show_nat n) #
      (if rb_txsCount b = 0 then [] else [''/'' @ seg @ ''/txs?block='' @ show_nat n]) \<and>
    txs_page run_count run_find info [(''block'', show_nat n)] = Inr (TxsOfBlock (Num (int n)))"
proof -
  have n: "show_int (int n) = show_nat n" by (simp add: show_int_def)
  show ?thesis
    using new_path_eq [OF assms(1-3), simplified] assms(4) txs_of_block [OF assms(5,6), unfolded n]
    by (simp add: block_row_def recent_txs_display_def n Link_def)
qed

lemma block_row_links_witness:
  "view_links (Frag (block_row \<lparr>dayjs_format_utc = (\<lambda>_ _. []), dayjs_to = (\<lambda>_. [])\<rparr> ''/nim/blocks'' True (\<lambda>_. [])
      \<lparr>rb_hash = [], rb_height = 12, rb_timeEpochUTC = 0, rb_txsCount = 3, rb_proposer = None\<rparr>)) =
    [''/nim/block/'' @ show_nat 12, ''/nim/txs?block='' @ show_nat 12]"
proof -
  have "list_all not_slash ''nim''" by (simp add: not_slash_def)
  from block_row_links [OF this _ _ _ , of "''/blocks''" "\<lparr>rb_hash = [], rb_height = 12, rb_timeEpochUTC = 0, rb_txsCount = 3,
      rb_proposer = None\<rparr>" 12, THEN conjunct1]
  show ?thesis by simp
qed



end
