(* ===== verification/AddressPage.thy ===== *)
theory AddressPage
  imports AddressView TxTable
begin

text \<open>
  The server component \<open>web-app/src/app/[rollappPath]/address/[address]/page.tsx\<close>, which also serves
  \<open>token/[address]/page.tsx\<close>, the page of a validator
  (\<open>components/client/address/ValidatorDetail.tsx\<close>) and the list of validators
  (\<open>ValidatorList.tsx\<close>). The database and the hooks' data are arguments.
\<close>

section \<open>The address\<close>

definition getFilterOptionsFromTxType :: "string option \<Rightarrow> AccountTransactionFilterOption" where
  "getFilterOptionsFromTxType txType =
     (let none = \<lparr>opt_signer = None, opt_erc20 = None, opt_nft = None\<rparr> in
      if txType = Some (AddressTransactionType_text SENT_TRANSACTIONS) then none\<lparr>opt_signer := Some True\<rparr>
      else if txType = Some (AddressTransactionType_text ERC20_TRANSFER_TAB) then none\<lparr>opt_erc20 := Some True\<rparr>
      else if txType = Some (AddressTransactionType_text NFT_TRANSFER) then none\<lparr>opt_nft := Some True\<rparr>
      else none)"

text \<open>
  The address in the account's form and, when it is one of a validator, as it was given; \<open>None\<close>
  when its prefix is none of the chain's. A chain without the prefix of accounts makes the
  conversion of a hexadecimal address throw, later, where its prefix is used.
\<close>

definition parse_address ::
    "addr_ops \<Rightarrow> RollappInfo \<Rightarrow> string \<Rightarrow> (RollappAddress \<times> RollappAddress option) option result" where
  "parse_address A rollappInfo address =
     (let prefix = obj_get (bech32 rollappInfo) ''addr'';
          val = obj_get (bech32 rollappInfo) ''val'';
          cons = obj_get (bech32 rollappInfo) ''cons''
      in if chain_type rollappInfo = ChainType_text EVM \<and> isEvmAddress address
         then rmap (\<lambda>p. Some (fromHex address p, None)) (of_opt TypeError prefix)
         else
           rbind (fromBech32 A address None True) (\<lambda>parsedAddress.
             if Some (ra_prefix parsedAddress) = prefix then Inr (Some (parsedAddress, None))
             else if Some (ra_prefix parsedAddress) = val \<or> Some (ra_prefix parsedAddress) = cons
             then rmap (\<lambda>r. Some (r, Some parsedAddress)) (fromBech32 A address prefix False)
             else Inr None))"

section \<open>The page\<close>

datatype address_shown =
    AddressRedirect string
  | ValidatorPage string "string option" "string option"
  | AccountPage string "string option" "dbAccount option" bool txListProps "string option"

record address_db =
  ad_getAccount :: "query \<Rightarrow> dbAccount option result"
  ad_count :: "query \<Rightarrow> nat result"
  ad_find :: "query \<Rightarrow> TransactionFields list result"

text \<open>
  A row of the database has no type and no value. When both of the account and the transactions
  fail, the account's error is taken.
\<close>

definition account_txs ::
    "address_db \<Rightarrow> string \<Rightarrow> string \<Rightarrow> searchParams \<Rightarrow> txListProps result" where
  "account_txs Q cid bech32Address searchParams =
     (let filterOptions = getFilterOptionsFromTxType (params_get searchParams ''txType'') in
      rbind (ad_count Q (countAccountTransactions cid bech32Address filterOptions)) (\<lambda>totalTransactions.
        (let (pageSize, page) = page_of_params searchParams (Some totalTransactions) in
         rmap (\<lambda>txs. (default_list (map (\<lambda>i. i\<lparr>tf_tx_type := ''TODO'', tf_value := None\<rparr>) txs))
                \<lparr>tl_totalTransactions := totalTransactions, tl_pageSize := pageSize, tl_page := page\<rparr>)
           (ad_find Q (getAccountTransactions cid bech32Address filterOptions
              \<lparr>skip = Some (num_nat (getOffsetFromPageAndPageSize page pageSize)),
               take_n = Some (num_nat pageSize)\<rparr>)))))"

definition address_page ::
    "addr_ops \<Rightarrow> address_db \<Rightarrow> RollappInfo option \<Rightarrow> string \<Rightarrow> string \<Rightarrow> searchParams \<Rightarrow> bool \<Rightarrow> address_shown result" where
  "address_page A Q rollappInfo rollappPath address searchParams tokenMode =
     rbind (of_opt TypeError rollappInfo) (\<lambda>rollappInfo.
     rbind (parse_address A rollappInfo (toLowerCase address)) (\<lambda>parsed.
       case parsed of
         None \<Rightarrow> Inr (AddressRedirect (''/'' @ rollappPath))
       | Some (rollappAddress, valAddress) \<Rightarrow>
           rbind (toBech32 A (case valAddress of Some v \<Rightarrow> v | None \<Rightarrow> rollappAddress)) (\<lambda>bech32Address.
           rbind (if chain_type rollappInfo = ChainType_text EVM then rmap Some (toHex A rollappAddress True)
                  else Inr None) (\<lambda>evmAddress.
             if valAddress \<noteq> None
             then Inr (ValidatorPage bech32Address evmAddress (obj_get (denoms rollappInfo) ''bond''))
             else
               rbind (ad_getAccount Q (getAccount (chain_id rollappInfo) bech32Address)) (\<lambda>accountInfo.
               rmap (\<lambda>txs. AccountPage bech32Address evmAddress accountInfo tokenMode txs
                       (params_get searchParams ''txType''))
                 (account_txs Q (chain_id rollappInfo) bech32Address searchParams))))))"

definition Token_page ::
    "addr_ops \<Rightarrow> address_db \<Rightarrow> RollappInfo option \<Rightarrow> string \<Rightarrow> string \<Rightarrow> searchParams \<Rightarrow> address_shown result" where
  "Token_page A Q rollappInfo rollappPath address searchParams =
     address_page A Q rollappInfo rollappPath address searchParams True"

section \<open>A validator\<close>

text \<open>
  \<open>undefined\<close> is written as that word in a text. The amounts of an absent validator are 0, the
  amounts of a coin are read by \<open>getAmount\<close>.
\<close>

definition symbol_or_undefined :: "string option \<Rightarrow> string" where
  "symbol_or_undefined s = (case s of Some s \<Rightarrow> s | None \<Rightarrow> ''undefined'')"

definition ValidatorDetail ::
    "'b big_ops \<Rightarrow> string \<Rightarrow> string option \<Rightarrow> string \<Rightarrow> validator option \<Rightarrow> bool \<Rightarrow> denomsMetadata \<Rightarrow> bool \<Rightarrow> view result" where
  "ValidatorDetail B bech32Address evmAddress bondDenom validator validatorLoading dmeta denomsMetadataLoading =
     (let m = obj_get dmeta bondDenom;
          bondDecimals = (case m of Some m \<Rightarrow> dm_highestExponent m | None \<Rightarrow> 0);
          bondSymbol = symbol_or_undefined (map_option dm_symbol m);
          loading = validatorLoading \<or> denomsMetadataLoading;
          body = map_option val_validator validator;
          staking = map_option val_staking validator;
          format = (\<lambda>v d n. formatBlockchainAmount B (map_option FromString v) d n);
          coin = (\<lambda>label f. rmap (\<lambda>s. DetailItem label (Text (s @ '' '' @ bondSymbol)) loading)
             (format (Some (getAmount (case staking of Some s \<Rightarrow> f s | None \<Rightarrow> ''0''))) bondDecimals None));
          website = (case body of Some b \<Rightarrow> vd_website (vb_description b) | None \<Rightarrow> []);
          details = (case body of Some b \<Rightarrow> vd_details (vb_description b) | None \<Rightarrow> [])
      in rmap (\<lambda>items.
           Frag [AddressPageTitle bech32Address evmAddress True None
                   (map_option (\<lambda>b. vd_moniker (vb_description b)) body),
                 Card [Tag ''Grid'' []
                   ([DetailItem ''Website'' (if website \<noteq> [] then Link website [Text website] else Text ''-'') loading,
                     DetailItem ''Details'' (Text (if details \<noteq> [] then details else ''-'')) loading] @ items)]])
         (rmap_list (\<lambda>r. r)
           [rmap (\<lambda>s. DetailItem ''Voting Power'' (Text s) loading) (format (map_option vb_tokens body) bondDecimals (Some 0)),
            rmap (\<lambda>s. DetailItem ''Comissions'' (Text (s @ ''%'')) loading)
              (format (map_option (\<lambda>b. cr_rate (vc_commission_rates (vb_commission b))) body) (-2) None),
            rmap (\<lambda>s. DetailItem ''Self Stake'' (Text (s @ '' '' @ bondSymbol)) loading)
              (format (Option.bind staking (\<lambda>s. obj_get (vs_staking s) bech32Address)) bondDecimals None),
            coin ''Rewards'' vs_rewards,
            coin ''Governor Outstanding Rewards'' vs_validatorOutstandingRewards,
            coin ''Governor Commission'' vs_validatorCommission]))"

section \<open>The list of validators\<close>

text \<open>
  \<open>Object.keys(validators).sort(...)\<close>: with two validators or more each is compared, and one
  whose tokens are missing or no number makes the comparison throw.
\<close>

definition tokens_big :: "'b big_ops \<Rightarrow> validatorEntry \<Rightarrow> 'b result" where
  "tokens_big B v = rbind (of_opt invalid_number (ve_tokens v)) (new_big B)"

definition entry_of :: "validatorList \<Rightarrow> string \<Rightarrow> validatorEntry" where
  "entry_of validators address = the (obj_get validators address)"

definition compare_tokens :: "'b big_ops \<Rightarrow> validatorList \<Rightarrow> string \<Rightarrow> string \<Rightarrow> int" where
  "compare_tokens B validators a b =
     (case rbind (tokens_big B (entry_of validators b)) (\<lambda>x. rmap (big_cmp B x) (tokens_big B (entry_of validators a))) of
        Inr c \<Rightarrow> c | Inl _ \<Rightarrow> 0)"

definition validatorAddresses :: "'b big_ops \<Rightarrow> validatorList \<Rightarrow> string list result" where
  "validatorAddresses B validators =
     (let keys = obj_keys validators in
      if length keys < 2 then Inr keys
      else rmap (\<lambda>_. js_sort (compare_tokens B validators) keys)
             (rmap_list (\<lambda>a. tokens_big B (entry_of validators a)) keys))"

text \<open>The fold of \<open>totalTokens\<close>: a validator without tokens sets the sum back to 0.\<close>

definition add_tokens :: "'b big_ops \<Rightarrow> 'b result \<Rightarrow> validatorEntry \<Rightarrow> 'b result" where
  "add_tokens B acc v =
     rbind acc (\<lambda>acc.
       case ve_tokens v of
         Some (c # s) \<Rightarrow> rmap (\<lambda>x. big_add B x acc) (new_big B (c # s))
       | _ \<Rightarrow> Inr (big_int B 0))"

definition totalTokens :: "'b big_ops \<Rightarrow> validatorList \<Rightarrow> 'b result" where
  "totalTokens B validators = foldl (add_tokens B) (Inr (big_int B 0)) (map snd validators)"

definition vpPercent :: "'b big_ops \<Rightarrow> 'b \<Rightarrow> validatorEntry \<Rightarrow> 'b result" where
  "vpPercent B total_tokens v =
     (case ve_tokens v of
        Some (c # s) \<Rightarrow>
          rbind (new_big B (c # s)) (\<lambda>x. rmap (\<lambda>q. big_mul B q (big_int B 100)) (div_big B x total_tokens))
      | _ \<Rightarrow> Inr (big_int B 100))"

definition vp_color :: "'b big_ops \<Rightarrow> 'b \<Rightarrow> string" where
  "vp_color B p =
     (if 0 < big_cmp B p (big_int B 33) then ''red'' else if 0 < big_cmp B p (big_int B 10) then ''orange'' else ''grey'')"

definition validator_row ::
    "'b big_ops \<Rightarrow> string \<Rightarrow> 'b \<Rightarrow> validatorEntry \<Rightarrow> view list result" where
  "validator_row B pathname total_tokens v =
     rbind (vpPercent B total_tokens v) (\<lambda>p.
     rbind (formatBlockchainAmount B (map_option FromString (ve_tokens v)) (ve_tokensDecimals v) (Some 0)) (\<lambda>power.
     rbind (formatBlockchainAmount B (Some (FromBig p)) 0 (Some 4)) (\<lambda>percent.
     rmap (\<lambda>commission.
         [AddressLink pathname (ve_valAddress v) (Some (ve_moniker v)) False,
          Tag ''Box'' [] [Text power, Text '' '', Tag ''Typography'' [(''color'', vp_color B p)] [Text percent, Text ''%'']],
          Text (commission @ ''%'')])
       (formatBlockchainAmount B (Some (FromString (ve_commission v))) (-2) None))))"

definition ValidatorList ::
    "'b big_ops \<Rightarrow> string \<Rightarrow> searchParams \<Rightarrow> validatorList \<Rightarrow> bool \<Rightarrow> tableProps result" where
  "ValidatorList B pathname searchParams validators loading =
     rbind (validatorAddresses B validators) (\<lambda>addresses.
     rbind (totalTokens B validators) (\<lambda>total_tokens.
       (let (pageSize, page) = page_of_params searchParams (Some (length addresses));
            rowKeys = js_slice (num_mul page pageSize) (num_mul (num_add page (Num 1)) pageSize) addresses
        in rmap (\<lambda>body. basic_table [Text ''Governor'', Text ''Voting Power'', Text ''Commission''] body addresses
                (Some (int (length addresses))) page pageSize loading)
             (rmap_list (\<lambda>a. validator_row B pathname total_tokens (entry_of validators a)) rowKeys))))"

section \<open>Facts\<close>

definition stake :: "validatorList \<Rightarrow> string \<Rightarrow> nat" where
  "stake validators a = read_base 10 (the (ve_tokens (entry_of validators a)))"

definition staked :: "validatorEntry \<Rightarrow> bool" where
  "staked v \<longleftrightarrow> (\<exists>s. ve_tokens v = Some s \<and> s \<noteq> [] \<and> list_all is_digit s)"

lemma tokens_big_stake:
  assumes "big_number B val" and "staked v"
  shows "\<exists>x. tokens_big B v = Inr x \<and> val x = of_nat (read_base 10 (the (ve_tokens v)))"
  using assms big_number.new_big_digits [OF assms(1)] by (auto simp: tokens_big_def staked_def)

lemma staked_entry: "list_all staked (map snd validators) \<Longrightarrow> a \<in> set (obj_keys validators) \<Longrightarrow> staked (entry_of validators a)"
  by (fastforce simp: entry_of_def list_all_iff dest: obj_get_in)

lemma addresses_sorted:
  assumes B: "big_number B val" and wf: "obj_wf validators" and st: "list_all staked (map snd validators)"
  shows "\<exists>addresses. validatorAddresses B validators = Inr addresses \<and> mset addresses = mset (obj_keys validators) \<and>
    sorted_wrt (\<lambda>a b. stake validators b \<le> stake validators a) addresses"
proof (cases "length (obj_keys validators) < 2")
  case True
  then have "sorted_wrt R (obj_keys validators)" for R
    by (cases "obj_keys validators"; cases "tl (obj_keys validators)"; auto)
  with True show ?thesis by (simp add: validatorAddresses_def)
next
  case False
  let ?keys = "obj_keys validators" and ?s = "stake validators"
  define cmp where "cmp a b = (if ?s b < ?s a then -1 else if ?s b = ?s a then 0 else 1 :: int)" for a b
  have big: "\<exists>x. tokens_big B (entry_of validators a) = Inr x \<and> val x = of_nat (?s a)" if "a \<in> set ?keys" for a
    using tokens_big_stake [OF B staked_entry [OF st that]] by (simp add: stake_def)
  have "compare_tokens B validators a b = cmp a b" if ab: "a \<in> set ?keys" "b \<in> set ?keys" for a b
  proof -
    obtain x y where "tokens_big B (entry_of validators a) = Inr x" "val x = of_nat (?s a)"
      "tokens_big B (entry_of validators b) = Inr y" "val y = of_nat (?s b)"
      using big [OF ab(1)] big [OF ab(2)] by blast
    then show ?thesis by (simp add: compare_tokens_def cmp_def big_number.cmp_val [OF B])
  qed
  then have sort: "js_sort (compare_tokens B validators) ?keys = js_sort cmp ?keys"
    using wf by (intro js_sort_cong_distinct) (simp_all add: obj_wf_def obj_keys_def)
  obtain f where "rmap_list (\<lambda>a. tokens_big B (entry_of validators a)) ?keys = Inr f"
    using bchoice [of "set ?keys" "\<lambda>a x. tokens_big B (entry_of validators a) = Inr x"] big
      rmap_list_total [of ?keys "\<lambda>a. tokens_big B (entry_of validators a)"] by blast
  then have addresses: "validatorAddresses B validators = Inr (js_sort cmp ?keys)"
    using False by (simp add: validatorAddresses_def sort Let_def)
  have "comparator cmp" by unfold_locales (auto simp: cmp_def split: if_splits)
  then have "sorted_wrt (\<lambda>a b. cmp a b \<le> 0) (js_sort cmp ?keys)" by (rule comparator.sorted_js_sort)
  then have "sorted_wrt (\<lambda>a b. ?s b \<le> ?s a) (js_sort cmp ?keys)"
    by (rule sorted_wrt_mono_rel [rotated]) (auto simp: cmp_def split: if_splits)
  with addresses show ?thesis by simp
qed

lemma total_sum:
  assumes B: "big_number B val"
  shows "list_all staked vs \<Longrightarrow> \<exists>t. foldl (add_tokens B) (Inr z) vs = Inr t \<and>
    val t = val z + of_nat (sum_list (map (\<lambda>v. read_base 10 (the (ve_tokens v))) vs))"
proof (induction vs arbitrary: z)
  case (Cons v vs)
  then obtain s where s: "ve_tokens v = Some s" "s \<noteq> []" "list_all is_digit s" by (auto simp: staked_def)
  then obtain x where x: "new_big B s = Inr x" "val x = of_nat (read_base 10 s)"
    using big_number.new_big_digits [OF B] by blast
  obtain c cs where "s = c # cs" using s(2) by (cases s) auto
  then have "add_tokens B (Inr z) v = Inr (big_add B x z)" using s(1) x(1) by (simp add: add_tokens_def)
  moreover have "val (big_add B x z) = of_nat (read_base 10 s) + val z" using x(2) big_number.val_add [OF B] by simp
  ultimately show ?case using Cons.IH [of "big_add B x z"] Cons.prems s(1) by auto
qed simp

section \<open>Properties\<close>


definition sample_db :: address_db where
  "sample_db = \<lparr>ad_getAccount = (\<lambda>_. Inr None), ad_count = (\<lambda>_. Inr 42), ad_find = sample_find\<rparr>"

definition evm_chain :: RollappInfo where
  "evm_chain = \<lparr>name = ''Nim'', chain_id = ''nim_1-1'', be_json_rpc_urls = [],
     bech32 = [(''addr'', ''nim''), (''val'', ''nimvaloper''), (''cons'', ''nimvalcons'')],
     chain_type = ''evm'', latest_indexed_block = 9, denoms = [], path = ''/nim'', isFavorite = False\<rparr>"





definition sample_validators :: validatorList where
  "sample_validators =
     [(''a'', \<lparr>ve_consAddress = ''c1'', ve_pubKeyType = [], ve_valAddress = ''v1'', ve_votingPower = 1,
        ve_moniker = ''one'', ve_commission = ''0.05'', ve_tokens = Some ''100'', ve_tokensDecimals = 18\<rparr>),
      (''b'', \<lparr>ve_consAddress = ''c2'', ve_pubKeyType = [], ve_valAddress = ''v2'', ve_votingPower = 2,
        ve_moniker = ''two'', ve_commission = ''0.1'', ve_tokens = Some ''300'', ve_tokensDecimals = 18\<rparr>)]"


end
