(* ===== verification/TxView.thy ===== *)
theory TxView
  imports View TxDetail
begin

text \<open>
  The page of a transaction: \<open>web-app/src/components/client/transaction/TransactionDetailPage.tsx\<close>
  and the tabs of \<open>TransactionData\<close>. The transaction is what \<open>TxDetail\<close> produces. The record
  \<open>addr_ops\<close> holds \<open>getAddress\<close> of \<open>@ethersproject\<close>, \<open>big_ops\<close> the operations of \<open>big.js\<close>;
  \<open>percent\<close> is the text of \<open>round(used / limit * 100, 2)\<close>, a function of \<open>lodash\<close> on fractions.
\<close>

definition address_link :: "addr_ops \<Rightarrow> string \<Rightarrow> string \<Rightarrow> string option \<Rightarrow> view result" where
  "address_link A pathname address display =
     rmap (\<lambda>a. AddressLink pathname a display True) (eth_getAddress A address)"

text \<open>A text that is falsy when it is missing or empty.\<close>

definition truthy :: "string option \<Rightarrow> string option" where
  "truthy s = (case s of Some (c # cs) \<Rightarrow> Some (c # cs) | _ \<Rightarrow> None)"

section \<open>The summary\<close>

definition getStatusDisplay :: "bool \<Rightarrow> view" where
  "getStatusDisplay success = (if success then Chip ''success'' (Text ''Success'') else Chip ''error'' (Text ''Fail''))"

definition getAttributeValue :: "event \<Rightarrow> string \<Rightarrow> string option" where
  "getAttributeValue event key =
     truthy (map_option attr_value (List.find (\<lambda>attr. attr_key attr = key) (ev_attributes event)))"

definition MsgTransfer :: string where
  [cfg_defs]: "MsgTransfer = ''ibc.applications.transfer.v1.MsgTransfer''"

record eIBC_packet =
  ep_port :: string
  ep_channel :: string
  ep_sequence :: string

text \<open>\<open>continue\<close> skips the event.\<close>

definition eIBC_of :: "event \<Rightarrow> eIBC_packet option" where
  "eIBC_of event =
     (if ev_type event \<noteq> ''send_packet'' then None
      else
        (case getAttributeValue event ''packet_data'' of
           None \<Rightarrow> None
         | Some packetData \<Rightarrow>
             if \<not> includes_str packetData ''eibc'' then None
             else
               (case (getAttributeValue event ''packet_dst_port'', getAttributeValue event ''packet_dst_channel'',
                      getAttributeValue event ''packet_sequence'') of
                  (Some port, Some channel, Some sequence) \<Rightarrow>
                    Some \<lparr>ep_port = port, ep_channel = channel, ep_sequence = sequence\<rparr>
                | _ \<Rightarrow> None)))"

definition eIBC_packets :: "transaction option \<Rightarrow> eIBC_packet list result" where
  "eIBC_packets transactionDetail =
     (case transactionDetail of
        None \<Rightarrow> Inr []
      | Some t \<Rightarrow>
          (case tx_msgs t of
             None \<Rightarrow> Inr []
           | Some msgs \<Rightarrow>
               rmap (\<lambda>r. if list_ex (\<lambda>m. msg_type m = MsgTransfer) msgs
                         then List.map_filter eIBC_of (res_events r) else [])
                 (of_opt TypeError (tx_result t))))"

definition eIBC_link :: "eIBC_packet \<times> nat \<Rightarrow> view" where
  "eIBC_link = (\<lambda>(e, idx).
     Frag [if 0 < idx then Tag ''br'' [] [] else Nothing,
           Link (DYM_ESCAN_URL @ ''/eibc/'' @ ep_port e @ ''/'' @ ep_channel e @ ''/'' @ ep_sequence e)
             [Text ''Packet '', Text (ep_sequence e), Text '' on Dymension'']])"

definition hash_view :: "string \<Rightarrow> view" where
  "hash_view h = Typography [Text h, Text '' '', CopyButton h]"

text \<open>The card of the summary, or \<open>None\<close> for the page that says there is no such page.\<close>

definition TransactionDetailPage ::
    "'b big_ops \<Rightarrow> (int \<Rightarrow> int \<Rightarrow> string) \<Rightarrow> string \<Rightarrow> string \<Rightarrow> transaction option \<Rightarrow> bool \<Rightarrow> view option result" where
  "TransactionDetailPage B percent pathname txHash transactionDetail loading =
     (if transactionDetail = None \<and> \<not> loading then Inr None
      else
        (let gas = map_option res_gas (Option.bind transactionDetail tx_result);
             used = (case gas of Some g \<Rightarrow> gas_used g | None \<Rightarrow> 0);
             limit = (case gas of Some g \<Rightarrow> gas_limit g | None \<Rightarrow> 0);
             shown = (\<lambda>f. case transactionDetail of None \<Rightarrow> Inr Nothing | Some t \<Rightarrow> f t)
         in rbind (eIBC_packets transactionDetail) (\<lambda>eIBC.
            rbind (shown (\<lambda>t. rmap (\<lambda>r. getStatusDisplay (res_success r)) (of_opt TypeError (tx_result t)))) (\<lambda>status.
            rmap (\<lambda>gas_usage. Some (Card [Tag ''Grid'' []
                ([DetailItem ''Transaction Hash''
                    (case transactionDetail of
                       None \<Rightarrow> Nothing
                     | Some t \<Rightarrow> Frag [hash_view (tx_hash t), if txHash \<noteq> tx_hash t then hash_view txHash else Nothing]) loading,
                  DetailItem ''Status'' status loading,
                  DetailItem ''Block''
                    (case transactionDetail of
                       None \<Rightarrow> Nothing
                     | Some t \<Rightarrow> LinkToBlockNo pathname (Digits (show_int (tx_height t)))) loading,
                  DetailItem ''Gas Usage & Limit'' gas_usage loading] @
                 (if eIBC \<noteq> []
                  then [DetailItem ''eIBC'' (Frag (map eIBC_link (zip eIBC [0..<length eIBC]))) False]
                  else []))]))
              (shown (\<lambda>t.
                 rbind (formatNumber B (FromInt used)) (\<lambda>u. rmap (\<lambda>l.
                     Typography [Text u, Text '' | '', Text l, Text '' ('', Text (percent used limit), Text ''%)''])
                   (formatNumber B (FromInt limit)))))))))"

section \<open>The tabs\<close>

datatype TabValue = MESSAGES | COSMOS_EVENT_LOGS | EVM_DETAILS | EVM_RECEIPT | EVM_EVENT_LOGS

definition getTabsByTransaction :: "transaction \<Rightarrow> string \<Rightarrow> (string \<times> TabValue) list" where
  "getTabsByTransaction t transactionType =
     (if transactionType = ''evm''
      then [(''Details'', EVM_DETAILS), (''Receipt'', EVM_RECEIPT)] @
           (case Option.bind (tx_evmReceipt t) er_logs of
              Some (_ # _) \<Rightarrow> [(''EVM Event Logs'', EVM_EVENT_LOGS)]
            | _ \<Rightarrow> []) @
           [(''Cosmos Event Logs'', COSMOS_EVENT_LOGS)]
      else [(case tx_msgs t of
               Some msgs \<Rightarrow> ''Messages ('' @ show_nat (length msgs) @ '') ''
             | None \<Rightarrow> ''Messages'', MESSAGES),
            (''Event Logs'', COSMOS_EVENT_LOGS)])"

text \<open>\<open>None\<close> is \<open>undefined\<close>: a type that is neither.\<close>

definition getDefaultTabValue :: "string \<Rightarrow> TabValue option" where
  "getDefaultTabValue transactionType =
     (if transactionType = ''cosmos'' then Some MESSAGES
      else if transactionType = ''evm'' then Some EVM_DETAILS else None)"

text \<open>\<open>currentTab || getDefaultTabValue(transactionType)\<close>: the tab of the messages is the number 0, which is falsy.\<close>

definition tabValue :: "string \<Rightarrow> TabValue option \<Rightarrow> TabValue option" where
  "tabValue transactionType currentTab =
     (case currentTab of
        None \<Rightarrow> getDefaultTabValue transactionType
      | Some MESSAGES \<Rightarrow> getDefaultTabValue transactionType
      | Some t \<Rightarrow> Some t)"

section \<open>Messages\<close>

text \<open>\<open>JSON.stringify(v, null, w)\<close>, at a depth.\<close>

definition indent :: "nat \<Rightarrow> nat \<Rightarrow> string" where
  "indent w n = CHR 10 # replicate (w * n) (CHR '' '')"

fun stringify :: "nat \<Rightarrow> nat \<Rightarrow> json \<Rightarrow> string" where
  "stringify w n JNull = ''null''"
| "stringify w n (JBool b) = (if b then ''true'' else ''false'')"
| "stringify w n (JNumber i) = show_int i"
| "stringify w n (JString s) = json_string s"
| "stringify w n (JArray vs) =
     (if vs = [] then ''[]''
      else ''['' @ join '','' (map (\<lambda>v. indent w (Suc n) @ stringify w (Suc n) v) vs) @ indent w n @ '']'')"
| "stringify w n (JObject fs) =
     (if fs = [] then ''{}''
      else ''{'' @ join '','' (map (\<lambda>(k, v). indent w (Suc n) @ json_string k @ '': '' @ stringify w (Suc n) v) fs) @
        indent w n @ ''}'')"

definition ctm_of :: "json \<Rightarrow> string result" where
  "ctm_of content =
     (case content of
        JObject fs \<Rightarrow> (case obj_get fs ''ctm'' of Some (JString s) \<Rightarrow> Inr s | _ \<Rightarrow> Inl TypeError)
      | _ \<Rightarrow> Inl TypeError)"

definition node_view :: "string \<Rightarrow> node \<Rightarrow> view" where
  "node_view pathname n =
     (case n of TextNode s \<Rightarrow> Text s | LinkNode address idx \<Rightarrow> AddressLink pathname address (Some address) True)"

definition message_view :: "string \<Rightarrow> msg \<times> nat \<Rightarrow> view result" where
  "message_view pathname = (\<lambda>(m, idx).
     rmap (\<lambda>ctm.
         Tag ''Accordion'' [(''key'', show_int (msg_idx m)), (''defaultExpanded'', if idx = 0 then ''true'' else ''false'')]
           [Tag ''AccordionSummary'' []
              [Tag ''b'' [] [Text ''#'', Digits (show_nat (idx + 1)), Text '' '', Text (getMessageName (msg_type m))]],
            Tag ''AccordionDetails'' []
              [ItemContainer
                 [RowItem ''Content'' (Typography (map (node_view pathname) (translateCts ctm))),
                  RowItem ''Type'' (Text (msg_type m)),
                  RowItem ''Proto Message'' (TextField (stringify 4 0 (msg_protoContent m)))]]])
       (ctm_of (msg_content m)))"

definition Messages :: "string \<Rightarrow> transaction \<Rightarrow> view result" where
  "Messages pathname t =
     (case tx_msgs t of
        None \<Rightarrow> Inr Nothing
      | Some msgs \<Rightarrow> frag_of (map (message_view pathname) (zip msgs [0..<length msgs])))"

section \<open>Event logs of the chain\<close>

definition attribute_view :: "'b big_ops \<Rightarrow> denomsMetadata \<Rightarrow> eventAttribute \<Rightarrow> view result" where
  "attribute_view B dmeta attr =
     (let isAmount = (attr_key attr = ''amount'' \<or> attr_key attr = ''fee'') in
      rmap (\<lambda>v. Tag ''Grid'' []
           [Tag ''Grid'' [] [Typography [Text (attr_key attr)]],
            Tag ''Grid'' [] [Typography [Text v], if isAmount then Typography [Text (attr_value attr)] else Nothing]])
        (if isAmount then formatRpcAmount B (attr_value attr) dmeta else Inr (attr_value attr)))"

definition event_view :: "'b big_ops \<Rightarrow> denomsMetadata \<Rightarrow> event \<times> nat \<Rightarrow> view result" where
  "event_view B dmeta = (\<lambda>(event, idx).
     rmap (\<lambda>attrs.
         Tag ''Accordion'' [(''defaultExpanded'', if idx < 10 then ''true'' else ''false'')]
           [Tag ''AccordionSummary'' [] [Tag ''b'' [] [Text (ev_type event)]],
            Tag ''AccordionDetails'' [] [Tag ''Grid'' [] attrs]])
       (rmap_list (attribute_view B dmeta) (ev_attributes event)))"

definition CosmosEventLogs :: "'b big_ops \<Rightarrow> denomsMetadata \<Rightarrow> transaction \<Rightarrow> view result" where
  "CosmosEventLogs B dmeta t =
     rbind (of_opt TypeError (tx_result t)) (\<lambda>r.
       frag_of (map (event_view B dmeta) (zip (res_events r) [0..<length (res_events r)])))"

end
