(* ===== verification/EvmView.thy ===== *)
theory EvmView
  imports TxView
begin

text \<open>
  The EVM tabs of a transaction (\<open>_EvmDetails.tsx\<close>, \<open>_EvmReceiptDetails.tsx\<close>, \<open>_EvmEventLogs.tsx\<close>
  of \<open>web-app/src/components/client/transaction/TransactionData\<close>) and the component that shows the
  chosen tab (\<open>TransactionData/index.tsx\<close>).
\<close>

type_synonym contracts = "(string \<times> erc20ContractInfo) list option"

definition contract_at :: "contracts \<Rightarrow> string \<Rightarrow> erc20ContractInfo option" where
  "contract_at contracts address = Option.bind contracts (\<lambda>m. obj_get m address)"

definition gas_price_row :: "'b big_ops \<Rightarrow> string \<Rightarrow> view result" where
  "gas_price_row B gasPrice =
     rbind (fromHexStringToEthereumGasPriceValue B gasPrice) (\<lambda>v.
       rmap (\<lambda>s. RowItem ''Gas Price'' (Text s)) (formatNumber B (FromString v)))"

section \<open>Actions of a call\<close>

definition contract_symbol :: "contracts \<Rightarrow> string \<Rightarrow> string" where
  "contract_symbol contracts emitter =
     (case truthy (Option.bind (contract_at contracts emitter) ec_symbol) of Some s \<Rightarrow> s | None \<Rightarrow> [])"

definition renderEvmTxAction ::
    "addr_ops \<Rightarrow> 'b big_ops \<Rightarrow> string \<Rightarrow> contracts \<Rightarrow> evmLog \<Rightarrow> view result" where
  "renderEvmTxAction A B pathname contracts lg =
     rbind (translateEvmLogIfPossible B (log_topics lg) (log_data lg) (log_address lg) contracts) (\<lambda>translated.
       case translated of
         None \<Rightarrow> Inr Nothing
       | Some tr \<Rightarrow>
           rbind (eth_getAddress A (tl_from tr)) (\<lambda>from_text.
           rmap (\<lambda>to_text.
               RowItem ''Action'' (Frag
                 ([Text (case tl_type tr of ERC20_TRANSFER \<Rightarrow> ''Transfer '' | ERC20_APPROVAL \<Rightarrow> ''Granted spend up to ''),
                   if tl_isRawAmount tr then Text ''(Raw) '' else Nothing, Text '' '', Text (tl_amount tr), Text '' '',
                   Text (contract_symbol contracts (log_address lg)), Text '' from'', Text '' '',
                   AddressLink pathname (tl_from tr) (Some from_text) True] @
                  (case tl_type tr of
                     ERC20_TRANSFER \<Rightarrow> [Text '' to'', Text '' '']
                   | ERC20_APPROVAL \<Rightarrow> [Text '', '', Text ''grant to '']) @
                  [AddressLink pathname (tl_to tr) (Some to_text) True])))
             (eth_getAddress A (tl_to tr))))"

definition renderEvmTxActions ::
    "addr_ops \<Rightarrow> 'b big_ops \<Rightarrow> string \<Rightarrow> contracts \<Rightarrow> evmLog list \<Rightarrow> view result" where
  "renderEvmTxActions A B pathname contracts evmTxLogs =
     rmap (\<lambda>rows.
         Frag [Frag rows,
           if list_ex (\<lambda>r. r \<noteq> Nothing) rows then Frag (replicate 3 (Tag ''br'' [] [])) else Nothing])
       (rmap_list (renderEvmTxAction A B pathname contracts) evmTxLogs)"

section \<open>The details by mode\<close>

text \<open>The \<open>TextField\<close> rows of the bytecode and the input.\<close>

definition EvmDetailsDeployContract ::
    "addr_ops \<Rightarrow> 'b big_ops \<Rightarrow> string \<Rightarrow> evmTx \<Rightarrow> evmReceipt \<Rightarrow> contracts \<Rightarrow> view result" where
  "EvmDetailsDeployContract A B pathname info receipt contracts =
     rmap ItemContainer (rmap_list (\<lambda>r. r)
       [rmap (RowItem ''Deployer'') (address_link A pathname (et_from info) None),
        (case truthy (er_contractAddress receipt) of
           Some a \<Rightarrow> rmap (RowItem ''Deploy New Contract'')
                        (address_link A pathname a (Option.bind (contract_at contracts a) ec_name))
         | None \<Rightarrow> Inr (RowItem ''Deploy New Contract'' (Text ''Missing contract address''))),
        Inr (case truthy (et_input info) of
           Some i \<Rightarrow> RowItem ''Deployment Bytecode'' (TextField i) | None \<Rightarrow> Nothing),
        gas_price_row B (et_gasPrice info)])"

definition EvmDetailsGeneralTransfer ::
    "addr_ops \<Rightarrow> 'b big_ops \<Rightarrow> string \<Rightarrow> evmTx \<Rightarrow> chainInfo option \<Rightarrow> bool \<Rightarrow> denomsMetadata \<Rightarrow> bool \<Rightarrow> view result" where
  "EvmDetailsGeneralTransfer A B pathname info chainInfo chainInfoLoading dmeta denomsMetadataLoading =
     (let loading = chainInfoLoading \<or> denomsMetadataLoading;
          unless_loading = (\<lambda>r. if loading then Inr Skeleton else r)
      in rbind (if \<not> chainInfoLoading then rmap (\<lambda>c. obj_get (ci_denoms c) ''evm'') (of_opt TypeError chainInfo) else Inr None)
         (\<lambda>denom.
           rmap ItemContainer (rmap_list (\<lambda>r. r)
             [rmap (RowItem ''Transfer'') (unless_loading
                (rbind (of_opt TypeError (et_value info)) (\<lambda>v.
                   rmap (\<lambda>x. Text (x @ '' '' @
                       (case Option.bind (truthy denom) (obj_get dmeta) of Some m \<Rightarrow> dm_symbol m | None \<Rightarrow> [])))
                     (fromHexStringToEthereumValue B v)))),
              rmap (RowItem ''From'') (unless_loading (address_link A pathname (et_from info) None)),
              rmap (RowItem ''To'') (unless_loading
                (case et_to info of
                   None \<Rightarrow> Inr Nothing
                 | Some a \<Rightarrow> if a = [] then Inr (Text []) else address_link A pathname a None)),
              rmap (RowItem ''Gas Price'') (unless_loading
                (rbind (fromHexStringToEthereumGasPriceValue B (et_gasPrice info)) (\<lambda>v.
                   rmap Text (formatNumber B (FromString v)))))])))"

text \<open>\<open>evmTx.input!.substring(0, 10)\<close> throws for a call without input, as \<open>hexToDec\<close> does without a value.\<close>

definition EvmDetailsContractCall ::
    "addr_ops \<Rightarrow> 'b big_ops \<Rightarrow> string \<Rightarrow> evmTx \<Rightarrow> evmReceipt \<Rightarrow> contracts \<Rightarrow> view result" where
  "EvmDetailsContractCall A B pathname info receipt contracts =
     rmap ItemContainer (rmap_list (\<lambda>r. r)
       [rbind (of_opt TypeError (er_logs receipt)) (\<lambda>ls.
          if ls \<noteq> [] then renderEvmTxActions A B pathname contracts ls else Inr Nothing),
        rmap (RowItem ''Caller'') (address_link A pathname (et_from info) None),
        rmap (RowItem ''Contract'')
          (case et_to info of
             None \<Rightarrow> Inr Nothing
           | Some a \<Rightarrow> if a = [] then Inr (Text []) else address_link A pathname a None),
        rmap (\<lambda>i. RowItem ''Method'' (Text (take 10 i))) (of_opt TypeError (et_input info)),
        Inr (RowItem ''Input''
          (case truthy (et_input info) of
             Some i \<Rightarrow> if i \<noteq> ''0x'' then TextField i else Tag ''i'' [] [Text ''none'']
           | None \<Rightarrow> Tag ''i'' [] [Text ''none''])),
        rbind (of_opt TypeError (et_value info)) (\<lambda>v.
          rbind (fromHexStringToEthereumValue B v) (\<lambda>x.
            rmap (\<lambda>s. RowItem ''Tx Value'' (Text s)) (formatNumber B (FromString x)))),
        gas_price_row B (et_gasPrice info)])"

fun TxMode_number :: "TxMode \<Rightarrow> string" where
  "TxMode_number COSMOS = ''0''"
| "TxMode_number EVM_GENERAL_TRANSFER = ''1''"
| "TxMode_number EVM_CONTRACT_CALL = ''2''"
| "TxMode_number EVM_CONTRACT_DEPLOY = ''3''"

text \<open>What the hooks of \<open>EvmDetailsGeneralTransfer\<close> hold is the record \<open>chain_data\<close>.\<close>

record chain_data =
  cd_chainInfo :: "chainInfo option"
  cd_chainInfoLoading :: bool
  cd_denomsMetadata :: denomsMetadata
  cd_denomsMetadataLoading :: bool

definition EvmDetails ::
    "addr_ops \<Rightarrow> 'b big_ops \<Rightarrow> string \<Rightarrow> chain_data \<Rightarrow> transaction \<Rightarrow> view result" where
  "EvmDetails A B pathname H t =
     (case tx_evmTx t of
        None \<Rightarrow> Inr (Text ''Error: no EVM tx details to show'')
      | Some info \<Rightarrow>
          (case tx_evmReceipt t of
             None \<Rightarrow> Inr (Text ''Error: no EVM receipt details'')
           | Some receipt \<Rightarrow>
               (case tx_mode t of
                  Some EVM_GENERAL_TRANSFER \<Rightarrow>
                    EvmDetailsGeneralTransfer A B pathname info (cd_chainInfo H) (cd_chainInfoLoading H)
                      (cd_denomsMetadata H) (cd_denomsMetadataLoading H)
                | Some EVM_CONTRACT_CALL \<Rightarrow>
                    EvmDetailsContractCall A B pathname info receipt (tx_evmContractAddressToErc20ContractInfo t)
                | Some EVM_CONTRACT_DEPLOY \<Rightarrow>
                    EvmDetailsDeployContract A B pathname info receipt (tx_evmContractAddressToErc20ContractInfo t)
                | other \<Rightarrow> Inr (Text (''Unknown EVM Tx mode '' @
                    (case other of Some m \<Rightarrow> TxMode_number m | None \<Rightarrow> ''undefined''))))))"

section \<open>The receipt\<close>

definition EvmReceiptDetails :: "addr_ops \<Rightarrow> 'b big_ops \<Rightarrow> string \<Rightarrow> transaction \<Rightarrow> view result" where
  "EvmReceiptDetails A B pathname t =
     (case tx_evmReceipt t of
        None \<Rightarrow> Inr Nothing
      | Some r \<Rightarrow>
          rmap ItemContainer (rmap_list (\<lambda>r. r)
            [rmap (RowItem ''From'') (address_link A pathname (er_from r) None),
             (case truthy (er_to r) of
                Some a \<Rightarrow> rmap (RowItem ''To'') (address_link A pathname a None) | None \<Rightarrow> Inr Nothing),
             (case truthy (er_contractAddress r) of
                Some a \<Rightarrow> rmap (RowItem ''New Contract Address'') (address_link A pathname a None)
              | None \<Rightarrow> Inr Nothing),
             Inr (RowItem ''Status'' (Text (er_status r))),
             (if er_cumulativeGasUsed r \<noteq> []
              then rbind (hexToDec (er_cumulativeGasUsed r)) (\<lambda>d.
                rmap (\<lambda>s. RowItem ''Cummulative Gas Used'' (Text s)) (formatNumber B (FromString d)))
              else Inr Nothing),
             (if er_effectiveGasPrice r \<noteq> []
              then rmap (\<lambda>s. RowItem ''Effective Gas Price'' (Text s))
                     (fromHexStringToEthereumGasPriceValue B (er_effectiveGasPrice r))
              else Inr Nothing),
             rbind (hexToDec (er_gasUsed r)) (\<lambda>d.
               rmap (\<lambda>s. RowItem ''Gas Used'' (Text s)) (formatNumber B (FromString d))),
             Inr (RowItem ''Type'' (Text (er_type r)))]))"

section \<open>The event logs\<close>

definition topic_TRANSFER_SINGLE :: string where
  [cfg_defs]: "topic_TRANSFER_SINGLE = ''0xc3d58168c5ae7397731d063d5bbf3d657854427343f4c083240f7aacaa2d0f62''"

definition topic_TRANSFER_BATCH :: string where
  [cfg_defs]: "topic_TRANSFER_BATCH = ''0x4a39dc06d4c0dbc64b70af90fd698a233a518aa5d07e595d983b8c0526c8f7fb''"

definition getShortenedTopic :: "string option \<Rightarrow> view result" where
  "getShortenedTopic topic =
     rmap (\<lambda>t.
         if t = topic_TRANSFER then Text ''Transfer''
         else if t = topic_APPROVAL then Text ''Approval''
         else if t = topic_TRANSFER_SINGLE then Text ''TransferSingle''
         else if t = topic_TRANSFER_BATCH then Text ''TransferBatch''
         else Tag ''Tooltip'' [(''title'', t)] [Tag ''span'' [] [Text (take 10 t @ ''...'')]])
       (of_opt TypeError topic)"

definition topic_row :: "string \<times> nat \<Rightarrow> view" where
  "topic_row = (\<lambda>(topic, idx).
     Tag ''Grid'' []
       [Tag ''Grid'' [] [Typography [Text (''topic'' @ show_nat idx)]],
        Tag ''Grid'' [] [Typography [Text topic]]])"

definition renderTopicsAndData ::
    "addr_ops \<Rightarrow> 'b big_ops \<Rightarrow> string \<Rightarrow> contracts \<Rightarrow> evmLog \<Rightarrow> view result" where
  "renderTopicsAndData A B pathname contracts lg =
     rbind (translateEvmLogIfPossible B (log_topics lg) (log_data lg) (log_address lg) contracts) (\<lambda>translated.
       case translated of
         None \<Rightarrow> Inr (Frag
           [Frag (map topic_row (zip (log_topics lg) [0..<length (log_topics lg)])),
            RowItem ''Data'' (TextField (log_data lg))])
       | Some tr \<Rightarrow>
           rbind (address_link A pathname (tl_from tr) None) (\<lambda>from_link.
           rmap (\<lambda>to_link. Frag
               [RowItem ''Action'' (Text (tl_action tr)),
                RowItem ''From'' from_link, RowItem ''To'' to_link,
                RowItem ''Amount''
                  (if tl_isRawAmount tr then Frag [Text ''(Raw) '', Text (tl_amount tr)]
                   else Frag [Text (tl_amount tr), Text '' '', Text (contract_symbol contracts (log_address lg))])])
             (address_link A pathname (tl_to tr) None)))"

definition log_view ::
    "addr_ops \<Rightarrow> 'b big_ops \<Rightarrow> string \<Rightarrow> contracts \<Rightarrow> evmLog \<times> nat \<Rightarrow> view result" where
  "log_view A B pathname contracts = (\<lambda>(lg, idx).
     rbind (case truthy (Option.bind (contract_at contracts (log_address lg)) ec_name) of
              Some n \<Rightarrow> Inr n | None \<Rightarrow> eth_getAddress A (log_address lg)) (\<lambda>contractNameOrAddress.
     rbind (getShortenedTopic (case log_topics lg of [] \<Rightarrow> None | t # _ \<Rightarrow> Some t)) (\<lambda>topic.
     rbind (address_link A pathname (log_address lg) (Some contractNameOrAddress)) (\<lambda>contract_link.
     rmap (\<lambda>body.
         Tag ''Accordion'' [(''defaultExpanded'', if idx \<le> 10 then ''true'' else ''false'')]
           [Tag ''AccordionSummary'' []
              [Tag ''b'' [] [Text ''['', num_view (toNumber (log_logIndex lg)), Text ''] '', Text contractNameOrAddress,
                 Text '' emits '', topic]],
            Tag ''AccordionDetails'' []
              [ItemContainer [RowItem ''Contract'' contract_link, body,
                 RowItem ''Log Index'' (num_view (toNumber (log_logIndex lg)))]]])
       (renderTopicsAndData A B pathname contracts lg)))))"

definition EvmEventLogs :: "addr_ops \<Rightarrow> 'b big_ops \<Rightarrow> string \<Rightarrow> transaction \<Rightarrow> view result" where
  "EvmEventLogs A B pathname t =
     (case tx_evmReceipt t of
        None \<Rightarrow> Inr Nothing
      | Some r \<Rightarrow>
          rbind (of_opt TypeError (er_logs r)) (\<lambda>ls.
            frag_of (map (log_view A B pathname (tx_evmContractAddressToErc20ContractInfo t)) (zip ls [0..<length ls]))))"

section \<open>The chosen tab\<close>

definition DefaultLoading :: view where
  "DefaultLoading = Tag ''Box'' [] [Tag ''CircularProgress'' [] []]"

definition tab_content ::
    "addr_ops \<Rightarrow> 'b big_ops \<Rightarrow> string \<Rightarrow> chain_data \<Rightarrow> transaction \<Rightarrow> TabValue option \<Rightarrow> view result" where
  "tab_content A B pathname H t tab =
     (case tab of
        Some COSMOS_EVENT_LOGS \<Rightarrow> CosmosEventLogs B (cd_denomsMetadata H) t
      | Some EVM_DETAILS \<Rightarrow> EvmDetails A B pathname H t
      | Some EVM_RECEIPT \<Rightarrow> EvmReceiptDetails A B pathname t
      | Some EVM_EVENT_LOGS \<Rightarrow> EvmEventLogs A B pathname t
      | _ \<Rightarrow> Messages pathname t)"

fun TabValue_number :: "TabValue \<Rightarrow> nat" where
  "TabValue_number MESSAGES = 0"
| "TabValue_number COSMOS_EVENT_LOGS = 1"
| "TabValue_number EVM_DETAILS = 2"
| "TabValue_number EVM_RECEIPT = 3"
| "TabValue_number EVM_EVENT_LOGS = 4"

definition TransactionData ::
    "addr_ops \<Rightarrow> 'b big_ops \<Rightarrow> string \<Rightarrow> chain_data \<Rightarrow> transaction option \<Rightarrow> TabValue option \<Rightarrow> view result" where
  "TransactionData A B pathname H transaction currentTab =
     (case transaction of
        None \<Rightarrow> Inr (Card [DefaultLoading])
      | Some t \<Rightarrow>
          (let transactionType = getTransactionType t;
               tab = tabValue transactionType currentTab
           in rmap (\<lambda>content. Card
                [Tag ''Box'' [] [Tag ''Tabs'' [(''value'', case tab of Some v \<Rightarrow> show_nat (TabValue_number v) | None \<Rightarrow> [])]
                   (map (\<lambda>(label, v). Tag ''Tab'' [(''label'', label), (''value'', show_nat (TabValue_number v))] [])
                      (getTabsByTransaction t transactionType))],
                 Tag ''Box'' [] [content]])
              (tab_content A B pathname H t tab)))"

text \<open>The page of a transaction: its summary, and its data below.\<close>

definition TransactionPage ::
    "addr_ops \<Rightarrow> 'b big_ops \<Rightarrow> (int \<Rightarrow> int \<Rightarrow> string) \<Rightarrow> string \<Rightarrow> string \<Rightarrow> chain_data \<Rightarrow> transaction option \<Rightarrow> bool \<Rightarrow>
     TabValue option \<Rightarrow> view option result" where
  "TransactionPage A B percent pathname txHash H transactionDetail loading currentTab =
     rbind (TransactionDetailPage B percent pathname txHash transactionDetail loading) (\<lambda>summary.
       case summary of
         None \<Rightarrow> Inr None
       | Some summary_card \<Rightarrow>
           rmap (\<lambda>tabs. Some (Frag [summary_card, tabs])) (TransactionData A B pathname H transactionDetail currentTab))"

text \<open>The clicks on the tabs.\<close>

definition click_tab :: "TabValue \<Rightarrow> TabValue option \<Rightarrow> TabValue option" where
  "click_tab newValue currentTab = Some newValue"

section \<open>Facts\<close>

lemma rmap_list_fails: "x \<in> set xs \<Longrightarrow> f x = Inl e \<Longrightarrow> \<exists>e'. rmap_list f xs = Inl e'"
  by (induction xs) (auto simp: rbind_def rmap_def split: sum.splits)

lemma call_without_input:
  assumes "et_input info = None"
  shows "\<exists>e. EvmDetailsContractCall A B pathname info receipt contracts = Inl e"
proof -
  have "rmap (\<lambda>i. RowItem ''Method'' (Text (take 10 i))) (of_opt TypeError (et_input info)) = Inl TypeError"
    using assms by simp
  from rmap_list_fails [where f = "\<lambda>r. r", OF _ this] show ?thesis
    unfolding EvmDetailsContractCall_def rmap_eq_Inl by (simp del: rmap_list.simps)
qed

lemma concat_links_packets:
  "concat (map view_links (map eIBC_link (zip es [k..<k + length es]))) =
   map (\<lambda>e. DYM_ESCAN_URL @ ''/eibc/'' @ ep_port e @ ''/'' @ ep_channel e @ ''/'' @ ep_sequence e) es"
proof (induction es arbitrary: k)
  case (Cons e es)
  from Cons.IH [of "Suc k"] show ?case by (simp add: eIBC_link_def view_simps upt_conv_Cons del: upt_Suc)
qed simp

section \<open>Properties\<close>

text \<open>
  C29: The tab that is shown is always one the transaction offers: at first one of its own kind, and
  after clicks on offered tabs the last that was clicked, although the number of the tab of the
  messages is falsy.
\<close>

theorem tab_is_offered:
  assumes "set clicks \<subseteq> snd ` set (getTabsByTransaction t (getTransactionType t))"
  shows "\<exists>v. tabValue (getTransactionType t) (foldl (\<lambda>c v. click_tab v c) None clicks) = Some v \<and>
    v \<in> snd ` set (getTabsByTransaction t (getTransactionType t)) \<and> (clicks \<noteq> [] \<longrightarrow> v = last clicks)"
proof (cases clicks rule: rev_cases)
  case Nil
  then show ?thesis
    by (auto simp: tabValue_def getDefaultTabValue_def getTabsByTransaction_def getTransactionType_def
        split: option.splits TxMode.splits)
next
  case (snoc cs c)
  then have c: "c \<in> snd ` set (getTabsByTransaction t (getTransactionType t))" using assms by simp
  have "c = MESSAGES \<Longrightarrow> getTransactionType t = ''cosmos''"
    using c by (auto simp: getTabsByTransaction_def getTransactionType_def split: option.splits TxMode.splits list.splits if_splits)
  then show ?thesis
    using c snoc by (cases c) (auto simp: tabValue_def click_tab_def getDefaultTabValue_def)
qed

lemma tab_is_offered_witness:
  "\<exists>v. tabValue (getTransactionType sample_tx)
      (foldl (\<lambda>c v. click_tab v c) None [COSMOS_EVENT_LOGS, MESSAGES]) = Some v \<and>
    v \<in> snd ` set (getTabsByTransaction sample_tx (getTransactionType sample_tx)) \<and> v = MESSAGES"
proof -
  have "set [COSMOS_EVENT_LOGS, MESSAGES] \<subseteq> snd ` set (getTabsByTransaction sample_tx (getTransactionType sample_tx))"
    by (simp add: sample_tx_def getTransactionType_def getTabsByTransaction_def)
  from tab_is_offered [OF this] show ?thesis by simp
qed

text \<open>
  A transaction with EVM logs whose input the node left out cannot be shown: it is classified as
  a call of a contract, and the details of a call read the first characters of the input without
  asking whether there is one.
\<close>

theorem call_without_input_fails:
  assumes "tx_evmTx t = Some info" and "tx_evmReceipt t = Some receipt" and "er_logs receipt = Some (l # ls)"
    and "truthy_str (et_to info)" and "et_input info = None" and "classify ask t = Inr t'"
  shows "\<exists>e. TransactionData A B pathname H (Some t') None = Inl e"
proof -
  have mode: "fst (mode_and_contracts info receipt) = EVM_CONTRACT_CALL"
    using assms(3,4) by (simp add: mode_and_contracts_def has_logs_def)
  have "tx_mode t' = Some EVM_CONTRACT_CALL \<and> tx_evmTx t' = Some info \<and> tx_evmReceipt t' = Some receipt"
    using assms(6) unfolding classify_evm [OF assms(1-3)] mode
    by (auto simp: add_contracts_def result_simps assms(1,2) split: if_splits)
  moreover obtain e where
    "EvmDetailsContractCall A B pathname info receipt (tx_evmContractAddressToErc20ContractInfo t') = Inl e"
    using call_without_input [OF assms(5)] by blast
  ultimately have "TransactionData A B pathname H (Some t') None = Inl e"
    by (simp add: TransactionData_def Let_def getTransactionType_def tabValue_def getDefaultTabValue_def
        tab_content_def EvmDetails_def)
  then show ?thesis by blast
qed

definition no_chain_data :: chain_data where
  "no_chain_data = \<lparr>cd_chainInfo = None, cd_chainInfoLoading = False, cd_denomsMetadata = [],
     cd_denomsMetadataLoading = False\<rparr>"

lemma call_without_input_fails_witness:
  "\<exists>t' e. classify (\<lambda>_. Inr sample_answers) sample_call = Inr t' \<and>
    TransactionData plain_codec dec_ops ''/nim/tx/ab'' no_chain_data (Some t') None = Inl e"
proof -
  let ?receipt = "sample_receipt\<lparr>er_logs := Some sample_logs\<rparr>"
  have "\<not> isl (classify (\<lambda>_. Inr sample_answers) sample_call)" by code_simp
  then obtain t' where t': "classify (\<lambda>_. Inr sample_answers) sample_call = Inr t'"
    by (cases "classify (\<lambda>_. Inr sample_answers) sample_call") auto
  have "tx_evmTx sample_call = Some sample_evmTx" "tx_evmReceipt sample_call = Some ?receipt"
    "er_logs ?receipt = Some (hd sample_logs # tl sample_logs)" "truthy_str (et_to sample_evmTx)" "et_input sample_evmTx = None"
    by (simp_all add: sample_call_def sample_logs_def sample_evmTx_def truthy_str_def)
  from call_without_input_fails [OF this t'] t' show ?thesis by blast
qed

text \<open>
  The page of a successful transfer over IBC links to its block in the rollapp and to every
  packet of a fast withdrawal on the hub's explorer, in the order of the events, and to nothing else.
\<close>

theorem eibc_packets_linked:
  assumes "list_all not_slash seg" and "seg \<noteq> []" and "rest = [] \<or> startsWith rest ''/''"
    and "tx_msgs t = Some msgs" and "m \<in> set msgs" and "msg_type m = MsgTransfer" and "tx_result t = Some r"
    and "TransactionDetailPage B percent (''/'' @ seg @ rest) txHash (Some t) False = Inr (Some v)"
  shows "view_links v = (''/'' @ seg @ ''/block/'' @ show_int (tx_height t)) #
    map (\<lambda>e. DYM_ESCAN_URL @ ''/eibc/'' @ ep_port e @ ''/'' @ ep_channel e @ ''/'' @ ep_sequence e)
      (List.map_filter eIBC_of (res_events r))"
proof -
  let ?es = "List.map_filter eIBC_of (res_events r)"
  have "list_ex (\<lambda>m. msg_type m = MsgTransfer) msgs" using assms(5,6) by (auto simp: list_ex_iff)
  then have es: "eIBC_packets (Some t) = Inr ?es" using assms(4,7) by (simp add: eIBC_packets_def)
  have links: "concat (map view_links (map eIBC_link (zip ?es [0..<length ?es]))) =
      map (\<lambda>e. DYM_ESCAN_URL @ ''/eibc/'' @ ep_port e @ ''/'' @ ep_channel e @ ''/'' @ ep_sequence e) ?es"
    using concat_links_packets [of ?es 0] by simp
  obtain a b c where v: "v = Card [Tag ''Grid'' []
      ([DetailItem ''Transaction Hash'' (Frag [hash_view (tx_hash t), if txHash \<noteq> tx_hash t then hash_view txHash else Nothing]) False,
        DetailItem ''Status'' (getStatusDisplay (res_success r)) False,
        DetailItem ''Block'' (LinkToBlockNo (''/'' @ seg @ rest) (Digits (show_int (tx_height t)))) False,
        DetailItem ''Gas Usage & Limit'' (Typography [Text a, Text '' | '', Text b, Text '' ('', Text c, Text ''%)'']) False] @
       (if ?es \<noteq> [] then [DetailItem ''eIBC'' (Frag (map eIBC_link (zip ?es [0..<length ?es]))) False] else []))]"
    using assms(8) by (auto simp: TransactionDetailPage_def es assms(7) result_simps Let_def)
  have item: "view_links (DetailItem l w False) = view_links w" for l w
    by (simp add: DetailItem_def in_typography_def Typography_def split: view.splits)
  show ?thesis
    unfolding v using links by (simp add: item new_path_eq [OF assms(1-3), simplified] Card_def hash_view_def Typography_def CopyButton_def
        CopyButton_view_def getStatusDisplay_def Chip_def del: map_map)
qed

definition sample_packet :: event where
  "sample_packet = \<lparr>ev_type = ''send_packet'', ev_attributes =
     [\<lparr>attr_key = ''packet_data'', attr_value = ''eibc''\<rparr>, \<lparr>attr_key = ''packet_dst_port'', attr_value = ''transfer''\<rparr>,
      \<lparr>attr_key = ''packet_dst_channel'', attr_value = ''channel-0''\<rparr>, \<lparr>attr_key = ''packet_sequence'', attr_value = ''7''\<rparr>]\<rparr>"

definition sample_transfer :: transaction where
  "sample_transfer = sample_tx\<lparr>
     tx_msgs := Some [\<lparr>msg_content = JNull, msg_idx = 0, msg_type = MsgTransfer, msg_protoContent = JNull\<rparr>],
     tx_result := Some \<lparr>res_code = 0, res_events = [sample_packet], res_gas = \<lparr>gas_limit = 2, gas_used = 1\<rparr>,
       res_success = True\<rparr>\<rparr>"

lemma eibc_packets_linked_witness:
  "\<exists>v. TransactionDetailPage dec_ops (\<lambda>_ _. ''50'') (''/'' @ ''nim'' @ ''/tx/ab'') ''ab'' (Some sample_transfer) False = Inr (Some v) \<and>
    view_links v = [''/nim/block/'' @ show_int 5, ''https://dym.fyi/eibc/transfer/channel-0/7'']"
proof -
  let ?msg = "\<lparr>msg_content = JNull, msg_idx = 0, msg_type = MsgTransfer, msg_protoContent = JNull\<rparr>"
  let ?r = "\<lparr>res_code = 0, res_events = [sample_packet], res_gas = \<lparr>gas_limit = 2, gas_used = 1\<rparr>, res_success = True\<rparr>"
  have seg: "list_all not_slash ''nim''" by (simp add: not_slash_def)
  have t: "tx_msgs sample_transfer = Some [?msg]" "?msg \<in> set [?msg]" "msg_type ?msg = MsgTransfer"
    "tx_result sample_transfer = Some ?r"
    by (simp_all add: sample_transfer_def)
  obtain v where v: "TransactionDetailPage dec_ops (\<lambda>_ _. ''50'') (''/'' @ ''nim'' @ ''/tx/ab'') ''ab'' (Some sample_transfer) False =
      Inr (Some v)"
    by (simp add: TransactionDetailPage_def eIBC_packets_def t(1,4) Let_def formatNumber_def)
  have packet: "eIBC_of sample_packet = Some \<lparr>ep_port = ''transfer'', ep_channel = ''channel-0'', ep_sequence = ''7''\<rparr>"
    by code_simp
  from eibc_packets_linked [OF seg _ _ t v] v show ?thesis
    by (simp add: packet List.map_filter_simps sample_transfer_def sample_tx_def DYM_ESCAN_URL_def)
qed

end
