(* ===== verification/Governance.thy ===== *)
theory Governance
  imports TxView Table FetchHook
begin

text \<open>
  Proposals and parameters: \<open>web-app/src/components/client/governance\<close>, \<open>client/params/ParamsPage.tsx\<close>,
  \<open>utils/governance.ts\<close> and \<open>utils/proposal.ts\<close>.
\<close>

section \<open>Status and title\<close>

definition getProposalStatusColor :: "string \<Rightarrow> string" where
  "getProposalStatusColor status =
     (if status = ProposalStatus_text PROPOSAL_STATUS_REJECTED then ''error.main''
      else if status = ProposalStatus_text PROPOSAL_STATUS_PASSED then ''success.main''
      else if status = ProposalStatus_text PROPOSAL_STATUS_FAILED then ''grey''
      else if status = ProposalStatus_text PROPOSAL_STATUS_VOTING_PERIOD then ''info.main''
      else if status = ProposalStatus_text PROPOSAL_STATUS_DEPOSIT_PERIOD then ''warning.main''
      else ''text.primary'')"

definition all_statuses :: "ProposalStatus list" where
  "all_statuses = [PROPOSAL_STATUS_UNSPECIFIED, PROPOSAL_STATUS_DEPOSIT_PERIOD, PROPOSAL_STATUS_VOTING_PERIOD,
     PROPOSAL_STATUS_PASSED, PROPOSAL_STATUS_REJECTED, PROPOSAL_STATUS_FAILED, UNRECOGNIZED]"

text \<open>The text of a status the table does not list is \<open>undefined\<close>, whose method throws.\<close>

definition ProposalStatusText :: "string \<Rightarrow> view result" where
  "ProposalStatusText status =
     rmap (\<lambda>display. Tag ''Typography'' [(''color'', getProposalStatusColor status)]
         [if status = ProposalStatus_text PROPOSAL_STATUS_VOTING_PERIOD
          then Frag [Tag ''CircularProgress'' [] [], Text '' ''] else Nothing,
          Text (toUpperCase display)])
       (of_opt TypeError (map_option PROPOSAL_STATUS_DISPLAY (List.find (\<lambda>s. ProposalStatus_text s = status) all_statuses)))"

definition getProposalTitle :: "govProposal option \<Rightarrow> string result" where
  "getProposalTitle proposal =
     (case proposal of
        None \<Rightarrow> Inr []
      | Some p \<Rightarrow>
          (case gp_messages p of
             [] \<Rightarrow> Inl TypeError
           | m # _ \<Rightarrow>
               (let c = gm_protoContent m;
                    title = (case Option.bind (pro_plan c) up_name of Some t \<Rightarrow> t | None \<Rightarrow> []);
                    title = (if title = [] then (case Option.bind (pro_content c) prc_title of Some t \<Rightarrow> t | None \<Rightarrow> [])
                             else title)
                in Inr title)))"

section \<open>Votes\<close>

text \<open>\<open>new Big(yes).add(no).add(noWithVeto).add(abstain)\<close> and its partial sums.\<close>

definition tally_sums :: "'b big_ops \<Rightarrow> tallyResult \<Rightarrow> ('b \<times> 'b \<times> 'b \<times> 'b) result" where
  "tally_sums B r =
     rbind (new_big B (tr_yes r)) (\<lambda>yes.
     rbind (new_big B (tr_no r)) (\<lambda>no.
     rbind (new_big B (tr_noWithVeto r)) (\<lambda>veto.
     rmap (\<lambda>abstain.
         (let yesWithNo = big_add B yes no;
              yesWithNoWithNoWithVeto = big_add B yesWithNo veto
          in (yes, yesWithNo, yesWithNoWithNoWithVeto, big_add B yesWithNoWithNoWithVeto abstain)))
       (new_big B (tr_abstain r)))))"

definition percent_of :: "'b big_ops \<Rightarrow> 'b \<Rightarrow> 'b \<Rightarrow> 'b result" where
  "percent_of B x total_votes = rmap (\<lambda>q. big_mul B q (big_int B 100)) (div_big B x total_votes)"

definition getLinearGradientPercent :: "'b big_ops \<Rightarrow> govProposal \<Rightarrow> string list result" where
  "getLinearGradientPercent B proposal =
     rbind (tally_sums B (gp_finalTallyResult proposal)) (\<lambda>(yes, yesWithNo, yesWithNoWithNoWithVeto, total_votes).
       if big_cmp B total_votes (big_int B 0) = 0 then Inr (replicate 5 ''0'')
       else
         rbind (rmap (big_str B) (percent_of B yes total_votes)) (\<lambda>a.
         rbind (rmap (big_str B) (percent_of B yesWithNo total_votes)) (\<lambda>c.
         rmap (\<lambda>d. [a, a, c, d]) (rmap (big_str B) (percent_of B yesWithNoWithNoWithVeto total_votes)))))"

text \<open>The loop that finds the first of the greatest.\<close>

definition max_index :: "'b big_ops \<Rightarrow> 'b list \<Rightarrow> nat" where
  "max_index B votes = foldl (\<lambda>mx i. if 0 < big_cmp B (votes ! i) (votes ! mx) then i else mx) 0 [1..<4]"

definition voting_values :: "'b big_ops \<Rightarrow> tallyResult \<Rightarrow> ('b list \<times> nat) option result" where
  "voting_values B r =
     rbind (tally_sums B r) (\<lambda>(yes, yesWithNo, yesWithNoWithNoWithVeto, total_votes).
     if big_cmp B total_votes (big_int B 0) = 0 then Inr None
     else
       rbind (new_big B (tr_no r)) (\<lambda>no.
       rbind (new_big B (tr_noWithVeto r)) (\<lambda>veto.
       rbind (new_big B (tr_abstain r)) (\<lambda>abstain.
       rbind (percent_of B yes total_votes) (\<lambda>a.
       rbind (percent_of B no total_votes) (\<lambda>b.
       rmap (\<lambda>c.
           (let a = big_round B 2 a; b = big_round B 2 b; c = big_round B 2 c;
                d = big_round B 2 (big_sub B (big_sub B (big_sub B (big_int B 100) a) b) c)
            in Some ([a, b, c, d], max_index B [yes, no, veto, abstain])))
         (percent_of B veto total_votes)))))))"

text \<open>\<open>None\<close> is \<open>maxId\<close> -1.\<close>

definition getVotingPercent :: "'b big_ops \<Rightarrow> govProposal option \<Rightarrow> (string list \<times> nat option) result" where
  "getVotingPercent B proposal =
     (let defaultResult = (replicate 4 ''0'', None) in
      case proposal of
        None \<Rightarrow> Inr defaultResult
      | Some p \<Rightarrow>
          rbind (voting_values B (gp_finalTallyResult p)) (\<lambda>v.
            case v of
              None \<Rightarrow> Inr defaultResult
            | Some (values, maxId) \<Rightarrow>
                rmap (\<lambda>texts. (texts, Some maxId)) (rmap_list (\<lambda>x. formatNumber B (FromBig x)) values)))"

definition vote_chip :: "string \<Rightarrow> string \<Rightarrow> bool \<Rightarrow> string \<Rightarrow> view" where
  "vote_chip label color filled pct =
     Tag ''Chip'' [(''color'', color), (''variant'', if filled then ''filled'' else ''outlined'')]
       [Text (label @ '' ''), Tag ''strong'' [] [Text pct, Text ''%'']]"

definition getVotingResult :: "'b big_ops \<Rightarrow> govProposal option \<Rightarrow> view result" where
  "getVotingResult B proposal =
     (if proposal = None then Inr (Text [])
      else
        rmap (\<lambda>(pcts, maxId). Frag
            [vote_chip ''Yes'' ''success'' (maxId = Some 0) (pcts ! 0),
             vote_chip ''No'' ''error'' (maxId = Some 1) (pcts ! 1),
             vote_chip ''No with veto'' ''warning'' (maxId = Some 2) (pcts ! 2),
             vote_chip ''Abstain'' ''info'' (maxId = Some 3) (pcts ! 3)])
          (getVotingPercent B proposal))"

section \<open>One proposal\<close>

definition deposit_row :: "'b big_ops \<Rightarrow> denomsMetadata \<Rightarrow> string \<times> string \<Rightarrow> view result" where
  "deposit_row B dmeta = (\<lambda>(denom, amount).
     case obj_get dmeta denom of
       None \<Rightarrow> rmap (\<lambda>s. Typography [Text s, Text '' '', Text (toUpperCase denom)])
                 (formatBlockchainAmount B (Some (FromString amount)) 0 None)
     | Some m \<Rightarrow> rmap (\<lambda>s. Typography [Text s, Text '' '', Text (dm_symbol m)])
                 (formatBlockchainAmount B (Some (FromString amount)) (dm_highestExponent m) None))"

definition depositBalances :: "'b big_ops \<Rightarrow> denomsMetadata \<Rightarrow> govProposal option \<Rightarrow> view list result" where
  "depositBalances B dmeta proposal =
     (case proposal of None \<Rightarrow> Inr [] | Some p \<Rightarrow> rmap_list (deposit_row B dmeta) (gp_totalDeposit p))"

text \<open>
  \<open>messages_json\<close> is \<open>JSON.stringify(proposal.messages, null, 4)\<close>: the order of the fields is the
  node's, which the record does not keep.
\<close>

definition GovernanceDetail ::
    "'b big_ops \<Rightarrow> date_ops \<Rightarrow> (govMessage list \<Rightarrow> string) \<Rightarrow> string \<Rightarrow> govProposal option \<Rightarrow> bool \<Rightarrow> denomsMetadata \<Rightarrow>
     view result" where
  "GovernanceDetail B D messages_json param_id proposal loading dmeta =
     (let shown = (\<lambda>f. case proposal of None \<Rightarrow> Nothing | Some p \<Rightarrow> Text (f p)) in
      rbind (getProposalTitle proposal) (\<lambda>title.
      rbind (depositBalances B dmeta proposal) (\<lambda>deposits.
      rbind (case proposal of None \<Rightarrow> Inr (Text ''-'') | Some p \<Rightarrow> ProposalStatusText (gp_status p)) (\<lambda>status.
      rmap (\<lambda>voting_result. Frag
          [PageTitle (Text (''#'' @ num_text (parseInt param_id) @ (if title = [] then [] else ''. '' @ title))) Nothing,
           Card [Tag ''Grid'' []
             [DetailItem ''Status'' status loading,
              DetailItem ''Voting Result'' voting_result loading,
              DetailItem ''Deposit End Time'' (shown (\<lambda>p. formatUnixTime D (gp_depositEndTimeEpochUTC p))) loading,
              DetailItem ''Total Deposit'' (Frag deposits) loading,
              DetailItem ''Voting Start Time'' (shown (\<lambda>p. formatUnixTime D (gp_votingStartTimeEpochUTC p))) loading,
              DetailItem ''Voting End Time'' (shown (\<lambda>p. formatUnixTime D (gp_votingEndTimeEpochUTC p))) loading,
              DetailItem ''Metadata'' (shown gp_metadata) loading,
              DetailItem ''Message'' (TextField (case proposal of None \<Rightarrow> [] | Some p \<Rightarrow> messages_json (gp_messages p))) loading]]])
        (getVotingResult B proposal)))))"

section \<open>The list\<close>

definition proposal_href :: "string \<Rightarrow> govProposal \<Rightarrow> string" where
  "proposal_href pathname p = getNewPathByRollapp pathname (Path_text PROPOSAL) @ ''/'' @ show_int (gp_id p)"

definition gradient_text :: "string list \<Rightarrow> string" where
  "gradient_text vp =
     ''-webkit-linear-gradient(left, #66bb6a '' @ vp ! 0 @ ''%, #d32f2f '' @ vp ! 1 @ ''% '' @ vp ! 2 @
     ''%, #ce93d8 '' @ vp ! 2 @ ''% '' @ vp ! 3 @ ''%, grey '' @ vp ! 3 @ ''%)''"

definition ProposalItem :: "'b big_ops \<Rightarrow> date_ops \<Rightarrow> string \<Rightarrow> govProposal \<Rightarrow> view result" where
  "ProposalItem B D pathname p =
     rbind (getLinearGradientPercent B p) (\<lambda>vp.
     rbind (ProposalStatusText (gp_status p)) (\<lambda>status.
     rmap (\<lambda>title.
         Tag ''CardActionArea'' [(''href'', proposal_href pathname p)] [Tag ''Paper'' [] [Tag ''Grid'' []
           [Tag ''Grid'' [] [status],
            Tag ''Grid'' [] [Typography (map (\<lambda>ty. Chip ''default'' (Text (getPrototypeFromTypeUrl ty)))
              (js_set (map gm_type (gp_messages p))))],
            Tag ''Grid'' [] [Typography [Tag ''b'' [] [Text (''#'' @ show_int (gp_id p) @ '' '' @ title)]]],
            Tag ''Grid'' [] [Typography [Text ''Voting end on '',
              Tag ''StyledSpan'' [] [Text (formatUnixTime D (gp_votingEndTimeEpochUTC p))]]],
            Tag ''Grid'' [] [Tag ''LinearProgress'' [(''background'', gradient_text vp)] []]]]])
       (getProposalTitle (Some p))))"

definition ProposalLoadingItem :: view where
  "ProposalLoadingItem =
     Tag ''Paper'' [] [Tag ''Grid'' [] (replicate 5 (Tag ''Grid'' [] [Skeleton]))]"

definition getLoadingItems :: "nat \<Rightarrow> view list" where
  "getLoadingItems n = replicate n ProposalLoadingItem"

definition GOV_PAGE_SIZE :: nat where
  [cfg_defs]: "GOV_PAGE_SIZE = 20"

definition gov_page :: "searchParams \<Rightarrow> jsnum" where
  "gov_page searchParams =
     (let pageInt = parseInt (case params_get searchParams PAGE_PARAM_NAME of Some (c # s) \<Rightarrow> c # s | _ \<Rightarrow> ''0'')
      in if isNaN pageInt then Num 0 else pageInt)"

definition is_live :: "govProposal \<Rightarrow> bool" where
  "is_live p \<longleftrightarrow> gp_status p = ProposalStatus_text PROPOSAL_STATUS_VOTING_PERIOD"

text \<open>Newest first; the fold appends each to one of two lists.\<close>

definition split_proposals :: "govProposals option \<Rightarrow> govProposal list \<times> govProposal list" where
  "split_proposals govProposals =
     (case govProposals of
        None \<Rightarrow> ([], [])
      | Some g \<Rightarrow>
          foldl (\<lambda>(r1, r2) proposal. if is_live proposal then (r1 @ [proposal], r2) else (r1, r2 @ [proposal]))
            ([], []) (js_sort (\<lambda>a b. gp_id b - gp_id a) (map snd (gps_proposals g))))"

definition next_disabled :: "govProposal list \<Rightarrow> bool" where
  "next_disabled allProposals \<longleftrightarrow> allProposals = [] \<or> gp_id (last allProposals) = 1"

definition proposal_items ::
    "'b big_ops \<Rightarrow> date_ops \<Rightarrow> string \<Rightarrow> bool \<Rightarrow> nat \<Rightarrow> string \<Rightarrow> govProposal list \<Rightarrow> view list result" where
  "proposal_items B D pathname loading n empty_text proposals =
     (if loading then Inr (getLoadingItems n)
      else if proposals = [] then Inr [Tag ''Box'' [] [Typography [Text empty_text]]]
      else rmap_list (ProposalItem B D pathname) proposals)"

definition GovernanceList ::
    "'b big_ops \<Rightarrow> date_ops \<Rightarrow> string \<Rightarrow> searchParams \<Rightarrow> govProposals option \<Rightarrow> bool \<Rightarrow> view result" where
  "GovernanceList B D pathname searchParams govProposals loading =
     (let (liveProposals, allProposals) = split_proposals govProposals in
      rbind (proposal_items B D pathname loading 3 ''There is currently no live proposal'' liveProposals) (\<lambda>live.
      rmap (\<lambda>others. Frag
          [Card (Typography [Text ''Live Proposal''] # live),
           Card (Typography [Text ''Proposals''] # others @
             [Tag ''TablePagination''
                [(''count'', ''-1''), (''rowsPerPage'', show_nat GOV_PAGE_SIZE),
                 (''page'', num_text (gov_page searchParams)),
                 (''nextDisabled'', if next_disabled allProposals then ''true'' else ''false'')] []])])
        (proposal_items B D pathname loading GOV_PAGE_SIZE ''No data'' allProposals)))"

text \<open>What the hook is asked for.\<close>

definition gov_request :: "searchParams \<Rightarrow> jsnum" where
  "gov_request searchParams = num_add (gov_page searchParams) (Num 1)"

section \<open>Parameters of a module\<close>

definition params_json :: "json rpcResult option \<Rightarrow> view" where
  "params_json moduleParams =
     (case moduleParams of
        None \<Rightarrow> Text ''null''
      | Some (Result j) \<Rightarrow> Text (stringify 2 0 j)
      | Some (ErrorObj (Some e)) \<Rightarrow> Text (stringify 2 0
          (JObject [(''error'', JObject [(''code'', JNumber (rpc_code e)), (''message'', JString (rpc_message e))])]))
      | Some (ErrorObj None) \<Rightarrow> Text ''{}''
      | Some Undefined \<Rightarrow> Nothing)"

definition ParamsPage :: "string \<Rightarrow> json rpcResult option \<Rightarrow> bool \<Rightarrow> view option" where
  "ParamsPage param_module moduleParams loading =
     (if param_module \<notin> set MODULES then None
      else Some (Frag
        [PageTitle (Frag [Text ''Params:'', Text '' '',
           Tag ''Select'' [(''value'', param_module)] (map (\<lambda>i. Tag ''MenuItem'' [(''value'', i)] [Text i]) MODULES)]) Nothing,
         Card [Tag ''pre'' []
           [if loading then Tag ''Box'' [] [Tag ''CircularProgress'' [] []] else params_json moduleParams]]]))"

definition choose_module :: "string \<Rightarrow> string \<Rightarrow> string" where
  "choose_module pathname new_module = getNewPathByRollapp pathname (Path_text PARAMS) @ ''/'' @ new_module"

section \<open>Facts\<close>

definition votes :: "tallyResult \<Rightarrow> nat list" where
  "votes r = map (read_base 10) [tr_yes r, tr_no r, tr_noWithVeto r, tr_abstain r]"

definition tally_digits :: "tallyResult \<Rightarrow> bool" where
  "tally_digits r \<longleftrightarrow> list_all (\<lambda>s. s \<noteq> [] \<and> list_all is_digit s) [tr_yes r, tr_no r, tr_noWithVeto r, tr_abstain r]"

definition share :: "nat \<Rightarrow> nat \<Rightarrow> rat" where
  "share n t = round_half_up 2 (round_half_up 20 (of_nat n / of_nat t) * 100)"

text \<open>The percentages: three shares, and what is left of 100 for the last.\<close>

definition shares :: "tallyResult \<Rightarrow> rat list" where
  "shares r =
     (let t = sum_list (votes r); a = share (votes r ! 0) t; b = share (votes r ! 1) t; c = share (votes r ! 2) t
      in [a, b, c, 100 - a - b - c])"

lemma rest_exact: "round_half_up 2 (100 - share i t - share j t - share k t) = 100 - share i t - share j t - share k t"
proof -
  obtain a b c where "share i t * 10 ^ 2 = of_int a" "share j t * 10 ^ 2 = of_int b" "share k t * 10 ^ 2 = of_int c"
    unfolding share_def using round_half_up_units [of 2] by meson
  then show ?thesis by (intro round_half_up_exact [where i = "10000 - a - b - c"]) (simp add: algebra_simps)
qed

definition first_max :: "nat list \<Rightarrow> nat \<Rightarrow> nat \<Rightarrow> nat" where
  "first_max ns mx i = (if ns ! mx < ns ! i then i else mx)"

definition first_max_upto :: "nat list \<Rightarrow> nat \<Rightarrow> nat \<Rightarrow> bool" where
  "first_max_upto ns i m \<longleftrightarrow> m \<le> i \<and> (\<forall>j\<le>i. ns ! j \<le> ns ! m) \<and> (\<forall>j<m. ns ! j < ns ! m)"

lemma first_max_start: "first_max_upto ns 0 0"
  by (simp add: first_max_upto_def)

lemma first_max_step: "first_max_upto ns i m \<Longrightarrow> first_max_upto ns (Suc i) (first_max ns m (Suc i))"
  by (auto simp: first_max_upto_def first_max_def le_Suc_eq less_Suc_eq_le intro: le_less_trans less_imp_le)

context big_number
begin

lemma tally_sums_ok:
  assumes "tally_digits r"
  shows "\<exists>y n v a. new_big B (tr_yes r) = Inr y \<and> new_big B (tr_no r) = Inr n \<and> new_big B (tr_noWithVeto r) = Inr v \<and>
    new_big B (tr_abstain r) = Inr a \<and> map val [y, n, v, a] = map of_nat (votes r) \<and>
    tally_sums B r = Inr (y, big_add B y n, big_add B (big_add B y n) v, big_add B (big_add B (big_add B y n) v) a)"
proof -
  obtain y n v a where "new_big B (tr_yes r) = Inr y" "val y = of_nat (read_base 10 (tr_yes r))"
      "new_big B (tr_no r) = Inr n" "val n = of_nat (read_base 10 (tr_no r))"
      "new_big B (tr_noWithVeto r) = Inr v" "val v = of_nat (read_base 10 (tr_noWithVeto r))"
      "new_big B (tr_abstain r) = Inr a" "val a = of_nat (read_base 10 (tr_abstain r))"
    using new_big_digits [of "tr_yes r"] new_big_digits [of "tr_no r"] new_big_digits [of "tr_noWithVeto r"]
      new_big_digits [of "tr_abstain r"] assms unfolding tally_digits_def list.pred_inject by blast
  then show ?thesis by (simp add: tally_sums_def votes_def Let_def)
qed

lemma percent_ok:
  "val t \<noteq> 0 \<Longrightarrow> \<exists>p. percent_of B x t = Inr p \<and> val p = round_half_up 20 (val x / val t) * 100"
  using div_big_ok [of t x] by (auto simp: percent_of_def)

lemma max_index_first:
  assumes "map val bs = map of_nat ns" and "length bs = 4" and "m = max_index B bs"
  shows "m < 4 \<and> (\<forall>j<4. ns ! j \<le> ns ! m) \<and> (\<forall>j<m. ns ! j < ns ! m)"
proof -
  have "length ns = 4" using assms(1,2) by (metis length_map)
  then have "val (bs ! i) = of_nat (ns ! i)" if "i < 4" for i
    using that assms(1,2) by (metis nth_map)
  then have less: "0 < big_cmp B (bs ! i) (bs ! j) \<longleftrightarrow> ns ! j < ns ! i" if "i < 4" "j < 4" for i j
    using that by (simp add: cmp_simps)
  have "[1..<4] = [1, 2, 3 :: nat]" by (simp add: upt_rec)
  then have m: "m = foldl (\<lambda>mx i. if 0 < big_cmp B (bs ! i) (bs ! mx) then i else mx) 0 [1, 2, 3]"
    using assms(3) by (simp only: max_index_def)
  then have "m = (let m1 = first_max ns 0 1; m2 = first_max ns m1 2 in first_max ns m2 3)"
    unfolding Let_def by (simp add: less first_max_def)
  then show ?thesis
    using first_max_step [OF first_max_step [OF first_max_step [OF first_max_start [of ns]]]]
    by (auto simp: first_max_upto_def Let_def less_Suc_eq_le numeral_eq_Suc)
qed

lemma format_ok: "\<exists>s. formatNumber B (FromBig x) = Inr s \<and> plain_value (strip_commas s) = Some (val x)"
  by (simp add: formatNumber_def strip_formatNumberString str_no_comma str_plain)

lemma voting_percent_ok:
  assumes "tally_digits (gp_finalTallyResult p)" and "0 < sum_list (votes (gp_finalTallyResult p))"
  shows "\<exists>ts m. getVotingPercent B (Some p) = Inr (ts, Some m) \<and>
    map (\<lambda>s. plain_value (strip_commas s)) ts = map Some (shares (gp_finalTallyResult p)) \<and>
    m < 4 \<and> (\<forall>j<4. votes (gp_finalTallyResult p) ! j \<le> votes (gp_finalTallyResult p) ! m) \<and>
    (\<forall>j<m. votes (gp_finalTallyResult p) ! j < votes (gp_finalTallyResult p) ! m)"
proof -
  let ?r = "gp_finalTallyResult p" and ?t = "\<lambda>y n v a. big_add B (big_add B (big_add B y n) v) a"
  obtain y n v a where big: "new_big B (tr_no ?r) = Inr n" "new_big B (tr_noWithVeto ?r) = Inr v"
      "new_big B (tr_abstain ?r) = Inr a" and vals: "map val [y, n, v, a] = map of_nat (votes ?r)"
    and sums: "tally_sums B ?r = Inr (y, big_add B y n, big_add B (big_add B y n) v, ?t y n v a)"
    using tally_sums_ok [OF assms(1)] by blast
  have "sum_list (map val [y, n, v, a]) = of_nat (sum_list (votes ?r))"
    unfolding vals by (simp add: votes_def)
  then have t: "val (?t y n v a) = of_nat (sum_list (votes ?r))" by (simp add: algebra_simps)
  have "sum_list (votes ?r) \<noteq> 0" using assms(2) by (simp only: neq0_conv)
  then have t0: "val (?t y n v a) \<noteq> 0" unfolding t of_nat_eq_0_iff .
  then have nz: "big_cmp B (?t y n v a) (big_int B 0) \<noteq> 0" by (simp add: cmp_simps)
  have pct: "\<exists>p. percent_of B x (?t y n v a) = Inr p \<and> val (big_round B 2 p) = share k (sum_list (votes ?r))"
    if "val x = of_nat k" for x k
    using percent_ok [OF t0, of x] unfolding t that by (auto simp: share_def)
  have "val y = of_nat (votes ?r ! 0)" "val n = of_nat (votes ?r ! 1)" "val v = of_nat (votes ?r ! 2)"
    using vals by (simp_all add: votes_def)
  note pct = pct [OF this(1)] pct [OF this(2)] pct [OF this(3)]
  obtain py pn pv where ps: "percent_of B y (?t y n v a) = Inr py" "percent_of B n (?t y n v a) = Inr pn"
      "percent_of B v (?t y n v a) = Inr pv"
    and pvals: "val (big_round B 2 py) = share (votes ?r ! 0) (sum_list (votes ?r))"
      "val (big_round B 2 pn) = share (votes ?r ! 1) (sum_list (votes ?r))"
      "val (big_round B 2 pv) = share (votes ?r ! 2) (sum_list (votes ?r))"
    using pct by blast
  let ?d = "big_round B 2 (big_sub B (big_sub B (big_sub B (big_int B 100) (big_round B 2 py)) (big_round B 2 pn)) (big_round B 2 pv))"
  have d: "map val [big_round B 2 py, big_round B 2 pn, big_round B 2 pv, ?d] = shares ?r"
    using pvals by (simp add: shares_def Let_def rest_exact [simplified])
  have "voting_values B ?r = Inr (Some ([big_round B 2 py, big_round B 2 pn, big_round B 2 pv, ?d], max_index B [y, n, v, a]))"
    using nz by (simp add: voting_values_def sums big ps Let_def)
  moreover obtain s1 s2 s3 s4 where
    "rmap_list (\<lambda>x. formatNumber B (FromBig x)) [big_round B 2 py, big_round B 2 pn, big_round B 2 pv, ?d] = Inr [s1, s2, s3, s4] \<and>
     map (\<lambda>s. plain_value (strip_commas s)) [s1, s2, s3, s4] = map Some (shares ?r)"
    unfolding d [symmetric]
    using format_ok [of "big_round B 2 py"] format_ok [of "big_round B 2 pn"] format_ok [of "big_round B 2 pv"] format_ok [of ?d]
    by auto
  ultimately show ?thesis
    using max_index_first [OF vals _ refl] by (auto simp: getVotingPercent_def Let_def simp del: max_index_def)
qed

end

text \<open>The two lists of proposals.\<close>

lemma split_fold:
  "foldl (\<lambda>(r1, r2) p. if is_live p then (r1 @ [p], r2) else (r1, r2 @ [p])) (a, b) ps =
   (a @ filter is_live ps, b @ filter (\<lambda>p. \<not> is_live p) ps)"
  by (induction ps arbitrary: a b) auto

section \<open>Properties\<close>


text \<open>
  What is left for the abstentions can be less than nothing: with 6667, 6667 and 6666 votes for
  the other options and no abstention the three shares are rounded to more than 100 together, and
  the page shows -0.01 percent.
\<close>

theorem negative_abstention:
  assumes "big_number B val"
    and "gp_finalTallyResult p = \<lparr>tr_abstain = ''0'', tr_no = ''6667'', tr_noWithVeto = ''6666'', tr_yes = ''6667''\<rparr>"
  shows "\<exists>ts m. getVotingPercent B (Some p) = Inr (ts, Some m) \<and>
    map (\<lambda>s. plain_value (strip_commas s)) ts = [Some (3334 / 100), Some (3334 / 100), Some (3333 / 100), Some (- 1 / 100)]"
proof -
  let ?r = "gp_finalTallyResult p"
  have d: "tally_digits ?r" "votes ?r = [6667, 6667, 6666, 0]"
    unfolding assms(2) by (simp_all add: tally_digits_def votes_def is_digit_def code_def, code_simp)
  have r20: "round_half_up 20 (of_nat 6667 / of_nat 20000) = 6667 / 20000"
      "round_half_up 20 (of_nat 6666 / of_nat 20000) = 6666 / 20000"
    by (rule round_half_up_exact [where i = "33335000000000000000", THEN trans]
        round_half_up_exact [where i = "33330000000000000000", THEN trans], simp, simp)+
  have "\<lfloor>6667 / 2 :: rat\<rfloor> = 3333" by (rule floor_unique) simp_all
  then have "round_half_up 2 (6667 / 20000 * 100) = 3334 / 100" "round_half_up 2 (6666 / 20000 * 100) = 3333 / 100"
    by (simp_all add: round_half_up_def)
  then have "share 6667 20000 = 3334 / 100" "share 6666 20000 = 3333 / 100"
    unfolding share_def r20 .
  then have "shares ?r = [3334 / 100, 3334 / 100, 3333 / 100, - 1 / 100]"
    by (simp add: shares_def d(2) Let_def)
  then show ?thesis
    using big_number.voting_percent_ok [OF assms(1) d(1)] d(2) by auto
qed

text \<open>
  C30: The list shows every proposal of its page once, newest first, those being voted on apart; the
  button for the next page looks at the others only, so it is disabled on a page whose proposals are
  all being voted on, whatever follows.
\<close>

theorem proposals_listed:
  assumes "split_proposals (Some g) = (voting, others)"
  shows "mset (voting @ others) = mset (map snd (gps_proposals g)) \<and>
    (\<forall>p\<in>set voting. is_live p) \<and> (\<forall>p\<in>set others. \<not> is_live p) \<and>
    sorted_wrt (\<lambda>p q. gp_id q \<le> gp_id p) voting \<and> sorted_wrt (\<lambda>p q. gp_id q \<le> gp_id p) others \<and>
    ((\<forall>p\<in>snd ` set (gps_proposals g). is_live p) \<longrightarrow> next_disabled others)"
proof -
  let ?ps = "js_sort (\<lambda>a b. gp_id b - gp_id a) (map snd (gps_proposals g))"
  have eq: "voting = filter is_live ?ps" "others = filter (\<lambda>p. \<not> is_live p) ?ps"
    using assms by (simp_all add: split_proposals_def split_fold)
  have "comparator (\<lambda>a b :: govProposal. gp_id b - gp_id a)" by unfold_locales auto
  then have sorted: "sorted_wrt (\<lambda>p q. gp_id q \<le> gp_id p) ?ps"
    using comparator.sorted_js_sort [of "\<lambda>a b. gp_id b - gp_id a"] by (simp add: algebra_simps)
  have "mset (voting @ others) = mset ?ps" unfolding eq mset_append by (metis mset_filter multiset_partition)
  then show ?thesis
    using sorted unfolding eq by (auto simp: sorted_wrt_filter next_disabled_def filter_empty_conv)
qed

definition sample_proposal :: "string \<Rightarrow> tallyResult \<Rightarrow> govProposal" where
  "sample_proposal status tally = \<lparr>gp_depositEndTimeEpochUTC = 0, gp_finalTallyResult = tally, gp_id = 25, gp_messages = [],
     gp_metadata = [], gp_status = status, gp_submitTimeEpochUTC = 0, gp_totalDeposit = [],
     gp_votingEndTimeEpochUTC = 0, gp_votingStartTimeEpochUTC = 0\<rparr>"

definition close_tally :: tallyResult where
  "close_tally = \<lparr>tr_abstain = ''0'', tr_no = ''6667'', tr_noWithVeto = ''6666'', tr_yes = ''6667''\<rparr>"


lemma negative_abstention_witness:
  "\<exists>ts m. getVotingPercent dec_ops (Some (sample_proposal ''x'' close_tally)) = Inr (ts, Some m) \<and>
    map (\<lambda>s. plain_value (strip_commas s)) ts = [Some (3334 / 100), Some (3334 / 100), Some (3333 / 100), Some (- 1 / 100)]"
  by (rule negative_abstention [OF dec.big_number_axioms]) (simp add: sample_proposal_def close_tally_def)

lemma proposals_listed_witness:
  "\<exists>voting others. split_proposals (Some \<lparr>gps_pageNo = 1, gps_pageSize = 20,
      gps_proposals = [(25, sample_proposal ''PROPOSAL_STATUS_VOTING_PERIOD'' close_tally)]\<rparr>) = (voting, others) \<and>
    length voting = 1 \<and> next_disabled others"
proof -
  let ?g = "\<lparr>gps_pageNo = 1, gps_pageSize = 20,
      gps_proposals = [(25, sample_proposal ''PROPOSAL_STATUS_VOTING_PERIOD'' close_tally)]\<rparr>"
  obtain voting others where eq: "split_proposals (Some ?g) = (voting, others)" by (cases "split_proposals (Some ?g)") auto
  have "is_live (sample_proposal ''PROPOSAL_STATUS_VOTING_PERIOD'' close_tally)"
    by (simp add: is_live_def sample_proposal_def)
  then have "next_disabled others" and all: "mset (voting @ others) = mset (map snd (gps_proposals ?g))"
    "\<forall>p\<in>set others. \<not> is_live p"
    using proposals_listed [OF eq] by simp_all
  moreover have "length (voting @ others) = 1" using arg_cong [OF all(1), of size] by simp
  moreover have "others = []"
    using all \<open>is_live _\<close> by (cases others) (auto simp: add_mset_eq_single)
  ultimately show ?thesis using eq by simp
qed

end
