(* ===== verification/Layout.thy ===== *)
theory Layout
  imports Search View
begin

text \<open>
  Around the pages: the layout with its menu, side bar and header
  (\<open>web-app/src/components/client/commons/Layout\<close>), \<open>RollappSelect.tsx\<close>, \<open>ThemeProvider.tsx\<close> with the
  cookie \<open>app/layout.tsx\<close> reads, the results of the search (\<open>search/_SearchResultContent.tsx\<close>),
  \<open>app/[rollappPath]/error.tsx\<close>, \<open>hooks/useMountedState.ts\<close> and \<open>hooks/_useRollappInfos.ts\<close>.
\<close>

section \<open>The menu\<close>

text \<open>
  The state of the component \<open>Layout\<close>. \<open>ml_moving\<close> belongs to the drawer of the component library: it
  holds while a change of \<open>open\<close> is animated, and only then a transition can end.
\<close>

record menu_layout =
  ml_menuOpen :: bool
  ml_isClosing :: bool
  ml_isSearchOpen :: bool
  ml_moving :: bool

datatype menu_event = MenuToggle | MenuClose | TransitionEnd | SearchOpen | SearchClose

definition set_menu :: "bool \<Rightarrow> menu_layout \<Rightarrow> menu_layout" where
  "set_menu b S = S\<lparr>ml_menuOpen := b, ml_moving := ml_moving S \<or> b \<noteq> ml_menuOpen S\<rparr>"

fun menu_step :: "menu_event \<Rightarrow> menu_layout \<Rightarrow> menu_layout" where
  "menu_step MenuToggle S = (if \<not> ml_isClosing S then set_menu (\<not> ml_menuOpen S) S else S)"
| "menu_step MenuClose S = set_menu False (S\<lparr>ml_isClosing := True\<rparr>)"
| "menu_step TransitionEnd S = (if ml_moving S then S\<lparr>ml_isClosing := False, ml_moving := False\<rparr> else S)"
| "menu_step SearchOpen S = S\<lparr>ml_isSearchOpen := True\<rparr>"
| "menu_step SearchClose S = S\<lparr>ml_isSearchOpen := False\<rparr>"

definition menu_init :: menu_layout where
  "menu_init = \<lparr>ml_menuOpen = False, ml_isClosing = False, ml_isSearchOpen = False, ml_moving = False\<rparr>"

definition menu_run :: "menu_event list \<Rightarrow> menu_layout \<Rightarrow> menu_layout" where
  "menu_run es S = foldl (\<lambda>S e. menu_step e S) S es"

text \<open>What the layout dispatches when the path changes.\<close>

definition layout_effect :: "string \<Rightarrow> action result" where
  "layout_effect pathname = rmap PopulateChainData (getRollappPathFromPathname pathname)"

section \<open>The side bar\<close>

text \<open>A part of the path that is missing is \<open>undefined\<close>, which the template prints.\<close>

definition checkSelected :: "string \<Rightarrow> string \<Rightarrow> string list \<Rightarrow> bool" where
  "checkSelected pathname item_path selectedPaths =
     (let splittedPath = split_on CHR ''/'' pathname;
          pathToCheck = ''/'' @ (if 2 < length splittedPath then splittedPath ! 2 else ''undefined'')
      in (item_path = ''/'' \<and> length splittedPath = 2) \<or> pathToCheck = item_path \<or> pathToCheck \<in> set selectedPaths)"

definition MenuItem :: "string \<Rightarrow> string \<Rightarrow> string \<Rightarrow> string list \<Rightarrow> view" where
  "MenuItem pathname item_name item_path selectedPath =
     (let isSelected = checkSelected pathname item_path selectedPath in
      Tag ''ListItemButton''
        [(''href'', getNewPathByRollapp pathname item_path), (''selected'', if isSelected then ''true'' else ''false'')]
        [if isSelected then Typography [Tag ''strong'' [] [Text item_name]] else Typography [Text item_name]])"

text \<open>The items of the menu: name, path and the paths that select it too.\<close>

definition sider_items :: "(string \<times> string \<times> string list) list" where
  "sider_items =
     [(''Overview'', Path_text OVERVIEW, []), (''Blocks'', Path_text BLOCKS, [Path_text BLOCK]),
      (''Transactions'', Path_text TRANSACTIONS, [Path_text TRANSACTION]),
      (''Governors'', Path_text VALIDATORS, []), (''Proposals'', Path_text PROPOSALS, [Path_text PROPOSAL]),
      (''Params'', Path_text PARAMS @ ''/'' @ MODULES ! 0, [Path_text PARAMS])]"

text \<open>\<open>pathname.replace(/^\/[^\/]*/, value)\<close>, for a value without \<open>$\<close>.\<close>

definition replace_rollapp :: "string \<Rightarrow> string \<Rightarrow> string" where
  "replace_rollapp pathname new_path =
     (case pathname of
        c # s \<Rightarrow> if c = CHR ''/'' then new_path @ dropWhile not_slash s else pathname
      | [] \<Rightarrow> [])"

definition sider_push :: "string \<Rightarrow> string \<Rightarrow> string" where
  "sider_push pathname new_path =
     (if isNotFoundPath pathname then new_path else replace_rollapp pathname new_path)"

definition rollapp_option :: "string \<Rightarrow> RollappInfo \<Rightarrow> view" where
  "rollapp_option selected r =
     Tag ''MenuItem'' [(''key'', chain_id r), (''value'', path r)]
       [Tag ''Typography'' [(''color'', if path r = selected then ''primary'' else ''inherit'')] [Tag ''strong'' [] [Text (name r)]],
        Typography [Text (chain_id r)]]"

definition RollappSelect :: "string \<Rightarrow> RollappInfo list \<Rightarrow> view" where
  "RollappSelect selected rollapps = Tag ''Select'' [(''value'', selected)] (map (rollapp_option selected) rollapps)"

text \<open>The contents of the drawer, with \<open>governanceOpen\<close>.\<close>

definition Sider :: "string \<Rightarrow> RollappInfo option \<Rightarrow> RollappInfo list \<Rightarrow> bool \<Rightarrow> view" where
  "Sider pathname selected rollapps governanceOpen =
     (let item = (\<lambda>i. case sider_items ! i of (n, p, ps) \<Rightarrow> MenuItem pathname n p ps) in
      Tag ''List'' []
        [RollappSelect (case selected of Some r \<Rightarrow> path r | None \<Rightarrow> []) rollapps,
         item 0, item 1, item 2,
         Tag ''ListItemButton'' [] [Text ''Governance'', Tag (if governanceOpen then ''ExpandLess'' else ''ExpandMore'') [] []],
         if governanceOpen then Tag ''Collapse'' [] [item 3, item 4] else Nothing,
         item 5])"

section \<open>The header\<close>

text \<open>A click on the star: what is dispatched, if a rollapp is selected.\<close>

definition handleClickFavorite :: "RollappInfo option \<Rightarrow> action option" where
  "handleClickFavorite selected =
     map_option (\<lambda>r. ReOrder (Some (chain_id r, \<not> isFavorite r))) selected"

definition Logo :: "string \<Rightarrow> RollappInfo option \<Rightarrow> view" where
  "Logo pathname selected =
     Tag ''Box'' []
       [Link (getNewPathByRollapp pathname (Path_text OVERVIEW))
          [case selected of Some r \<Rightarrow> Text (toUpperCase (name r)) | None \<Rightarrow> Nothing],
        Tag (case selected of Some r \<Rightarrow> if isFavorite r then ''StarIcon'' else ''StarOutlineIcon''
             | None \<Rightarrow> ''StarOutlineIcon'') [] []]"

section \<open>The theme\<close>

text \<open>
  The mode is whatever text the cookie holds. \<open>handleThemeToggle\<close> gives the new mode and the value of
  the cookie it sets.
\<close>

definition root_theme :: "string option \<Rightarrow> string" where
  "root_theme themeCookie = (case themeCookie of Some v \<Rightarrow> v | None \<Rightarrow> ThemeMode_text DARK)"

definition handleThemeToggle :: "string \<Rightarrow> string \<times> string" where
  "handleThemeToggle theme =
     (let newTheme = (if theme = ThemeMode_text LIGHT then ThemeMode_text DARK else ThemeMode_text LIGHT)
      in (newTheme, THEME_COOKIE_NAME @ ''='' @ newTheme @ ''; expires=Fri, 31 Dec 9999 23:59:59 GMT; path=/''))"

text \<open>The value a browser keeps of a cookie: what stands between the name and the first semicolon.\<close>

definition cookie_value :: "string \<Rightarrow> string \<Rightarrow> string option" where
  "cookie_value cookie_name cookie =
     (if startsWith cookie (cookie_name @ ''='')
      then Some (takeWhile (\<lambda>c. c \<noteq> CHR '';'') (drop (length cookie_name + 1) cookie)) else None)"

section \<open>The results of a search\<close>

text \<open>\<open>rollappName[0].toUpperCase()\<close> throws for an empty name.\<close>

definition SearchResultItem :: "RollappInfo \<Rightarrow> string option \<Rightarrow> string \<Rightarrow> bool option \<Rightarrow> view result" where
  "SearchResultItem r shown_value href isFavourite =
     (case toUpperCase (name r) of
        [] \<Rightarrow> Inl TypeError
      | c # s \<Rightarrow> Inr (Tag ''CardActionArea'' [(''href'', href)]
          [Typography [Tag ''strong'' [] [Text (c # s)]], Text '' '',
           (case shown_value of Some (d # t) \<Rightarrow> Typography [Text (chain_id r)] | Some [] \<Rightarrow> Text [] | None \<Rightarrow> Nothing),
           Typography [Text (case shown_value of Some (d # t) \<Rightarrow> d # t | _ \<Rightarrow> chain_id r)],
           Tag ''Avatar'' [] [Text (toUpperCase [c])],
           (case isFavourite of None \<Rightarrow> Nothing
            | Some b \<Rightarrow> Tag (if b then ''StarIcon'' else ''StarOutlineIcon'') [] [])]))"

definition SearchResultSection :: "string \<Rightarrow> view list \<Rightarrow> view" where
  "SearchResultSection title children = Tag ''Grid'' [] (Tag ''Grid'' [] [Tag ''b'' [] [Text title]] # children)"

definition search_section :: "string \<Rightarrow> view result list \<Rightarrow> view result" where
  "search_section title items = rmap (SearchResultSection title) (rmap_list (\<lambda>r. r) items)"

text \<open>A transaction of a chain that is not listed has no rollapp, and reading its id throws.\<close>

definition tx_result_item :: "TxSearchResult \<Rightarrow> view result" where
  "tx_result_item t =
     rbind (of_opt TypeError (tsr_rollappInfo t)) (\<lambda>r.
       SearchResultItem r (Some (tsr_txHash t)) (path r @ Path_text TRANSACTION @ ''/'' @ tsr_txHash t) None)"

definition opt_section :: "'a option \<Rightarrow> ('a \<Rightarrow> view result) \<Rightarrow> view result" where
  "opt_section x f = (case x of None \<Rightarrow> Inr Nothing | Some v \<Rightarrow> f v)"

definition SearchResultContent :: "SearchResult \<Rightarrow> view result" where
  "SearchResultContent searchResult =
     (if sr_rollapps searchResult = None \<and> sr_blocks searchResult = None \<and> sr_txs searchResult = None \<and>
         sr_accounts searchResult = None
      then Inr (Tag ''Box'' [] [Text ''No result found.''])
      else
        rmap (\<lambda>sections. Tag ''Box'' [] [Tag ''Grid'' [] sections]) (rmap_list (\<lambda>r. r)
          [opt_section (sr_rollapps searchResult) (\<lambda>rollapps.
             search_section (''Rollapps ('' @ show_nat (length rollapps) @ '')'')
               (map (\<lambda>r. SearchResultItem r None (path r) (Some (isFavorite r))) rollapps)),
           opt_section (sr_blocks searchResult) (\<lambda>b.
             search_section (''Block ('' @ show_nat (length (bsr_rollappInfos b)) @ '')'')
               (map (\<lambda>r. SearchResultItem r (Some (''#'' @ num_text (bsr_block b)))
                  (path r @ Path_text BLOCK @ ''/'' @ num_text (bsr_block b)) None) (bsr_rollappInfos b))),
           opt_section (sr_txs searchResult) (\<lambda>txs.
             search_section (''Transaction ('' @ show_nat (length txs) @ '')'') (map tx_result_item txs)),
           opt_section (sr_accounts searchResult) (\<lambda>a.
             search_section ''Address''
               (map (\<lambda>r. SearchResultItem r (Some (asr_account a))
                  (path r @ Path_text ADDRESS @ ''/'' @ asr_account a) None) (asr_rollappInfos a)))]))"

section \<open>Other hooks and pages\<close>

text \<open>\<open>useMountedState\<close>: the reference after mounts (\<open>True\<close>) and unmounts (\<open>False\<close>) of the effect.\<close>

definition useMountedState :: "bool list \<Rightarrow> bool" where
  "useMountedState effects = foldl (\<lambda>_ mounts. mounts) True effects"

definition updateSortedRollappInfos ::
    "(string \<Rightarrow> string \<Rightarrow> int) \<Rightarrow> FavoriteRollapps \<Rightarrow> RollappInfo list \<Rightarrow> RollappInfo list" where
  "updateSortedRollappInfos localeCompare favoriteRollapp infos =
     js_sort (compare_favorite_name localeCompare)
       (map (\<lambda>r. r\<lparr>isFavorite := (obj_get favoriteRollapp (chain_id r) = Some True)\<rparr>) infos)"

text \<open>
  The error page: a click starts two timers, after one second it retries, after two the button is
  back if the page is still there.
\<close>

record error_page =
  ep_retrying :: bool
  ep_resets :: nat
  ep_timers :: "nat \<times> nat"
  ep_mounted :: bool

datatype error_event = TryAgain | AfterOne | AfterTwo | Left

fun error_step :: "error_event \<Rightarrow> error_page \<Rightarrow> error_page" where
  "error_step TryAgain S =
     (if ep_retrying S then S
      else S\<lparr>ep_retrying := True, ep_timers := (fst (ep_timers S) + 1, snd (ep_timers S) + 1)\<rparr>)"
| "error_step AfterOne S =
     (case ep_timers S of (Suc a, b) \<Rightarrow> S\<lparr>ep_resets := ep_resets S + 1, ep_timers := (a, b)\<rparr> | _ \<Rightarrow> S)"
| "error_step AfterTwo S =
     (case ep_timers S of
        (a, Suc b) \<Rightarrow> S\<lparr>ep_retrying := ep_retrying S \<and> \<not> ep_mounted S, ep_timers := (a, b)\<rparr>
      | _ \<Rightarrow> S)"
| "error_step Left S = S\<lparr>ep_mounted := False\<rparr>"

section \<open>Facts\<close>

lemma menu_run_simps [simp]: "menu_run [] S = S" "menu_run (e # es) S = menu_run es (menu_step e S)"
  by (simp_all add: menu_run_def)

text \<open>A menu that is closed and still, marked as closing, stays so whatever happens.\<close>

definition menu_stuck :: "menu_layout \<Rightarrow> bool" where
  "menu_stuck S \<longleftrightarrow> \<not> ml_menuOpen S \<and> \<not> ml_moving S \<and> ml_isClosing S"

lemma menu_stuck_run: "menu_stuck S \<Longrightarrow> menu_stuck (menu_run es S)"
proof (induction es arbitrary: S)
  case (Cons e es)
  then have "menu_stuck (menu_step e S)" by (cases e) (auto simp: menu_stuck_def set_menu_def)
  then show ?case using Cons.IH by simp
qed simp

text \<open>Only an open menu is closed.\<close>

fun closes_open :: "menu_event list \<Rightarrow> menu_layout \<Rightarrow> bool" where
  "closes_open [] S = True"
| "closes_open (e # es) S = ((e = MenuClose \<longrightarrow> ml_menuOpen S) \<and> closes_open es (menu_step e S))"

lemma closing_moves:
  "closes_open es S \<Longrightarrow> ml_isClosing S \<longrightarrow> ml_moving S \<Longrightarrow> ml_isClosing (menu_run es S) \<longrightarrow> ml_moving (menu_run es S)"
proof (induction es arbitrary: S)
  case (Cons e es)
  then have "ml_isClosing (menu_step e S) \<longrightarrow> ml_moving (menu_step e S)"
    by (cases e) (auto simp: set_menu_def)
  then show ?case using Cons by simp
qed simp

lemma item_link: "SearchResultItem r v href fav = Inr w \<Longrightarrow> view_links w = [href]"
  by (auto simp: SearchResultItem_def Typography_def split: list.splits option.splits)

definition clean_paths :: "RollappInfo list \<Rightarrow> bool" where
  "clean_paths infos \<longleftrightarrow> (\<forall>r\<in>set infos. \<exists>seg. path r = ''/'' @ seg \<and> list_all not_slash seg)"

lemma clean_slug: "\<exists>seg. getRollappPathByName nm = ''/'' @ seg \<and> list_all not_slash seg"
proof -
  obtain seg where seg: "getRollappPathByName nm = ''/'' @ seg"
      "list_all (\<lambda>c. is_lower c \<or> is_digit c \<or> c = CHR ''-'') seg"
    using slug_chars [of nm] by (elim exE conjE)
  have "list_all not_slash seg" using seg(2) slug_not_slash by (simp only: list_all_iff) blast
  with seg(1) show ?thesis by blast
qed

lemma clean_normalized: "clean_paths (normalizeRollappsInfo cs)"
  unfolding clean_paths_def
proof
  fix r assume "r \<in> set (normalizeRollappsInfo cs)"
  then obtain c where "r = normalizeRollappInfo c" by (auto simp only: normalizeRollappsInfo_def set_map image_iff)
  then have "path r = getRollappPathByName (name c)" by (simp only: normalize_fields)
  with clean_slug [of "name c"] show "\<exists>seg. path r = ''/'' @ seg \<and> list_all not_slash seg" by (simp only:)
qed

text \<open>A link that leads to one of the rollapps.\<close>

definition leads :: "RollappInfo list \<Rightarrow> string \<Rightarrow> bool" where
  "leads infos l \<longleftrightarrow> (\<exists>r\<in>set infos. getRollappPathFromPathname l = Inr (path r))"

lemma leads_page:
  assumes "clean_paths infos" and "r \<in> set infos" and "rest = [] \<or> startsWith rest ''/''"
  shows "leads infos (path r @ rest)"
proof -
  obtain seg where seg: "path r = ''/'' @ seg" "list_all not_slash seg" using assms(1,2) by (auto simp: clean_paths_def)
  have "getRollappPathFromPathname (path r @ rest) = Inr (path r)"
    using rollapp_path_append [OF seg(2) assms(3)] by (simp add: seg(1))
  with assms(2) show ?thesis by (auto simp: leads_def)
qed

lemma Path_text_slash: "startsWith (Path_text p @ s) ''/''"
  by (cases p) simp_all

lemma section_leads:
  assumes "search_section title items = Inr v"
    and "\<And>x w. x \<in> set items \<Longrightarrow> x = Inr w \<Longrightarrow> list_all Q (view_links w)"
  shows "list_all Q (view_links v)"
proof -
  obtain ws where v: "v = SearchResultSection title ws" and ws: "list_all2 (\<lambda>x w. x = Inr w) items ws"
    using assms(1) by (auto simp: search_section_def result_simps rmap_list_Inr)
  have "list_all Q (view_links w)" if w: "w \<in> set ws" for w
  proof -
    obtain i where "i < length ws" "ws ! i = w" using w by (auto simp: in_set_conv_nth)
    with ws have "items ! i \<in> set items" "items ! i = Inr w"
      using nth_mem [of i items] by (simp_all add: list_all2_conv_all_nth)
    then show ?thesis by (rule assms(2))
  qed
  then show ?thesis unfolding v by (auto simp: SearchResultSection_def list_all_iff)
qed

lemma items_lead:
  assumes "search_section title (map (\<lambda>r. SearchResultItem r (v r) (path r @ rest r) (fav r)) rs) = Inr w"
    and "clean_paths infos" and "set rs \<subseteq> set infos" and "\<And>r. rest r = [] \<or> startsWith (rest r) ''/''"
  shows "list_all (leads infos) (view_links w)"
proof (rule section_leads [OF assms(1)])
  fix x u assume "x \<in> set (map (\<lambda>r. SearchResultItem r (v r) (path r @ rest r) (fav r)) rs)" "x = Inr u"
  then obtain r where "r \<in> set rs" "SearchResultItem r (v r) (path r @ rest r) (fav r) = Inr u" by auto
  then show "list_all (leads infos) (view_links u)"
    using item_link leads_page [OF assms(2) _ assms(4)] assms(3) by fastforce
qed

lemma opt_section_leads:
  "opt_section x f = Inr w \<Longrightarrow> (\<And>y u. x = Some y \<Longrightarrow> f y = Inr u \<Longrightarrow> list_all Q (view_links u)) \<Longrightarrow> list_all Q (view_links w)"
  by (auto simp: opt_section_def split: option.splits)

text \<open>The rollapps in a result are among those that were searched.\<close>

lemma result_rollapps:
  assumes "handleGlobalSearch A lc text infos selected txs = Inr r"
  shows "sr_rollapps r = Some xs \<Longrightarrow> set xs \<subseteq> set infos"
    and "sr_blocks r = Some b \<Longrightarrow> set (bsr_rollappInfos b) \<subseteq> set infos"
    and "sr_accounts r = Some a \<Longrightarrow> set (asr_rollappInfos a) \<subseteq> set infos"
    and "sr_txs r = Some ts \<Longrightarrow> t \<in> set ts \<Longrightarrow> tsr_rollappInfo t = Some i \<Longrightarrow> i \<in> set infos"
proof -
  show "sr_rollapps r = Some xs \<Longrightarrow> set xs \<subseteq> set infos"
    using assms by (auto simp: handleGlobalSearch_def result_simps Let_def getRollappSearchResult_def split: if_splits)
  show "sr_blocks r = Some b \<Longrightarrow> set (bsr_rollappInfos b) \<subseteq> set infos"
    using assms by (auto simp: handleGlobalSearch_def result_simps Let_def getBlockSearchResult_def split: if_splits)
  show "sr_accounts r = Some a \<Longrightarrow> set (asr_rollappInfos a) \<subseteq> set infos"
    using assms by (auto simp: handleGlobalSearch_def result_simps Let_def getAccountSearchResult_def split: if_splits)
  show "i \<in> set infos" if t: "sr_txs r = Some ts" "t \<in> set ts" "tsr_rollappInfo t = Some i"
  proof -
    let ?sorted = "js_sort (compare_search lc (map_option chain_id selected)) infos"
    obtain cid where "obj_get (rollappInfosToObject ?sorted) cid = Some i"
      using assms t by (auto simp: handleGlobalSearch_def result_simps Let_def getTransactionSearchResult_def split: if_splits)
    then have "List.find (\<lambda>r. chain_id r = cid) (rev ?sorted) = Some i"
      by (auto simp: rollapp_map_get split: option.splits)
    then have "i \<in> set (rev ?sorted)" by (metis find_Some_iff nth_mem)
    then show ?thesis by simp
  qed
qed

section \<open>Properties\<close>

text \<open>
  The menu answers as long as it is closed only while it is open: when its movement has ended a
  toggle opens or closes it. But closing it while it is closed and still, which a click on an item of
  the permanent side bar does, blocks it: no later event opens it again.
\<close>

theorem menu_closed_twice:
  assumes "closes_open es menu_init" and "\<not> ml_menuOpen T" and "\<not> ml_moving T"
  shows "(ml_menuOpen (menu_run (es @ [TransitionEnd, MenuToggle]) menu_init) \<longleftrightarrow> \<not> ml_menuOpen (menu_run es menu_init)) \<and>
    \<not> ml_menuOpen (menu_run (MenuClose # fs) T)"
proof -
  have "ml_isClosing (menu_run es menu_init) \<longrightarrow> ml_moving (menu_run es menu_init)"
    by (rule closing_moves [OF assms(1)]) (simp add: menu_init_def)
  moreover have "menu_run (es @ [TransitionEnd, MenuToggle]) menu_init =
      menu_step MenuToggle (menu_step TransitionEnd (menu_run es menu_init))"
    by (simp add: menu_run_def)
  moreover have "menu_stuck (menu_run fs (menu_step MenuClose T))"
    by (rule menu_stuck_run) (use assms(2,3) in \<open>simp add: menu_stuck_def set_menu_def\<close>)
  ultimately show ?thesis by (auto simp: set_menu_def menu_stuck_def)
qed

lemma menu_closed_twice_witness:
  "\<not> ml_menuOpen (menu_run [MenuClose, MenuToggle, TransitionEnd, MenuToggle] menu_init) \<and>
   ml_menuOpen (menu_run ([MenuToggle, MenuClose] @ [TransitionEnd, MenuToggle]) menu_init)"
proof -
  have "closes_open [MenuToggle, MenuClose] menu_init" "\<not> ml_menuOpen menu_init" "\<not> ml_moving menu_init"
    by (simp_all add: menu_init_def set_menu_def)
  from menu_closed_twice [OF this, of "[MenuToggle, TransitionEnd, MenuToggle]"] show ?thesis
    by (simp add: menu_init_def set_menu_def)
qed

text \<open>
  Choosing another rollapp in the side bar keeps the page and changes the rollapp: the path that
  is pushed is of the chosen rollapp, and is followed by what followed the old one, except on the
  page that was not found, which leads to the start of the chosen rollapp.
\<close>

theorem rollapp_switch:
  assumes "list_all not_slash seg" and "list_all not_slash seg'" and "rest = [] \<or> startsWith rest ''/''"
  shows "getRollappPathFromPathname (sider_push (''/'' @ seg @ rest) (''/'' @ seg')) = Inr (''/'' @ seg') \<and>
    sider_push (''/'' @ seg @ rest) (''/'' @ seg') = ''/'' @ seg' @ (if rest = ''/not-found'' then [] else rest)"
proof -
  have "takeWhile not_slash rest = []" "dropWhile not_slash rest = rest"
    using assms(3) by (auto simp: startsWith_iff not_slash_def)
  then have take: "dropWhile not_slash (seg @ rest) = rest"
    using assms(1) by (simp add: list_all_iff dropWhile_append2)
  have "isNotFoundPath (''/'' @ seg @ rest) \<longleftrightarrow> rest = ''/not-found''"
  proof
    assume "isNotFoundPath (''/'' @ seg @ rest)"
    then obtain x where x: "list_all not_slash x" "seg @ rest = x @ ''/not-found''" by (auto simp: isNotFoundPath_iff)
    then have "dropWhile not_slash (seg @ rest) = ''/not-found''"
      by (simp add: list_all_iff dropWhile_append2 not_slash_def)
    then show "rest = ''/not-found''" by (simp only: take)
  next
    assume "rest = ''/not-found''"
    then show "isNotFoundPath (''/'' @ seg @ rest)" using assms(1) by (auto simp: isNotFoundPath_iff)
  qed
  then have push: "sider_push (''/'' @ seg @ rest) (''/'' @ seg') = ''/'' @ seg' @ (if rest = ''/not-found'' then [] else rest)"
    by (simp add: sider_push_def replace_rollapp_def take)
  show ?thesis
    unfolding push using rollapp_path_append [OF assms(2)] assms(3) by simp
qed

lemma rollapp_switch_witness:
  "sider_push (''/'' @ ''nim'' @ ''/block/12'') (''/'' @ ''mande'') = ''/mande/block/12''"
proof -
  have "list_all not_slash ''nim''" "list_all not_slash ''mande''" by (simp_all add: not_slash_def)
  from rollapp_switch [OF this, of "''/block/12''", THEN conjunct2] show ?thesis by simp
qed

text \<open>At most one item of the menu is marked as the present page.\<close>

theorem one_item_selected:
  "length (filter (\<lambda>(n, p, ps). checkSelected pathname p ps) sider_items) \<le> 1"
proof (cases "2 < length (split_on CHR ''/'' pathname)")
  case True
  then show ?thesis by (simp add: sider_items_def checkSelected_def Let_def cfg_defs)
next
  case False
  then show ?thesis by (simp add: sider_items_def checkSelected_def Let_def cfg_defs)
qed

text \<open>
  C38: Whatever a search finds leads to the rollapp it was found in: every link of the results is the
  path of one of the searched rollapps or a page below it.
\<close>

theorem search_links_lead:
  assumes "handleGlobalSearch A lc searchText infos selected txs = Inr r" and "clean_paths infos"
    and "SearchResultContent r = Inr v"
  shows "\<forall>l\<in>set (view_links v). \<exists>i\<in>set infos. getRollappPathFromPathname l = Inr (path i)"
proof -
  note found = result_rollapps [OF assms(1)]
  have "list_all (leads infos) (view_links v)"
  proof (cases "sr_rollapps r = None \<and> sr_blocks r = None \<and> sr_txs r = None \<and> sr_accounts r = None")
    case True
    then show ?thesis using assms(3) by (auto simp: SearchResultContent_def)
  next
    case False
    then obtain a b c d where v: "v = Tag ''Box'' [] [Tag ''Grid'' [] [a, b, c, d]]"
      and a: "opt_section (sr_rollapps r) (\<lambda>rollapps. search_section (''Rollapps ('' @ show_nat (length rollapps) @ '')'')
          (map (\<lambda>r. SearchResultItem r None (path r @ []) (Some (isFavorite r))) rollapps)) = Inr a"
      and b: "opt_section (sr_blocks r) (\<lambda>b. search_section (''Block ('' @ show_nat (length (bsr_rollappInfos b)) @ '')'')
          (map (\<lambda>r. SearchResultItem r (Some (''#'' @ num_text (bsr_block b)))
             (path r @ Path_text BLOCK @ ''/'' @ num_text (bsr_block b)) None) (bsr_rollappInfos b))) = Inr b"
      and c: "opt_section (sr_txs r) (\<lambda>txs. search_section (''Transaction ('' @ show_nat (length txs) @ '')'')
          (map tx_result_item txs)) = Inr c"
      and d: "opt_section (sr_accounts r) (\<lambda>a. search_section ''Address'' (map (\<lambda>r. SearchResultItem r (Some (asr_account a))
             (path r @ Path_text ADDRESS @ ''/'' @ asr_account a) None) (asr_rollappInfos a))) = Inr d"
      using assms(3) unfolding SearchResultContent_def if_not_P [OF False] by (auto simp: result_simps)
    have "list_all (leads infos) (view_links a)"
      by (rule opt_section_leads [OF a], rule items_lead) (use found(1) assms(2) in auto)
    moreover have "list_all (leads infos) (view_links b)"
      by (rule opt_section_leads [OF b], rule items_lead) (use found(2) assms(2) Path_text_slash in auto)
    moreover have "list_all (leads infos) (view_links d)"
      by (rule opt_section_leads [OF d], rule items_lead) (use found(3) assms(2) Path_text_slash in auto)
    moreover have "list_all (leads infos) (view_links c)"
    proof (rule opt_section_leads [OF c], rule section_leads)
      fix ts u x w assume "sr_txs r = Some ts" "x \<in> set (map tx_result_item ts)" "x = Inr w"
      then obtain t where t: "t \<in> set ts" "tx_result_item t = Inr w" by (metis imageE set_map)
      then obtain i where "tsr_rollappInfo t = Some i"
        "SearchResultItem i (Some (tsr_txHash t)) (path i @ Path_text TRANSACTION @ ''/'' @ tsr_txHash t) None = Inr w"
        unfolding tx_result_item_def by (auto simp only: result_simps of_opt_eq_Inr)
      note t = t(1) this
      then show "list_all (leads infos) (view_links w)"
        using item_link [OF t(3)] leads_page [OF assms(2) found(4) [OF \<open>sr_txs r = Some ts\<close> t(1,2)] disjI2 [OF Path_text_slash [of TRANSACTION]]]
        by simp
    qed simp
    ultimately show ?thesis by (simp add: v)
  qed
  then show ?thesis by (auto simp: list_all_iff leads_def)
qed

lemma search_links_lead_witness:
  "\<exists>r v. handleGlobalSearch plain_codec compare_units '' Nim '' two_rollapps None (Inr []) = Inr r \<and>
    SearchResultContent r = Inr v \<and>
    (\<forall>l\<in>set (view_links v). \<exists>i\<in>set two_rollapps. getRollappPathFromPathname l = Inr (path i))"
proof -
  let ?r = "handleGlobalSearch plain_codec compare_units '' Nim '' two_rollapps None (Inr [])"
  have "\<not> isl (rbind ?r SearchResultContent)" by code_simp
  then obtain r v where r: "?r = Inr r" "SearchResultContent r = Inr v"
    by (cases ?r; cases "SearchResultContent (projr ?r)") auto
  have "clean_paths two_rollapps"
    unfolding two_rollapps_def by (rule clean_normalized)
  from search_links_lead [OF r(1) this r(2)] r show ?thesis by blast
qed

text \<open>
  A transaction found in a chain that the explorer does not list (a postponed one) makes the
  results fail as a whole: its rollapp is missing, and its id is read without asking.
\<close>

theorem unlisted_chain_fails:
  assumes "handleGlobalSearch A lc searchText infos selected (Inr txs) = Inr r" and "isTxHash (trim searchText)"
    and "trim searchText \<noteq> []" and "(cid, hash) \<in> set txs" and "cid \<notin> chain_id ` set infos"
  shows "\<exists>e. SearchResultContent r = Inl e"
proof -
  let ?sorted = "js_sort (compare_search lc (map_option chain_id selected)) infos"
  have "List.find (\<lambda>r. chain_id r = cid) (rev ?sorted) = None" using assms(5) by (auto simp: find_None_iff)
  then have none: "obj_get (rollappInfosToObject ?sorted) cid = None" by (simp add: rollapp_map_get)
  obtain ts where ts: "sr_txs r = Some ts" "\<lparr>tsr_txHash = hash, tsr_rollappInfo = None\<rparr> \<in> set ts"
  proof -
    have "sr_txs r = Some (map (\<lambda>(cid, hash). \<lparr>tsr_txHash = hash, tsr_rollappInfo = obj_get (rollappInfosToObject ?sorted) cid\<rparr>) txs)"
      using assms(1-4) by (auto simp: handleGlobalSearch_def result_simps Let_def getTransactionSearchResult_def split: if_splits)
    moreover have "\<lparr>tsr_txHash = hash, tsr_rollappInfo = None\<rparr> \<in>
        set (map (\<lambda>(cid, hash). \<lparr>tsr_txHash = hash, tsr_rollappInfo = obj_get (rollappInfosToObject ?sorted) cid\<rparr>) txs)"
      using assms(4) none by force
    ultimately show thesis by (rule that)
  qed
  show ?thesis
  proof (cases "SearchResultContent r")
    case (Inr v)
    obtain w where "search_section (''Transaction ('' @ show_nat (length ts) @ '')'') (map tx_result_item ts) = Inr w"
      using Inr ts(1) by (auto simp: SearchResultContent_def result_simps opt_section_def)
    then obtain ws where "list_all2 (\<lambda>x w. x = Inr w) (map tx_result_item ts) ws"
      by (auto simp: search_section_def result_simps rmap_list_Inr)
    then have "\<exists>w. tx_result_item t = Inr w" if "t \<in> set ts" for t
      using that by (auto simp: list_all2_conv_all_nth in_set_conv_nth)
    from this [OF ts(2)] show ?thesis by (auto simp: tx_result_item_def)
  qed blast
qed

lemma unlisted_chain_fails_witness:
  "\<exists>r e. handleGlobalSearch plain_codec compare_units sample_hash two_rollapps None (Inr [(''gone_1-1'', sample_hash)]) = Inr r \<and>
    SearchResultContent r = Inl e"
proof -
  let ?r = "handleGlobalSearch plain_codec compare_units sample_hash two_rollapps None (Inr [(''gone_1-1'', sample_hash)])"
  have "\<not> isl ?r" by code_simp
  then obtain r where r: "?r = Inr r" by (cases ?r) auto
  have "isTxHash (trim sample_hash)" "trim sample_hash \<noteq> []" by code_simp+
  then show ?thesis
    using unlisted_chain_fails [OF r, of "''gone_1-1''" sample_hash] r
    by (auto simp: two_rollapps_def normalizeRollappsInfo_def sample_chain_def)
qed

text \<open>
  The theme survives a reload: the cookie that is set when the theme is toggled gives the new
  theme back, and toggling either theme twice gives it again.
\<close>

theorem theme_roundtrip:
  "root_theme (cookie_value THEME_COOKIE_NAME (snd (handleThemeToggle theme))) = fst (handleThemeToggle theme) \<and>
   fst (handleThemeToggle (fst (handleThemeToggle (ThemeMode_text m)))) = ThemeMode_text m"
  by (cases m) (simp_all add: root_theme_def cookie_value_def handleThemeToggle_def Let_def THEME_COOKIE_NAME_def)

end
