(* ===== verification/Pages.thy ===== *)
theory Pages
  imports Layout Store AddressPage EvmView Governance BlockView
begin

text \<open>
  How the parts are put together: the layouts of \<open>web-app/src/app\<close> (\<open>layout.tsx\<close>,
  \<open>[rollappPath]/layout.tsx\<close>), the header, the drawers and the search box around every page, the
  address page with its tabs, and the pages of errors. A page of the server is shown, or it
  redirects. The properties say that the server and the store of the browser agree on the rollapp,
  and what navigation does to the store.
\<close>

datatype 'a page = RedirectTo string | Shown 'a

section \<open>The root layout\<close>

text \<open>The theme of the first rendering and the rollapps the store is created from.\<close>

definition RootLayout :: "string option \<Rightarrow> ChainInfo list \<Rightarrow> string \<times> RollappInfo list" where
  "RootLayout themeCookie chainInfos = (root_theme themeCookie, normalizeRollappsInfo chainInfos)"

definition APP_NAME :: string where
  [cfg_defs]: "APP_NAME = ''Dr.BE''"

definition SEARCH_PLACEHOLDER :: string where
  [cfg_defs]: "SEARCH_PLACEHOLDER = ''Rollapp, Address, Block, Transaction hash, etc.''"

section \<open>The search\<close>

text \<open>The search box with what it shows: a spinner, or the results.\<close>

definition Search_box :: "searchBox \<Rightarrow> view result" where
  "Search_box S =
     (let spinner = Tag ''Box'' [] [Tag ''CircularProgress'' [] []] in
      rmap (\<lambda>shown. Frag
          [Tag ''TextField'' [(''value'', sb_value S), (''placeholder'', SEARCH_PLACEHOLDER)] [Tag ''CloseIcon'' [] []],
           shown])
        (case sb_result S of
           None \<Rightarrow> Inr spinner
         | Some searchResult \<Rightarrow> if sb_loading S then Inr spinner else SearchResultContent searchResult))"

definition SearchModal :: "bool \<Rightarrow> searchBox \<Rightarrow> view result" where
  "SearchModal isOpen S =
     (if isOpen then rmap (\<lambda>v. Tag ''Modal'' [] [Tag ''StyledCard'' [] [Tag ''CardContent'' [] [v]]]) (Search_box S)
      else Inr Nothing)"

text \<open>The start page; \<open>base_path\<close> is the \<open>BASE_PATH\<close> of the environment.\<close>

definition Home :: "string \<Rightarrow> searchBox \<Rightarrow> view result" where
  "Home base_path S =
     rmap (\<lambda>v. Tag ''Box'' []
         [Typography [Tag ''Image'' [(''src'', base_path @ ''/logo.svg'')] [], Text APP_NAME],
          Tag ''Box'' [] [v], Tag ''Footer'' [] []])
       (Search_box S)"

section \<open>The layout of a rollapp\<close>

record rollapp_metadata =
  md_title :: string
  md_description :: string

definition generateMetadata :: "ChainInfo list \<Rightarrow> string \<Rightarrow> rollapp_metadata" where
  "generateMetadata chainInfos rollappPath =
     (let nm = toUpperCase (case getRollAppInfoByRollappPath chainInfos rollappPath of
                              Some r \<Rightarrow> name r | None \<Rightarrow> [])
      in \<lparr>md_title = nm @ '' Block Explorer'', md_description = ''Exploring RollApp '' @ nm @ '' on Dymension''\<rparr>)"

definition ThemeToggleButton :: "bool \<Rightarrow> view" where
  "ThemeToggleButton isDark =
     Tag ''IconButton'' [] [Tag (if isDark then ''LightModeIcon'' else ''DarkModeIcon'') [] []]"

definition Header :: "string \<Rightarrow> RollappInfo option \<Rightarrow> bool \<Rightarrow> view" where
  "Header pathname selected isDark =
     Tag ''AppBar'' []
       [Tag ''IconButton'' [] [Tag ''MenuIcon'' [] []], Logo pathname selected,
        Tag ''TextField'' [(''placeholder'', SEARCH_PLACEHOLDER)] [], ThemeToggleButton isDark]"

text \<open>The drawer is there twice: one that opens with the menu, for narrow windows, and a fixed one.\<close>

definition drawers :: "bool \<Rightarrow> view \<Rightarrow> view" where
  "drawers menuOpen drawer =
     Tag ''nav'' []
       [Tag ''Drawer'' [(''variant'', ''temporary''), (''open'', if menuOpen then ''true'' else ''false'')] [drawer],
        Tag ''Drawer'' [(''variant'', ''permanent''), (''open'', ''true'')] [drawer]]"

definition Layout_view ::
    "string \<Rightarrow> RollappInfo option \<Rightarrow> RollappInfo list \<Rightarrow> bool \<Rightarrow> bool \<Rightarrow> menu_layout \<Rightarrow> searchBox \<Rightarrow> view \<Rightarrow> view result" where
  "Layout_view pathname selected rollapps governanceOpen isDark M S children =
     rmap (\<lambda>modal. Tag ''Box'' []
         [Header pathname selected isDark,
          drawers (ml_menuOpen M) (Sider pathname selected rollapps governanceOpen), modal, children])
       (SearchModal (ml_isSearchOpen M) S)"

text \<open>The children of \<open>Layout_view\<close>.\<close>

definition RollappLayout :: "ChainInfo list \<Rightarrow> string \<Rightarrow> view \<Rightarrow> view page" where
  "RollappLayout chainInfos rollappPath children =
     (case getRollAppInfoByRollappPath chainInfos rollappPath of
        None \<Rightarrow> RedirectTo ''/''
      | Some rollappInfo \<Rightarrow>
          Shown (Tag ''Layout'' []
            [Tag ''Box'' []
              [Tag ''CustomToolbar'' [] [], Tag ''LayoutContainer'' [] [children], Tag ''Footer'' [] []]]))"

section \<open>Pages of errors\<close>

definition LinkBack :: "string \<Rightarrow> view" where
  "LinkBack title = Tag ''MuiLink'' [(''component'', ''button'')] [Text title]"

definition error_view :: "string \<Rightarrow> view \<Rightarrow> view" where
  "error_view statusCode title = Tag ''ErrorPage'' [(''statusCode'', statusCode)] [title]"

definition RollappNotFound :: view where
  "RollappNotFound =
     Tag ''ErrorContainer'' []
       [error_view ''Not found'' (Frag [Text ''Could not find requested resource. '', LinkBack ''Return back''])]"

definition RootNotFound :: view where
  "RootNotFound =
     error_view ''404'' (Frag [Text ''Could not find requested resource. '', Link ''/'' [Text ''Return Home'']])"

definition RootError :: "string \<Rightarrow> view" where
  "RootError message = Tag ''ErrorContainer'' [] [error_view message (Link ''/'' [Text ''Return Home''])]"

definition RollappError :: "string \<Rightarrow> error_page \<Rightarrow> view" where
  "RollappError message S =
     Tag ''ErrorContainer'' [] [error_view message
       (if \<not> ep_retrying S then Tag ''MuiLink'' [(''component'', ''button'')] [Text ''Try again'']
        else Tag ''CircularProgress'' [] [])]"

section \<open>The page of an address\<close>

text \<open>What the hooks of the page and its tabs hold.\<close>

record address_hooks =
  ah_account :: "account option"
  ah_accountLoading :: bool
  ah_denomsMetadata :: denomsMetadata
  ah_denomsMetadataLoading :: bool
  ah_tokenBalances :: "erc20Balance list"
  ah_tokensLoading :: bool
  ah_nfts :: "account list"
  ah_nftsLoading :: bool
  ah_bond :: string

definition summary_content_table ::
    "'b big_ops \<Rightarrow> (string \<Rightarrow> string \<Rightarrow> int) \<Rightarrow> string \<Rightarrow> nat \<Rightarrow> address_hooks \<Rightarrow> summary_content \<Rightarrow> tableProps result" where
  "summary_content_table B localeCompare pathname page H content =
     (case content of
        ShowCoins \<Rightarrow>
          AddressCoins B localeCompare page (balances_with_metadata (ah_account H) (ah_denomsMetadata H))
            (ah_accountLoading H \<or> ah_denomsMetadataLoading H)
      | ShowTokens accountInfo evmAddress \<Rightarrow>
          AddressTokens B pathname page (ah_tokenBalances H) (ah_tokensLoading H)
      | ShowNfts accountInfo \<Rightarrow> Inr (AddressNft localeCompare pathname page (ah_nfts H) (ah_nftsLoading H))
      | ShowStaking staking \<Rightarrow>
          AddressStaking B page staking (ah_bond H) (ah_denomsMetadata H) (ah_denomsMetadataLoading H))"

definition AddressSummary ::
    "'b big_ops \<Rightarrow> (string \<Rightarrow> string \<Rightarrow> int) \<Rightarrow> string \<Rightarrow> address_hooks \<Rightarrow> dbAccount option \<Rightarrow> string option \<Rightarrow>
     AccountSummaryTab \<Rightarrow> nat \<Rightarrow> view result" where
  "AddressSummary B localeCompare pathname H accountInfo evmAddress tab page =
     rbind (getContent evmAddress accountInfo (ah_account H) tab) (\<lambda>content.
     rbind (summary_content_table B localeCompare pathname page H content) (\<lambda>P.
     rmap (\<lambda>table. Card
         [Tag ''Tabs'' [(''value'', AccountSummaryTab_text tab)] (summary_tabs accountInfo (ah_account H)), table])
       (DataTable P)))"

text \<open>\<open>None\<close> is the page that says there is no such page.\<close>

definition AddressPageTitleAndSummary ::
    "'b big_ops \<Rightarrow> (string \<Rightarrow> string \<Rightarrow> int) \<Rightarrow> string \<Rightarrow> address_hooks \<Rightarrow> string \<Rightarrow> dbAccount option \<Rightarrow> string option \<Rightarrow> bool \<Rightarrow>
     AccountSummaryTab \<Rightarrow> nat \<Rightarrow> view option result" where
  "AddressPageTitleAndSummary B localeCompare pathname H bech32Address accountInfo evmAddress tokenMode tab page =
     (if token_not_found tokenMode (ah_account H) then Inr None
      else
        rmap (\<lambda>summary. Some (Frag
            [AddressPageTitle bech32Address evmAddress False (set_prototype (ah_account H) None) None,
             token_part (ah_account H) (ah_accountLoading H), summary]))
          (AddressSummary B localeCompare pathname H accountInfo evmAddress tab page))"

section \<open>The other pages\<close>

definition Transactions :: "string \<Rightarrow> txs_shown \<Rightarrow> view \<Rightarrow> view" where
  "Transactions pathname shown list_view =
     Frag [PageTitle (Text ''Transactions'') (txs_subtitle pathname shown), Card [list_view]]"

definition Validators :: "view \<Rightarrow> view" where
  "Validators list_view = Frag [PageTitle (Text ''Governors'') Nothing, Card [list_view]]"

definition Transaction_page :: "view \<Rightarrow> view" where
  "Transaction_page page = Frag [PageTitle (Text ''Transaction'') Nothing, page]"

definition Governances :: "view \<Rightarrow> view" where
  "Governances list_view = Frag [PageTitle (Text ''Governances'') Nothing, list_view]"

section \<open>Facts\<close>

text \<open>A lookup among references is the lookup among the objects.\<close>

lemma find_refs:
  "List.find P xs = map_option ((!) xs) (List.find (\<lambda>r. P (xs ! r)) [0..<length xs])"
proof -
  have "List.find P (map ((!) xs) [0..<length xs]) = map_option ((!) xs) (List.find (P \<circ> (!) xs) [0..<length xs])"
    by (rule find_map)
  then show ?thesis by (simp only: map_nth comp_def)
qed

lemma find_ref_lt: "List.find Q [0..<n] = Some i \<Longrightarrow> i < n"
  by (drule find_Some_in) simp

lemma init_store_path:
  assumes "getRollappPathFromPathname pathname = Inr p"
  shows "\<exists>S. init_store objs st pathname = Inr S \<and> heap S = objs \<and> pending S = [] \<and>
    rollappInfos (state S) = [0..<length objs] \<and>
    selectedRollappInfo (state S) = List.find (\<lambda>r. path (objs ! r) = p) [0..<length objs] \<and>
    rpcService (state S) = getRpcServiceFromSelectedRollappInfo objs (selectedRollappInfo (state S))"
  using assms
  by (simp add: init_store_def getInitialRollappState_def getSelectedRollappInfoByPathname_def Let_def)

text \<open>Reordering alone, with nothing else under way, selects nothing else and keeps the service.\<close>

lemma reorder_none:
  assumes "pending S = []"
  shows "selectedRollappInfo (state (dispatch lc (ReOrder None) S)) = selectedRollappInfo (state S)"
    and "rpcService (state (dispatch lc (ReOrder None) S)) = rpcService (state S)"
    and "map fixed_part (heap (dispatch lc (ReOrder None) S)) = map fixed_part (heap S)"
  using assms
  by (simp_all add: dispatch_def dispatch_commit_def dispatch_start_def run_action_def reOrderRollapps_def Let_def
      mark_map_fixed)

lemma mounted_store:
  assumes "getRollappPathFromPathname pathname = Inr p"
  shows "\<exists>S. mount_store lc objs st pathname = Inr S \<and> map fixed_part (heap S) = map fixed_part objs \<and>
    selectedRollappInfo (state S) = List.find (\<lambda>r. path (objs ! r) = p) [0..<length objs] \<and>
    rpcService (state S) = getRpcServiceFromSelectedRollappInfo objs (selectedRollappInfo (state S))"
proof -
  obtain S0 where S0: "init_store objs st pathname = Inr S0" "heap S0 = objs" "pending S0 = []"
      "selectedRollappInfo (state S0) = List.find (\<lambda>r. path (objs ! r) = p) [0..<length objs]"
      "rpcService (state S0) = getRpcServiceFromSelectedRollappInfo objs (selectedRollappInfo (state S0))"
    using init_store_path [OF assms] by blast
  then have "mount_store lc objs st pathname = Inr (dispatch lc (ReOrder None) S0)" by (simp add: mount_store_def)
  then show ?thesis using reorder_none [OF S0(3)] S0 by simp
qed

lemma fixed_normalized: "r \<in> set (normalizeRollappsInfo cs) \<Longrightarrow> fixed_part r = r"
  by (auto simp: normalizeRollappsInfo_def fixed_part_def)

lemma dispatch_same_path:
  assumes "pending S = []" and "map_option (\<lambda>r. path (heap S ! r)) (selectedRollappInfo (state S)) = Some p"
  shows "dispatch lc (PopulateChainData p) S = S"
  using assms
  by (simp add: dispatch_def dispatch_commit_def dispatch_start_def run_action_def populateChainDataByPathname_def merge_def)

text \<open>The paths of the items of the menu begin with a slash, so their links stay with the rollapp.\<close>

lemma menu_item_paths: "(n, p, ps) \<in> set sider_items \<Longrightarrow> startsWith p ''/''"
  by (auto simp: sider_items_def)

lemma item_links: "view_links (MenuItem pathname n p ps) = [getNewPathByRollapp pathname p]"
  by (simp add: MenuItem_def Typography_def Let_def)

lemma select_links: "view_links (RollappSelect selected rs) = []"
  by (simp add: RollappSelect_def rollapp_option_def Typography_def)

lemma sider_links:
  "set (view_links (Sider pathname selected rs g)) \<subseteq> (\<lambda>(n, p, ps). getNewPathByRollapp pathname p) ` set sider_items"
proof -
  have item: "view_links (case sider_items ! i of (n, p, ps) \<Rightarrow> MenuItem pathname n p ps) =
      [(\<lambda>(n, p, ps). getNewPathByRollapp pathname p) (sider_items ! i)]" for i
    by (simp add: item_links split: prod.splits)
  have "sider_items ! i \<in> set sider_items" if "i < 6" for i
    using that by (intro nth_mem) (simp add: sider_items_def)
  then show ?thesis
    by (auto simp: Sider_def Let_def item select_links simp del: nth_Cons_numeral nth_Cons_0 split: if_splits)
qed

lemma links_header:
  "view_links (Header pathname selected isDark) = [getNewPathByRollapp pathname (Path_text OVERVIEW)]"
  by (simp add: Header_def Logo_def ThemeToggleButton_def Link_def split: option.splits)

lemma links_drawers: "set (view_links (drawers b v)) = set (view_links v)"
  by (simp add: drawers_def)

section \<open>Properties\<close>

text \<open>
  C5: The server and the browser agree on the rollapp of a page. The store that is created for the
  path of any page selects the rollapp whose row the server finds for the first part of the path,
  with a service for its first address; and where the server finds none, and redirects to the start
  page, the store selects none and has no service.
\<close>

theorem server_client_agree:
  assumes "list_all not_slash seg" and "rest = [] \<or> startsWith rest ''/''"
  shows "\<exists>S. mount_store lc (snd (RootLayout themeCookie chainInfos)) st (''/'' @ seg @ rest) = Inr S \<and>
    (case getRollAppInfoByRollappPath chainInfos seg of
       None \<Rightarrow> selectedRollappInfo (state S) = None \<and> rpcService (state S) = None \<and>
         RollappLayout chainInfos seg children = RedirectTo ''/''
     | Some r \<Rightarrow> map_option (\<lambda>i. fixed_part (heap S ! i)) (selectedRollappInfo (state S)) = Some r \<and>
         rpcService (state S) = (case be_json_rpc_urls r of [] \<Rightarrow> None | url # _ \<Rightarrow> Some \<lparr>rpcUrl = url\<rparr>) \<and>
         (\<exists>v. RollappLayout chainInfos seg children = Shown v))"
proof -
  let ?objs = "normalizeRollappsInfo chainInfos" and ?p = "''/'' @ seg"
  have "getRollappPathFromPathname (''/'' @ seg @ rest) = Inr ?p"
    using rollapp_path_append [OF assms] by simp
  from mounted_store [OF this, of lc ?objs st]
  obtain S where S: "mount_store lc ?objs st (''/'' @ seg @ rest) = Inr S" "map fixed_part (heap S) = map fixed_part ?objs"
      "selectedRollappInfo (state S) = List.find (\<lambda>r. path (?objs ! r) = ?p) [0..<length ?objs]"
      "rpcService (state S) = getRpcServiceFromSelectedRollappInfo ?objs (selectedRollappInfo (state S))"
    by blast
  have server: "getRollAppInfoByRollappPath chainInfos seg = map_option ((!) ?objs) (selectedRollappInfo (state S))"
    unfolding getRollAppInfoByRollappPath_def getRollappInfoByPath_def S(3) by (rule find_refs)
  show ?thesis
  proof (cases "selectedRollappInfo (state S)")
    case None
    with S server show ?thesis
      by (auto simp: RootLayout_def RollappLayout_def getRpcServiceFromSelectedRollappInfo_def)
  next
    case (Some i)
    have i: "i < length ?objs" using S(3) Some by (metis find_ref_lt)
    then have "fixed_part (heap S ! i) = fixed_part (?objs ! i)" using S(2) by (metis length_map nth_map)
    also have "\<dots> = ?objs ! i" using i by (rule fixed_normalized [OF nth_mem])
    finally show ?thesis
      using S(1,4) server Some by (auto simp: RootLayout_def RollappLayout_def getRpcServiceFromSelectedRollappInfo_def)
  qed
qed

lemma server_client_agree_witness:
  "\<exists>S. mount_store compare_units (snd (RootLayout None [sample_chain ''Nim'' ''nim_1''])) [] (''/'' @ ''nim'' @ ''/txs'') = Inr S \<and>
    rpcService (state S) = Some \<lparr>rpcUrl = ''http://nim_1''\<rparr>"
proof -
  have "list_all not_slash ''nim''" by (simp add: not_slash_def)
  from server_client_agree [OF this, of "''/txs''" compare_units None "[sample_chain ''Nim'' ''nim_1'']" "[]" "Nothing"]
  obtain S where S: "mount_store compare_units (snd (RootLayout None [sample_chain ''Nim'' ''nim_1''])) [] (''/'' @ ''nim'' @ ''/txs'') = Inr S"
    "case getRollAppInfoByRollappPath [sample_chain ''Nim'' ''nim_1''] ''nim'' of
       None \<Rightarrow> selectedRollappInfo (state S) = None \<and> rpcService (state S) = None \<and>
         RollappLayout [sample_chain ''Nim'' ''nim_1''] ''nim'' Nothing = RedirectTo ''/''
     | Some r \<Rightarrow> map_option (\<lambda>i. fixed_part (heap S ! i)) (selectedRollappInfo (state S)) = Some r \<and>
         rpcService (state S) = (case be_json_rpc_urls r of [] \<Rightarrow> None | url # _ \<Rightarrow> Some \<lparr>rpcUrl = url\<rparr>) \<and>
         (\<exists>v. RollappLayout [sample_chain ''Nim'' ''nim_1''] ''nim'' Nothing = Shown v)"
    by auto
  have "map_option be_json_rpc_urls (getRollAppInfoByRollappPath [sample_chain ''Nim'' ''nim_1''] ''nim'') = Some [''http://nim_1'']"
    by code_simp
  with S show ?thesis by auto
qed

text \<open>
  C7: Going through the menu never leaves the rollapp: on any of its pages, every link of the header
  and of the drawers leads to a path for which the layout dispatches a change to the selected
  rollapp itself, and that leaves the store as it is.
\<close>

theorem menu_links_stay:
  assumes "list_all not_slash seg" and "seg \<noteq> []" and "rest = [] \<or> startsWith rest ''/''" and "pending S = []"
    and "map_option (\<lambda>r. path (heap S ! r)) (selectedRollappInfo (state S)) = Some (''/'' @ seg)"
    and "l \<in> set (view_links (Header (''/'' @ seg @ rest) selected isDark)) \<union>
           set (view_links (drawers isOpen (Sider (''/'' @ seg @ rest) selected rollapps governanceOpen)))"
  shows "\<exists>a. layout_effect l = Inr a \<and> dispatch lc a S = S"
proof -
  obtain p where l: "l = getNewPathByRollapp (''/'' @ seg @ rest) p" and p: "startsWith p ''/''"
    using assms(6) sider_links [of "''/'' @ seg @ rest" selected rollapps governanceOpen] menu_item_paths Path_text_slash [of OVERVIEW "[]"]
    unfolding links_header links_drawers by fastforce
  have "getRollappPathFromPathname l = Inr (''/'' @ seg)"
    unfolding l new_path_eq [OF assms(1-3)] using rollapp_path_append [OF assms(1)] p by simp
  then have "layout_effect l = Inr (PopulateChainData (''/'' @ seg))" by (simp add: layout_effect_def)
  then show ?thesis using dispatch_same_path [OF assms(4,5)] by blast
qed

lemma sample_store_facts:
  "pending sample_store = []" "service_ok sample_store"
  "map_option (\<lambda>r. path (heap sample_store ! r)) (selectedRollappInfo (state sample_store)) = Some ''/nim''"
  unfolding service_ok_def by code_simp+

lemma menu_links_stay_witness:
  "\<exists>a. layout_effect ''/nim/txs'' = Inr a \<and> dispatch compare_units a sample_store = sample_store"
proof (rule menu_links_stay)
  show "''/nim/txs'' \<in> set (view_links (Header (''/'' @ ''nim'' @ ''/blocks'') None True)) \<union>
      set (view_links (drawers True (Sider (''/'' @ ''nim'' @ ''/blocks'') None [] True)))"
    by code_simp
qed (use sample_store_facts in \<open>simp_all add: not_slash_def\<close>)

text \<open>
  C6: Choosing a rollapp in the side bar selects it. The path that is pushed makes the layout
  dispatch a change after which the rollapp selected has the chosen path (it is the chosen one when
  the paths differ), its service is made from its first address, and the metadata of the former
  rollapp's denoms is gone.
\<close>

theorem chosen_rollapp_selected:
  assumes "store_inv objs S" and "service_ok S" and "pending S = []" and "clean_paths objs" and "i < length objs"
    and "list_all not_slash seg" and "rest = [] \<or> startsWith rest ''/''"
  shows "\<exists>a j. layout_effect (sider_push (''/'' @ seg @ rest) (path (objs ! i))) = Inr a \<and>
    selectedRollappInfo (state (dispatch lc a S)) = Some j \<and> j < length objs \<and> path (objs ! j) = path (objs ! i) \<and>
    (distinct (map path objs) \<longrightarrow> j = i) \<and> service_ok (dispatch lc a S) \<and>
    (map_option (\<lambda>r. path (objs ! r)) (selectedRollappInfo (state S)) \<noteq> Some (path (objs ! i)) \<longrightarrow>
      denomsMetadata (state (dispatch lc a S)) = [])"
proof -
  let ?p = "path (objs ! i)" and ?old = "map_option (\<lambda>r. path (objs ! r)) (selectedRollappInfo (state S))"
  obtain seg' where seg': "?p = ''/'' @ seg'" "list_all not_slash seg'"
    using assms(4) nth_mem [OF assms(5)] unfolding clean_paths_def by blast
  have push: "layout_effect (sider_push (''/'' @ seg @ rest) ?p) = Inr (PopulateChainData ?p)"
    unfolding layout_effect_def seg'(1) rollapp_switch [OF assms(6) seg'(2) assms(7), THEN conjunct1] by simp
  note S' = populate_selects [OF assms(3,1,2) refl, of lc ?p]
  have inv: "infos_ok (length objs) (rollappInfos (state S))"
    "\<And>r. selectedRollappInfo (state S) = Some r \<Longrightarrow> r < length objs" using assms(1) by (simp_all add: store_inv_def)
  have "\<exists>j. selectedRollappInfo (state (dispatch lc (PopulateChainData ?p) S)) = Some j \<and> j < length objs \<and>
      path (objs ! j) = ?p"
  proof (cases "?old = Some ?p")
    case True
    then show ?thesis using S' inv(2) by auto
  next
    case False
    have "i \<in> set (rollappInfos (state S))" using infos_ok_set [OF inv(1)] assms(5) by simp
    then have "List.find (\<lambda>r. path (objs ! r) = ?p) (rollappInfos (state S)) \<noteq> None"
      unfolding find_None_iff by blast
    then obtain j where j: "List.find (\<lambda>r. path (objs ! r) = ?p) (rollappInfos (state S)) = Some j" by blast
    have "j < length objs" "path (objs ! j) = ?p"
      using find_Some_in [OF j] infos_ok_set [OF inv(1)] by auto
    with False j S' show ?thesis by simp
  qed
  then obtain j where j: "selectedRollappInfo (state (dispatch lc (PopulateChainData ?p) S)) = Some j" "j < length objs"
      "path (objs ! j) = ?p" by blast
  have "j = i" if "distinct (map path objs)"
    using that j(2,3) assms(5) by (simp add: distinct_conv_nth) metis
  then show ?thesis using push j S' by blast
qed

lemma chosen_rollapp_selected_witness:
  "\<exists>a. layout_effect (sider_push (''/'' @ ''nim'' @ ''/blocks'') (path (two_rollapps ! 1))) = Inr a \<and>
    selectedRollappInfo (state (dispatch compare_units a sample_store)) = Some 1"
proof -
  have "clean_paths two_rollapps" unfolding two_rollapps_def by (rule clean_normalized)
  moreover have "1 < length two_rollapps" "distinct (map path two_rollapps)" by code_simp+
  moreover have "list_all not_slash ''nim''" by (simp add: not_slash_def)
  ultimately show ?thesis
    using chosen_rollapp_selected [OF store_inv_init [OF sample_store] sample_store_facts(2,1), of 1 "''nim''" "''/blocks''" compare_units]
    by auto
qed

end
