(* ===== verification/TxHook.thy ===== *)
theory TxHook
  imports TxDetail Polling
begin

text \<open>
  The effect of \<open>web-app/src/hooks/useTransactionDetail.ts\<close> with its awaits. \<open>TxDetail\<close> models the
  asynchronous function as one computation; here it is cut where it awaits, a run is at one of its
  stages, and the hash may change in between. The machine is that of \<open>Polling\<close>, since the runs of an
  effect share the variable \<open>ac\<close> in the same way; nothing refreshes.
\<close>

section \<open>The stages\<close>

record tx_key =
  tk_rpcService :: RpcService
  tk_txHash :: string

datatype tx_stage = AskTx | AskEvmTx string | AskContracts transaction "string list"

datatype tx_answer =
    TxAnswer "transaction rpcResponse"
  | ContractsAnswer "erc20ContractInfo rpcResponse list"

text \<open>The request a stage awaits.\<close>

definition tx_request :: "tx_key \<Rightarrow> tx_stage \<Rightarrow> request" where
  "tx_request k stage =
     (case stage of
        AskTx \<Rightarrow> rpc_getTransactionByHash (tk_rpcService k) (tk_txHash k) None
      | AskEvmTx evmTxHash \<Rightarrow> rpc_getTransactionByHash (tk_rpcService k) evmTxHash None
      | AskContracts _ contractsAddress \<Rightarrow> rpc_getErc20ContractInfo (tk_rpcService k) (Many contractsAddress) None)"

text \<open>An answer to the other kind of request does not occur.\<close>

definition tx_of :: "tx_answer result \<Rightarrow> transaction rpcResponse result" where
  "tx_of answer = rbind answer (\<lambda>a. case a of TxAnswer r \<Rightarrow> Inr r | _ \<Rightarrow> Inl TypeError)"

definition contracts_of :: "tx_answer result \<Rightarrow> erc20ContractInfo rpcResponse list result" where
  "contracts_of answer = rbind answer (\<lambda>a. case a of ContractsAnswer rs \<Rightarrow> Inr rs | _ \<Rightarrow> Inl TypeError)"

text \<open>From the transaction to the next await: the mode, and the contracts to look up.\<close>

definition tx_prepare :: "transaction \<Rightarrow> (transaction \<times> string list) result" where
  "tx_prepare t =
     (let t = t\<lparr>tx_mode := Some COSMOS\<rparr> in
      case (tx_evmTx t, tx_evmReceipt t) of
        (Some info, Some receipt) \<Rightarrow>
          (let (mode, contracts) = mode_and_contracts info receipt
           in rmap (Pair (t\<lparr>tx_mode := Some mode\<rparr>)) (with_log_contracts receipt contracts))
      | _ \<Rightarrow> Inr (t, []))"

definition tx_loaded :: "transaction option \<Rightarrow> (tx_stage + transaction option poll_end) result" where
  "tx_loaded t =
     (case t of
        None \<Rightarrow> Inr (Inr (Write None))
      | Some t \<Rightarrow>
          rmap (\<lambda>(t, contracts).
              if (case tx_result t of None \<Rightarrow> False | Some r \<Rightarrow> res_success r) \<and> contracts \<noteq> []
              then Inl (AskContracts t contracts) else Inr (Write (Some t)))
            (tx_prepare t))"

definition tx_failed :: "js_error \<Rightarrow> transaction option poll_end" where
  "tx_failed e = (if e = AbortError then Ignore else Throw ''Failed to fetch Transaction Detail'')"

definition tx_caught ::
    "(tx_stage + transaction option poll_end) result \<Rightarrow> tx_stage + transaction option poll_end" where
  "tx_caught r = (case r of Inr next \<Rightarrow> next | Inl e \<Rightarrow> Inr (tx_failed e))"

fun tx_advance :: "tx_key \<Rightarrow> tx_stage \<Rightarrow> tx_answer result \<Rightarrow> tx_stage + transaction option poll_end" where
  "tx_advance k AskTx answer =
     tx_caught (rbind (data_of (tx_of answer)) (\<lambda>t.
       if map_option msg_type (first_msg t) = Some EVM_TX_TYPE
       then (case evm_hash t of None \<Rightarrow> tx_loaded t | Some h \<Rightarrow> Inr (Inl (AskEvmTx h)))
       else tx_loaded t))"
| "tx_advance k (AskEvmTx evmTxHash) answer = tx_caught (rbind (data_of (tx_of answer)) tx_loaded)"
| "tx_advance k (AskContracts t contractsAddress) answer =
     tx_caught (rmap (\<lambda>infos. Inr (Write (Some
         (t\<lparr>tx_evmContractAddressToErc20ContractInfo := Some (contract_map contractsAddress infos)\<rparr>))))
       (getResponseResults (contracts_of answer) False))"

definition tx_cfg :: "(tx_key, tx_stage, tx_answer, transaction option) poll_cfg" where
  "tx_cfg = \<lparr>pc_start = AskTx, pc_begins_loading = True, pc_always_ends = False, pc_advance = tx_advance\<rparr>"

section \<open>The effect\<close>

type_synonym tx_hook = "(tx_key, tx_stage, transaction option) poll"

definition tx_effect :: "RpcService option \<Rightarrow> string \<Rightarrow> tx_hook \<Rightarrow> tx_hook" where
  "tx_effect rpcService txHash S =
     (let S' = S\<lparr>pl_epoch := pl_epoch S + 1\<rparr> in
      case rpcService of
        None \<Rightarrow> S'\<lparr>pl_thrown := Some ''Rpc Service is not available''\<rparr>
      | Some svc \<Rightarrow>
          (let k = \<lparr>tk_rpcService = svc, tk_txHash = txHash\<rparr>; S'' = S'\<lparr>pl_key := Some (k, False)\<rparr>
           in if txHash \<noteq> [] then poll_fetch tx_cfg k S'' else S''\<lparr>pl_data := None\<rparr>))"

datatype tx_hook_event =
    TxChange "RpcService option" string
  | TxSettle nat "tx_answer result"
  | TxUnmount

fun tx_hook_step :: "tx_hook_event \<Rightarrow> tx_hook \<Rightarrow> tx_hook" where
  "tx_hook_step (TxChange rpcService txHash) S = tx_effect rpcService txHash (poll_cleanup S)"
| "tx_hook_step (TxSettle i answer) S = poll_settle tx_cfg i answer S"
| "tx_hook_step TxUnmount S = poll_cleanup S"

definition tx_hook_run :: "tx_hook_event list \<Rightarrow> tx_hook \<Rightarrow> tx_hook" where
  "tx_hook_run es S = foldl (\<lambda>S e. tx_hook_step e S) S es"

section \<open>The stages and the whole function\<close>

text \<open>What is left to compute at a stage, when \<open>net\<close> answers the requests.\<close>

definition ask_tx_of :: "(request \<Rightarrow> tx_answer result) \<Rightarrow> RpcService \<Rightarrow> string \<Rightarrow> transaction rpcResponse result" where
  "ask_tx_of net svc h = tx_of (net (rpc_getTransactionByHash svc h None))"

definition ask_contracts_of ::
    "(request \<Rightarrow> tx_answer result) \<Rightarrow> RpcService \<Rightarrow> string list \<Rightarrow> erc20ContractInfo rpcResponse list result" where
  "ask_contracts_of net svc cs = contracts_of (net (rpc_getErc20ContractInfo svc (Many cs) None))"

definition tx_rest ::
    "(request \<Rightarrow> tx_answer result) \<Rightarrow> RpcService \<Rightarrow> transaction option \<Rightarrow> transaction option result" where
  "tx_rest net svc t = (case t of None \<Rightarrow> Inr None | Some t \<Rightarrow> rmap Some (classify (ask_contracts_of net svc) t))"

definition tx_result_at :: "(request \<Rightarrow> tx_answer result) \<Rightarrow> tx_key \<Rightarrow> tx_stage \<Rightarrow> transaction option result" where
  "tx_result_at net k stage =
     (case stage of
        AskTx \<Rightarrow> rbind (data_of (ask_tx_of net (tk_rpcService k) (tk_txHash k)))
          (\<lambda>t. rbind (load_evm_form (ask_tx_of net (tk_rpcService k)) t) (tx_rest net (tk_rpcService k)))
      | AskEvmTx h \<Rightarrow> rbind (data_of (ask_tx_of net (tk_rpcService k) h)) (tx_rest net (tk_rpcService k))
      | AskContracts t cs \<Rightarrow> rmap (\<lambda>infos. Some
            (t\<lparr>tx_evmContractAddressToErc20ContractInfo := Some (contract_map cs infos)\<rparr>))
          (getResponseResults (ask_contracts_of net (tk_rpcService k) cs) False))"

definition ending_of :: "transaction option result \<Rightarrow> transaction option poll_end" where
  "ending_of r = (case r of Inr t \<Rightarrow> Write t | Inl e \<Rightarrow> tx_failed e)"

fun awaits :: "tx_stage \<Rightarrow> nat" where
  "awaits AskTx = 3"
| "awaits (AskEvmTx _) = 2"
| "awaits (AskContracts _ _) = 1"

lemma data_of_eq: "rmap (\<lambda>x. case x of Result v \<Rightarrow> Some v | _ \<Rightarrow> None) (getResponseResult r True) = data_of r"
proof -
  have "(\<lambda>x. case x of Result v \<Rightarrow> Some v | _ \<Rightarrow> None) =
      (\<lambda>x. case x of Result v \<Rightarrow> Some v | ErrorObj _ \<Rightarrow> None | Undefined \<Rightarrow> None)"
    by (rule refl)
  then show ?thesis by (simp only: data_of_def)
qed

lemma whole_function:
  assumes "tk_txHash k \<noteq> []"
  shows "useTransactionDetail (ask_tx_of net (tk_rpcService k)) (ask_contracts_of net (tk_rpcService k)) (tk_txHash k) =
    tx_result_at net k AskTx"
proof -
  have "tx_rest net svc = case_option (Inr None) (\<lambda>t. rmap Some (classify (ask_contracts_of net svc) t))" for svc
    by (rule ext) (simp add: tx_rest_def)
  then show ?thesis using assms by (simp add: useTransactionDetail_def tx_result_at_def data_of_eq)
qed

lemma classify_prepare:
  "classify ask t = rbind (tx_prepare t) (\<lambda>(t, cs). add_contracts ask t cs)"
  by (auto simp: classify_def tx_prepare_def Let_def add_contracts_def rbind_def rmap_def split: option.splits prod.splits sum.splits)

definition agrees :: "(request \<Rightarrow> tx_answer result) \<Rightarrow> tx_key \<Rightarrow> nat \<Rightarrow> tx_stage + transaction option poll_end \<Rightarrow>
    transaction option result \<Rightarrow> bool" where
  "agrees net k n next r \<longleftrightarrow>
     (case next of Inl s \<Rightarrow> awaits s < n \<and> tx_result_at net k s = r | Inr e \<Rightarrow> e = ending_of r)"

lemma agrees_caught_loaded:
  assumes "1 < n"
  shows "agrees net k n (tx_caught (tx_loaded t)) (tx_rest net (tk_rpcService k) t)"
proof (cases t)
  case None
  then show ?thesis by (simp add: agrees_def tx_caught_def tx_loaded_def tx_rest_def ending_of_def)
next
  case (Some u)
  show ?thesis
  proof (cases "tx_prepare u")
    case (Inl e)
    then show ?thesis
      using Some by (simp add: agrees_def tx_caught_def tx_loaded_def tx_rest_def ending_of_def classify_prepare)
  next
    case (Inr p)
    then show ?thesis
      using Some assms
      by (cases p) (auto simp: agrees_def tx_caught_def tx_loaded_def tx_rest_def ending_of_def classify_prepare
        add_contracts_def tx_result_at_def rmap_def split: sum.splits)
  qed
qed

lemma advance_agrees:
  "agrees net k (awaits s) (tx_advance k s (net (tx_request k s))) (tx_result_at net k s)"
proof (cases s)
  case AskTx
  let ?d = "data_of (ask_tx_of net (tk_rpcService k) (tk_txHash k))"
  have adv: "tx_advance k s (net (tx_request k s)) =
      tx_caught (rbind ?d (\<lambda>t. if map_option msg_type (first_msg t) = Some EVM_TX_TYPE
         then (case evm_hash t of None \<Rightarrow> tx_loaded t | Some h \<Rightarrow> Inr (Inl (AskEvmTx h))) else tx_loaded t))"
    using AskTx by (simp add: tx_request_def ask_tx_of_def)
  show ?thesis
  proof (cases ?d)
    case (Inl e)
    then show ?thesis unfolding adv using AskTx by (simp add: agrees_def tx_caught_def tx_result_at_def ending_of_def)
  next
    case (Inr t)
    have res: "tx_result_at net k s = rbind (load_evm_form (ask_tx_of net (tk_rpcService k)) t) (tx_rest net (tk_rpcService k))"
      using AskTx Inr by (simp add: tx_result_at_def)
    show ?thesis
    proof (cases "map_option msg_type (first_msg t) = Some EVM_TX_TYPE \<and> evm_hash t \<noteq> None")
      case True
      then obtain h where h: "evm_hash t = Some h" by blast
      with True have "load_evm_form (ask_tx_of net (tk_rpcService k)) t = data_of (ask_tx_of net (tk_rpcService k) h)"
        by (simp add: load_evm_form_def data_of_eq)
      with True h show ?thesis
        unfolding adv res using AskTx Inr by (simp add: agrees_def tx_caught_def tx_result_at_def)
    next
      case False
      then have "load_evm_form (ask_tx_of net (tk_rpcService k)) t = Inr t"
        by (auto simp: load_evm_form_def)
      with False show ?thesis
        unfolding adv res using AskTx Inr agrees_caught_loaded [of 3 net k t] by (auto simp: Inr)
    qed
  qed
next
  case (AskEvmTx h)
  show ?thesis
  proof (cases "data_of (ask_tx_of net (tk_rpcService k) h)")
    case (Inl e)
    with AskEvmTx show ?thesis
      by (simp add: tx_request_def ask_tx_of_def tx_result_at_def agrees_def tx_caught_def ending_of_def)
  next
    case (Inr t)
    with AskEvmTx show ?thesis
      using agrees_caught_loaded [of 2 net k t] by (simp add: tx_request_def ask_tx_of_def tx_result_at_def)
  qed
next
  case (AskContracts t cs)
  then show ?thesis
    by (cases "getResponseResults (ask_contracts_of net (tk_rpcService k) cs) False")
      (simp_all add: tx_request_def ask_contracts_of_def tx_result_at_def agrees_def tx_caught_def ending_of_def)
qed

section \<open>Runs that are over or stale\<close>

lemma tx_ignores_abort: "ignores_abort tx_cfg"
proof -
  have "tx_advance k s (Inl AbortError) = Inr Ignore" for k s
    by (cases s) (simp_all add: tx_of_def contracts_of_def data_of_def getResponseResult_def getResponseResults_def
      tx_caught_def tx_failed_def)
  then show ?thesis by (simp add: ignores_abort_def tx_cfg_def)
qed

lemma stale_poll_settle:
  assumes "poll_inv S" and "pl_ac S \<noteq> Some j"
  shows "\<exists>rs. poll_settle tx_cfg j a S = S\<lparr>pl_runs := rs\<rparr> \<and> length rs = length (pl_runs S) \<and>
    (\<forall>i. i \<noteq> j \<longrightarrow> rs ! i = pl_runs S ! i)"
proof (cases "length (pl_runs S) \<le> j \<or> pr_done (pl_runs S ! j)")
  case True
  then have "poll_settle tx_cfg j a S = S\<lparr>pl_runs := pl_runs S\<rparr>" by (auto simp: poll_settle_def)
  then show ?thesis by blast
next
  case False
  then have ab: "pr_aborted (pl_runs S ! j)"
    using poll_invD(1) [OF assms(1), of j] assms(2) by (auto simp: poll_live_def)
  then have "own_ac S j None = pl_ac S"
    using poll_invD(6) [OF assms(1), of j] False by (auto simp: own_ac_def)
  moreover have "pc_advance tx_cfg k s (Inl AbortError) = Inr Ignore" for k s
    using tx_ignores_abort by (simp add: ignores_abort_def)
  ultimately have "poll_settle tx_cfg j a S = S\<lparr>pl_runs := (pl_runs S)[j := (pl_runs S ! j)\<lparr>pr_done := True\<rparr>]\<rparr>"
    using False ab by (simp add: poll_settle_def Let_def tx_cfg_def)
  then show ?thesis by (intro exI [of _ "(pl_runs S)[j := (pl_runs S ! j)\<lparr>pr_done := True\<rparr>]"]) simp
qed

lemma poll_inv_effect:
  assumes "poll_inv S" and "pl_ac S = None" and "pl_key S = None" and "\<And>i. \<not> poll_live S i"
  shows "poll_inv (tx_effect svc h S)"
proof -
  have old: "i < length (pl_runs S) \<Longrightarrow> pr_epoch (pl_runs S ! i) < pl_epoch S + 1" for i
    using poll_invD(5) [OF assms(1)] by (simp add: less_Suc_eq_le)
  show ?thesis
  proof (cases svc)
    case None
    then show ?thesis
      using assms(2,3,4) less_imp_le [OF old] unfolding poll_inv_def tx_effect_def
      by (auto simp: poll_live_def Let_def)
  next
    case (Some v)
    show ?thesis
    proof (cases "h = []")
      case True
      then show ?thesis
        using Some assms(2,4) less_imp_le [OF old] less_imp_neq [OF old] unfolding poll_inv_def tx_effect_def
        by (auto simp: poll_live_def Let_def)
    next
      case False
      have "poll_inv (poll_fetch tx_cfg k (S\<lparr>pl_epoch := pl_epoch S + 1, pl_key := Some (k, False)\<rparr>))" for k
        by (rule poll_inv_fetch) (use assms old in \<open>auto simp: poll_live_def\<close>)
      then show ?thesis using Some False by (simp add: tx_effect_def Let_def)
    qed
  qed
qed

lemma poll_inv_cleaned: "poll_inv S \<Longrightarrow> poll_inv (poll_cleanup S)"
  using poll_inv_cleanup [of S] by (auto simp: poll_inv_def)

lemma tx_hook_inv: "poll_inv (tx_hook_run es (poll_init None))"
proof (induction es rule: rev_induct)
  case Nil
  show ?case by (simp add: tx_hook_run_def poll_init_def poll_inv_def poll_live_def)
next
  case (snoc e es)
  let ?S = "tx_hook_run es (poll_init None)"
  have "poll_inv (tx_hook_step e ?S)"
    using poll_inv_effect [OF poll_inv_cleaned [OF snoc] poll_inv_cleanup(1) [OF snoc] poll_inv_cleanup(3) [OF snoc]
        poll_inv_cleanup(2) [OF snoc]] poll_inv_settle [OF snoc tx_ignores_abort] poll_inv_cleaned [OF snoc]
    by (cases e) simp_all
  then show ?case by (simp add: tx_hook_run_def)
qed

section \<open>One run among stale answers\<close>

text \<open>
  A schedule for the run \<open>i\<close>: \<open>None\<close> lets the network answer the request the run awaits, \<open>Some (j, a)\<close>
  is the answer \<open>a\<close> to the run \<open>j\<close>.
\<close>

fun tx_serve :: "(request \<Rightarrow> tx_answer result) \<Rightarrow> nat \<Rightarrow> (nat \<times> tx_answer result) option list \<Rightarrow> tx_hook \<Rightarrow> tx_hook" where
  "tx_serve net i [] S = S"
| "tx_serve net i (None # sched) S =
     tx_serve net i sched
       (tx_hook_step (TxSettle i (net (tx_request (pr_key (pl_runs S ! i)) (pr_stage (pl_runs S ! i))))) S)"
| "tx_serve net i (Some (j, a) # sched) S = tx_serve net i sched (tx_hook_step (TxSettle j a) S)"

definition tx_outcome ::
    "transaction option result \<Rightarrow> transaction option \<Rightarrow> string option \<Rightarrow> tx_hook \<Rightarrow> bool" where
  "tx_outcome r d th S \<longleftrightarrow>
     (case r of
        Inr t \<Rightarrow> pl_data S = t \<and> \<not> pl_loading S \<and> pl_thrown S = th
      | Inl e \<Rightarrow> pl_data S = d \<and> pl_loading S \<and>
          pl_thrown S = (if e = AbortError then th else Some ''Failed to fetch Transaction Detail''))"

definition tx_over ::
    "transaction option result \<Rightarrow> transaction option \<Rightarrow> string option \<Rightarrow> tx_hook \<Rightarrow> bool" where
  "tx_over r d th S \<longleftrightarrow> poll_inv S \<and> pl_ac S = None \<and> tx_outcome r d th S"

definition tx_waiting :: "tx_key \<Rightarrow> tx_stage \<Rightarrow> transaction option \<Rightarrow> string option \<Rightarrow> nat \<Rightarrow> tx_hook \<Rightarrow> bool" where
  "tx_waiting k s d th i S \<longleftrightarrow> poll_inv S \<and> pl_ac S = Some i \<and>
     pl_runs S ! i = \<lparr>pr_key = k, pr_stage = s, pr_epoch = pl_epoch S, pr_aborted = False, pr_done = False\<rparr> \<and>
     pl_loading S \<and> pl_data S = d \<and> pl_thrown S = th"

lemma over_settle: "tx_over r d th S \<Longrightarrow> tx_over r d th (poll_settle tx_cfg j a S)"
  using stale_poll_settle [of S j a] poll_inv_settle [of S tx_cfg j a, OF _ tx_ignores_abort]
  by (auto simp: tx_over_def tx_outcome_def split: sum.splits)

lemma over_serve: "tx_over r d th S \<Longrightarrow> tx_over r d th (tx_serve net i sched S)"
  by (induction net i sched S rule: tx_serve.induct) (simp_all add: over_settle)

lemma waiting_stale:
  "tx_waiting k s d th i S \<Longrightarrow> j \<noteq> i \<Longrightarrow> tx_waiting k s d th i (poll_settle tx_cfg j a S)"
  using stale_poll_settle [of S j a] poll_inv_settle [of S tx_cfg j a, OF _ tx_ignores_abort]
  by (auto simp: tx_waiting_def)

lemma waiting_served:
  assumes "tx_waiting k s d th i S"
  shows "case tx_advance k s a of
      Inl s' \<Rightarrow> tx_waiting k s' d th i (poll_settle tx_cfg i a S)
    | Inr (Write t) \<Rightarrow> tx_over (Inr t) d th (poll_settle tx_cfg i a S)
    | Inr (Throw m) \<Rightarrow> m = ''Failed to fetch Transaction Detail'' \<longrightarrow> tx_over (Inl TypeError) d th (poll_settle tx_cfg i a S)
    | Inr Ignore \<Rightarrow> tx_over (Inl AbortError) d th (poll_settle tx_cfg i a S)"
proof -
  note w = assms [unfolded tx_waiting_def]
  then have i: "i < length (pl_runs S)" "pl_key S \<noteq> None" using poll_invD(2,4) [of S i] by auto
  then have own: "own_ac S i ac = ac" for ac using w by (simp add: own_ac_def)
  have "poll_inv (poll_settle tx_cfg i a S)" using w poll_inv_settle [OF _ tx_ignores_abort] by blast
  then show ?thesis
    using w i(1) own
    by (auto simp: tx_waiting_def tx_over_def tx_outcome_def poll_settle_def Let_def tx_cfg_def split: sum.splits poll_end.splits)
qed

lemma served_result:
  assumes "tx_waiting k s d th i S" and "\<And>j a. Some (j, a) \<in> set sched \<Longrightarrow> j \<noteq> i"
    and "awaits s \<le> length (filter (\<lambda>x. x = None) sched)"
  shows "tx_over (tx_result_at net k s) d th (tx_serve net i sched S)"
  using assms
proof (induction net i sched S arbitrary: s rule: tx_serve.induct)
  case (1 net i S)
  then show ?case by (cases s) simp_all
next
  case (2 net i sched S)
  let ?a = "net (tx_request (pr_key (pl_runs S ! i)) (pr_stage (pl_runs S ! i)))"
  have a: "?a = net (tx_request k s)" using 2(2) by (simp add: tx_waiting_def)
  note served = waiting_served [OF 2(2), of ?a, unfolded a] and agr = advance_agrees [of net k s]
  have stale: "Some (j, b) \<in> set sched \<Longrightarrow> j \<noteq> i" for j b using 2(3) by simp
  show ?case
  proof (cases "tx_advance k s (net (tx_request k s))")
    case (Inl s')
    then have w: "tx_waiting k s' d th i (tx_hook_step (TxSettle i ?a) S)" and r: "tx_result_at net k s' = tx_result_at net k s"
      and n: "awaits s' < awaits s"
      using served agr by (simp_all add: agrees_def a)
    have "awaits s' \<le> length (filter (\<lambda>x. x = None) sched)" using n 2(4) by simp
    from 2(1) [OF w stale this] show ?thesis by (simp add: r)
  next
    case (Inr e)
    then have e: "e = ending_of (tx_result_at net k s)" using agr by (simp add: agrees_def)
    have "tx_over (tx_result_at net k s) d th (tx_hook_step (TxSettle i ?a) S)"
      using served Inr unfolding e a
      by (cases "tx_result_at net k s")
        (auto simp: ending_of_def tx_failed_def tx_over_def tx_outcome_def split: if_splits)
    then show ?thesis using over_serve by simp
  qed
next
  case (3 net i j a sched S)
  have "j \<noteq> i" using 3(3) [of j a] by simp
  then have "tx_waiting k s d th i (tx_hook_step (TxSettle j a) S)" using waiting_stale [OF 3(2)] by simp
  moreover have "Some (j', b) \<in> set sched \<Longrightarrow> j' \<noteq> i" for j' b using 3(3) [of j' b] by simp
  ultimately show ?case using 3(1) [of s] 3(4) by simp
qed

section \<open>Properties\<close>

text \<open>
  C9: The hook computes what the function would compute in one piece. Whatever happened before, when the
  hash changes to another one and the network answers the requests of the new run, at most three,
  while answers to older runs arrive in between in any order, then the hook shows the transaction with
  its mode and contracts, or throws, exactly as the computation without interruptions; only an abort
  leaves it loading.
\<close>

theorem transaction_hook_refines:
  assumes "S = tx_hook_run es (poll_init None)" and "txHash \<noteq> []" and "i = length (pl_runs S)"
    and "\<And>j a. Some (j, a) \<in> set sched \<Longrightarrow> j \<noteq> i" and "3 \<le> length (filter (\<lambda>x. x = None) sched)"
    and "T = tx_serve net i sched (tx_hook_step (TxChange (Some svc) txHash) S)"
  shows "case useTransactionDetail (ask_tx_of net svc) (ask_contracts_of net svc) txHash of
      Inr t \<Rightarrow> pl_data T = t \<and> \<not> pl_loading T \<and> pl_thrown T = pl_thrown S
    | Inl e \<Rightarrow> pl_data T = pl_data S \<and> pl_loading T \<and>
        pl_thrown T = (if e = AbortError then pl_thrown S else Some ''Failed to fetch Transaction Detail'')"
proof -
  let ?k = "\<lparr>tk_rpcService = svc, tk_txHash = txHash\<rparr>" and ?T = "tx_hook_step (TxChange (Some svc) txHash) S"
  have inv: "poll_inv ?T"
    using tx_hook_inv [of "es @ [TxChange (Some svc) txHash]"] assms(1) by (simp add: tx_hook_run_def)
  have len: "length (pl_runs (poll_cleanup S)) = i" "pl_data (poll_cleanup S) = pl_data S"
    "pl_thrown (poll_cleanup S) = pl_thrown S" "pl_epoch (poll_cleanup S) = pl_epoch S"
    using assms(3) by (simp_all add: poll_cleanup_def split: option.splits)
  have "tx_waiting ?k AskTx (pl_data S) (pl_thrown S) i ?T"
    unfolding tx_waiting_def
    by (intro conjI inv) (use assms(2) len in \<open>simp_all add: tx_effect_def poll_fetch_def tx_cfg_def nth_append Let_def\<close>)
  from served_result [OF this assms(4)] assms(5)
  have "tx_outcome (tx_result_at net ?k AskTx) (pl_data S) (pl_thrown S) T"
    by (simp add: assms(6) tx_over_def)
  then show ?thesis using whole_function [of ?k net] assms(2) by (simp add: tx_outcome_def)
qed

definition sample_net :: "request \<Rightarrow> tx_answer result" where
  "sample_net q = Inr (TxAnswer \<lparr>rr_jsonrpc = ''2.0'', rr_id = 1, rr_result = Some sample_tx, rr_error = None\<rparr>)"

lemma transaction_hook_refines_witness:
  "pl_data (tx_serve sample_net 1 [None, Some (0, Inr (TxAnswer \<lparr>rr_jsonrpc = ''2.0'', rr_id = 1, rr_result = None, rr_error = None\<rparr>)), None, None]
      (tx_hook_step (TxChange (Some \<lparr>rpcUrl = ''u''\<rparr>) ''ab'')
        (tx_hook_run [TxChange (Some \<lparr>rpcUrl = ''u''\<rparr>) ''cd''] (poll_init None)))) =
   Some (sample_tx\<lparr>tx_mode := Some COSMOS\<rparr>)"
proof -
  let ?S = "tx_hook_run [TxChange (Some \<lparr>rpcUrl = ''u''\<rparr>) ''cd''] (poll_init None)"
  have one: "1 = length (pl_runs ?S)"
    by (simp add: tx_hook_run_def tx_effect_def poll_fetch_def poll_cleanup_def poll_init_def Let_def)
  have "useTransactionDetail (ask_tx_of sample_net \<lparr>rpcUrl = ''u''\<rparr>) (ask_contracts_of sample_net \<lparr>rpcUrl = ''u''\<rparr>) ''ab'' =
      Inr (Some (sample_tx\<lparr>tx_mode := Some COSMOS\<rparr>))"
    by (simp add: useTransactionDetail_def ask_tx_of_def tx_of_def sample_net_def getResponseResult_def load_evm_form_def
      first_msg_def classify_cosmos sample_tx_def)
  moreover note transaction_hook_refines [OF refl, where txHash = "''ab''" and net = sample_net and svc = "\<lparr>rpcUrl = ''u''\<rparr>" and
      sched = "[None, Some (0, Inr (TxAnswer \<lparr>rr_jsonrpc = ''2.0'', rr_id = 1, rr_result = None, rr_error = None\<rparr>)), None, None]",
      OF _ one _ _ refl]
  ultimately show ?thesis by simp
qed

end
