(* ===== verification/ServerCache.thy ===== *)
theory ServerCache
  imports Db Cache
begin

text \<open>
  The queries of \<open>web-app/src/services/db\<close> through the cache of \<open>utils/prismaCache.ts\<close>: the methods
  \<open>withCache\<close> adds to the models, and the server as a machine. A request of the server looks its query
  up; if that fails the query is sent, and its answer arrives later, after other requests. Times are in
  milliseconds, as in the cache.
\<close>

section \<open>The methods of the models\<close>

definition findManyWithCache :: "string \<Rightarrow> ('a \<times> cacheStrategy option) option \<Rightarrow> 'a query_plan" where
  "findManyWithCache model args = queryWithCache model ''findMany'' args"

definition findUniqueWithCache :: "string \<Rightarrow> 'a \<times> cacheStrategy option \<Rightarrow> 'a query_plan" where
  "findUniqueWithCache model args = queryWithCache model ''findUnique'' (Some args)"

definition countWithCache :: "string \<Rightarrow> ('a \<times> cacheStrategy option) option \<Rightarrow> 'a query_plan" where
  "countWithCache model args = queryWithCache model ''count'' args"

text \<open>What is handed to the method, apart from the strategy.\<close>

definition query_args :: "query \<Rightarrow> string list option \<times> cond \<times> (string \<times> order) list \<times> pagination" where
  "query_args q = (q_select q, q_where q, q_orderBy q, q_page q)"

definition plan_of ::
    "query \<Rightarrow> (string list option \<times> cond \<times> (string \<times> order) list \<times> pagination) query_plan" where
  "plan_of q =
     (let args = (query_args q, Some \<lparr>cs_enabled = q_cache q, cs_revalidate = None\<rparr>) in
      if q_action q = ''findUnique'' then findUniqueWithCache (q_model q) args
      else if q_action q = ''count'' then countWithCache (q_model q) (Some args)
      else findManyWithCache (q_model q) (Some args))"

section \<open>The requests of the server\<close>

datatype server_call =
    ChainInfos
  | ChainName string
  | ChainNames "string list"
  | EvmChains
  | ChainsByPrefix string
  | ChainSearch string
  | AccountTxCount string string AccountTransactionFilterOption
  | AccountTxs string string AccountTransactionFilterOption pagination
  | AccountRow string string
  | Txs string pagination
  | TxCount string
  | TxCountSince string int
  | TxsByHash string
  | ChainAndTxByHash string

definition unix_time :: "nat \<Rightarrow> int" where
  "unix_time now = int (now div 1000)"

fun query_of :: "nat \<Rightarrow> server_call \<Rightarrow> query" where
  "query_of now ChainInfos = getChainInfos (unix_time now)"
| "query_of now (ChainName cid) = getChainNameByChainId (unix_time now) cid"
| "query_of now (ChainNames cids) = getChainNamesByChainIds (unix_time now) cids"
| "query_of now EvmChains = getEvmChainInfo (unix_time now)"
| "query_of now (ChainsByPrefix p) = getChainInfoByPrefix (unix_time now) p"
| "query_of now (ChainSearch v) = searchChainInfoByMultipleFields (unix_time now) v"
| "query_of now (AccountTxCount cid a opts) = countAccountTransactions cid a opts"
| "query_of now (AccountTxs cid a opts pg) = getAccountTransactions cid a opts pg"
| "query_of now (AccountRow cid a) = getAccount cid a"
| "query_of now (Txs cid pg) = getTransactions cid pg"
| "query_of now (TxCount cid) = countTransactions cid"
| "query_of now (TxCountSince cid since) = countTransactionsSinceTimestamp cid since"
| "query_of now (TxsByHash h) = searchByTxHash h"
| "query_of now (ChainAndTxByHash h) = getChainIdAndTxHashByHash h"

section \<open>The server\<close>

record log_entry =
  lg_time :: nat
  lg_query :: query
  lg_value :: "json result"
  lg_from_db :: bool

record 's server =
  sv_cache :: 's
  sv_asked :: "query option list"
  sv_log :: "log_entry list"

datatype server_event = Ask nat server_call | Reply nat nat "json result"

definition look_up ::
    "(nat \<Rightarrow> string \<Rightarrow> 's \<Rightarrow> json option) \<Rightarrow>
     (string list option \<times> cond \<times> (string \<times> order) list \<times> pagination \<Rightarrow> string) \<Rightarrow> nat \<Rightarrow> query \<Rightarrow> 's \<Rightarrow> json option"
    where
  "look_up cget stringify now q s =
     (case plan_of q of Through key _ a \<Rightarrow> cache_start cget now (cache_key stringify key a) s | _ \<Rightarrow> None)"

definition keep ::
    "(nat \<Rightarrow> string \<Rightarrow> json \<Rightarrow> nat \<Rightarrow> 's \<Rightarrow> 's) \<Rightarrow>
     (string list option \<times> cond \<times> (string \<times> order) list \<times> pagination \<Rightarrow> string) \<Rightarrow> nat \<Rightarrow> query \<Rightarrow>
     json result \<Rightarrow> 's \<Rightarrow> json result \<times> 's" where
  "keep cset stringify now q outcome s =
     (case plan_of q of
        Through key ttl a \<Rightarrow> cache_finish cset now (cache_key stringify key a) ttl outcome s
      | _ \<Rightarrow> (outcome, s))"

fun server_step ::
    "(nat \<Rightarrow> string \<Rightarrow> 's \<Rightarrow> json option) \<Rightarrow> (nat \<Rightarrow> string \<Rightarrow> json \<Rightarrow> nat \<Rightarrow> 's \<Rightarrow> 's) \<Rightarrow>
     (string list option \<times> cond \<times> (string \<times> order) list \<times> pagination \<Rightarrow> string) \<Rightarrow>
     server_event \<Rightarrow> 's server \<Rightarrow> 's server" where
  "server_step cget cset stringify (Ask now c) S =
     (let q = query_of now c in
      case look_up cget stringify now q (sv_cache S) of
        Some v \<Rightarrow> S\<lparr>sv_log := sv_log S @ [\<lparr>lg_time = now, lg_query = q, lg_value = Inr v, lg_from_db = False\<rparr>]\<rparr>
      | None \<Rightarrow> S\<lparr>sv_asked := sv_asked S @ [Some q]\<rparr>)"
| "server_step cget cset stringify (Reply now i outcome) S =
     (if length (sv_asked S) \<le> i then S
      else case sv_asked S ! i of
        None \<Rightarrow> S
      | Some q \<Rightarrow>
          (let (res, s) = keep cset stringify now q outcome (sv_cache S) in
           S\<lparr>sv_cache := s, sv_asked := (sv_asked S)[i := None],
             sv_log := sv_log S @ [\<lparr>lg_time = now, lg_query = q, lg_value = res, lg_from_db = True\<rparr>]\<rparr>))"

definition server_run ::
    "(nat \<Rightarrow> string \<Rightarrow> 's \<Rightarrow> json option) \<Rightarrow> (nat \<Rightarrow> string \<Rightarrow> json \<Rightarrow> nat \<Rightarrow> 's \<Rightarrow> 's) \<Rightarrow>
     (string list option \<times> cond \<times> (string \<times> order) list \<times> pagination \<Rightarrow> string) \<Rightarrow>
     server_event list \<Rightarrow> 's \<Rightarrow> 's server" where
  "server_run cget cset stringify es s =
     foldl (\<lambda>S e. server_step cget cset stringify e S) \<lparr>sv_cache = s, sv_asked = [], sv_log = []\<rparr> es"

fun event_time :: "server_event \<Rightarrow> nat" where
  "event_time (Ask now _) = now"
| "event_time (Reply now _ _) = now"

fun event_queries :: "server_event \<Rightarrow> query list" where
  "event_queries (Ask now c) = [query_of now c]"
| "event_queries (Reply _ _ _) = []"

section \<open>Facts\<close>

definition query_key :: "query \<Rightarrow> string" where
  "query_key q = ''prisma,'' @ q_model q @ '','' @ q_action q"

lemma query_names:
  "CHR '','' \<notin> set (q_model (query_of now c))" "CHR '','' \<notin> set (q_action (query_of now c))"
  "q_action (query_of now c) \<in> {''findMany'', ''findUnique'', ''count''}"
  by (cases c; simp add: getChainInfos_def getChainNameByChainId_def getChainNamesByChainIds_def getEvmChainInfo_def
      getChainInfoByPrefix_def searchChainInfoByMultipleFields_def countAccountTransactions_def getAccountTransactions_def
      getAccount_def getTransactions_def countTransactions_def countTransactionsSinceTimestamp_def searchByTxHash_def
      getTxHashAndChainInfoByTxHashes_def getChainIdAndTxHashByHash_def getChainIdAndTxHashByTxHashes_def)+

lemma plan_cached:
  assumes "q = query_of now c"
  shows "plan_of q = (if q_cache q then Through (query_key q) (Some DEFAULT_CACHE_DURATION) (query_args q)
    else Direct (query_args q))"
  using query_names(3) [of now c] assms
  by (auto simp: plan_of_def findManyWithCache_def findUniqueWithCache_def countWithCache_def queryWithCache_def
      query_key_def Let_def)

section \<open>The invariant\<close>

text \<open>
  \<open>T\<close> is the time of the last event, \<open>qs\<close> the queries that are made. What the cache will serve was
  answered by the database to a query with that key; every query was made before; and what was served
  was an answer to the same query, recent enough.
\<close>

definition made :: "query set \<Rightarrow> nat \<Rightarrow> query \<Rightarrow> bool" where
  "made qs T q \<longleftrightarrow> q \<in> qs \<and> (\<exists>t c. t \<le> T \<and> q = query_of t c)"

definition answers_at ::
    "(string list option \<times> cond \<times> (string \<times> order) list \<times> pagination \<Rightarrow> string) \<Rightarrow> string \<Rightarrow> json \<Rightarrow> nat \<Rightarrow>
     nat \<Rightarrow> log_entry \<Rightarrow> bool" where
  "answers_at stringify k v T t d \<longleftrightarrow> lg_from_db d \<and> lg_value d = Inr v \<and> q_cache (lg_query d) \<and>
     cache_key stringify (query_key (lg_query d)) (query_args (lg_query d)) = k \<and> lg_time d \<le> T \<and>
     t \<le> lg_time d + DEFAULT_CACHE_DURATION * 1000"

definition served_rightly :: "log_entry list \<Rightarrow> log_entry \<Rightarrow> bool" where
  "served_rightly l e \<longleftrightarrow> q_cache (lg_query e) \<and> (\<exists>c. lg_query e = query_of (lg_time e) c) \<and>
     (\<exists>d\<in>set l. lg_from_db d \<and> lg_query d = lg_query e \<and> lg_value d = lg_value e \<and>
        lg_time d \<le> lg_time e \<and> lg_time e \<le> lg_time d + DEFAULT_CACHE_DURATION * 1000)"

definition server_inv ::
    "(nat \<Rightarrow> string \<Rightarrow> 's \<Rightarrow> json option) \<Rightarrow>
     (string list option \<times> cond \<times> (string \<times> order) list \<times> pagination \<Rightarrow> string) \<Rightarrow> query set \<Rightarrow> nat \<Rightarrow> 's server \<Rightarrow> bool"
    where
  "server_inv cget stringify qs T S \<longleftrightarrow>
     (\<forall>t k v. T \<le> t \<and> cget t k (sv_cache S) = Some v \<longrightarrow> (\<exists>d\<in>set (sv_log S). answers_at stringify k v T t d)) \<and>
     (\<forall>q. Some q \<in> set (sv_asked S) \<longrightarrow> made qs T q) \<and>
     (\<forall>d\<in>set (sv_log S). made qs (lg_time d) (lg_query d) \<and> (\<not> lg_from_db d \<longrightarrow> served_rightly (sv_log S) d))"

lemma made_mono: "made qs T q \<Longrightarrow> T \<le> T' \<Longrightarrow> made qs T' q"
  unfolding made_def by (metis le_trans)

lemma served_mono: "served_rightly l e \<Longrightarrow> set l \<subseteq> set l' \<Longrightarrow> served_rightly l' e"
  unfolding served_rightly_def by blast

lemma answers_mono: "answers_at stringify k v T t d \<Longrightarrow> T \<le> T' \<Longrightarrow> answers_at stringify k v T' t d"
  unfolding answers_at_def by simp

lemma same_key_same_query:
  assumes "made qs T q" and "made qs T' q'" and "q_cache q" and "q_cache q'" and "inj_on stringify (query_args ` qs)"
    and "cache_key stringify (query_key q) (query_args q) = cache_key stringify (query_key q') (query_args q')"
  shows "q = q'"
proof -
  obtain t c t' c' where q: "q = query_of t c" "q' = query_of t' c'" "q \<in> qs" "q' \<in> qs"
    using assms(1,2) by (auto simp: made_def)
  have th: "queryWithCache (q_model q) (q_action q) (Some (query_args q, Some \<lparr>cs_enabled = True, cs_revalidate = None\<rparr>)) =
      Through (query_key q) (Some DEFAULT_CACHE_DURATION) (query_args q)" for q
    by (simp add: queryWithCache_def query_key_def)
  have "stringify (query_args q) = stringify (query_args q') \<Longrightarrow> query_args q = query_args q'"
    using assms(5) q(3,4) by (auto dest: inj_onD)
  moreover have "CHR '','' \<notin> set s" if "s \<in> {q_model q, q_model q', q_action q, q_action q'}" for s
    using that query_names(1,2) q(1,2) by auto
  ultimately have "q_model q = q_model q' \<and> q_action q = q_action q' \<and> query_args q = query_args q'"
    using cache_keys_injective [OF th th assms(6)] by blast
  then show ?thesis using assms(3,4) by (cases q; cases q') (simp add: query_args_def)
qed

context node_cache
begin

lemma look_up_justified:
  assumes "server_inv cget stringify qs T S" and "T \<le> now" and "q = query_of now c" and "q \<in> qs"
    and "inj_on stringify (query_args ` qs)" and "look_up cget stringify now q (sv_cache S) = Some v"
  shows "served_rightly (sv_log S) \<lparr>lg_time = now, lg_query = q, lg_value = Inr v, lg_from_db = False\<rparr>"
proof -
  have cached: "q_cache q" and
    "cget now (cache_key stringify (query_key q) (query_args q)) (sv_cache S) = Some v"
    using assms(6) by (auto simp: look_up_def plan_cached [OF assms(3)] cache_start_def split: if_splits option.splits)
  then obtain d where d: "d \<in> set (sv_log S)"
      "answers_at stringify (cache_key stringify (query_key q) (query_args q)) v T now d"
    using assms(1,2) unfolding server_inv_def by blast
  have "made qs (lg_time d) (lg_query d)" using assms(1) d(1) unfolding server_inv_def by blast
  moreover have "made qs now q" using assms(3,4) by (auto simp: made_def)
  ultimately have "lg_query d = q"
    using d(2) cached by (intro same_key_same_query [OF _ _ _ _ assms(5)]) (auto simp: answers_at_def)
  then show ?thesis using d assms(2,3) cached unfolding served_rightly_def answers_at_def by auto
qed

lemma keep_justified:
  assumes "server_inv cget stringify qs T S" and "T \<le> now" and "q = query_of t0 c"
    and "keep cset stringify now q outcome (sv_cache S) = (res, s)" and "now \<le> t" and "cget t k s = Some v"
  shows "(\<exists>d\<in>set (sv_log S). answers_at stringify k v T t d) \<or>
    answers_at stringify k v now t \<lparr>lg_time = now, lg_query = q, lg_value = res, lg_from_db = True\<rparr>"
proof (cases "cget t k (sv_cache S) = Some v")
  case True
  then show ?thesis using assms(1,2,5) unfolding server_inv_def by (meson le_trans)
next
  case False
  let ?k = "cache_key stringify (query_key q) (query_args q)"
  have "s \<noteq> sv_cache S" using False assms(6) by auto
  then obtain x where x: "q_cache q" "outcome = Inr x" "res = Inr x" "s = cset now ?k x DEFAULT_CACHE_DURATION (sv_cache S)"
    using assms(4) by (auto simp: keep_def plan_cached [OF assms(3)] cache_finish_def ttl_of_def cfg_defs
        split: if_splits sum.splits)
  have pos: "0 < DEFAULT_CACHE_DURATION" by (simp add: cfg_defs)
  have k: "k = ?k" using False assms(6) get_other x(4) by metis
  have t: "t \<le> now + DEFAULT_CACHE_DURATION * 1000"
    using get_expired [OF pos, of now t] assms(6) unfolding x(4) k by (metis leI option.distinct(1))
  then have "v = x" using get_live [OF pos assms(5) t] assms(6) unfolding x(4) k by simp
  then show ?thesis using x(1,3) k t by (simp add: answers_at_def)
qed

lemma server_inv_step:
  assumes "server_inv cget stringify qs T S" and "T \<le> event_time e" and "set (event_queries e) \<subseteq> qs"
    and "inj_on stringify (query_args ` qs)"
  shows "server_inv cget stringify qs (event_time e) (server_step cget cset stringify e S)"
proof -
  have cache: "T' \<le> t \<Longrightarrow> cget t k (sv_cache S) = Some v \<Longrightarrow> T \<le> T' \<Longrightarrow>
      \<exists>d\<in>set (sv_log S). answers_at stringify k v T' t d" for t k v T'
    using assms(1) answers_mono unfolding server_inv_def by (meson le_trans)
  have asked: "Some q \<in> set (sv_asked S) \<Longrightarrow> T \<le> T' \<Longrightarrow> made qs T' q" for q T'
    using assms(1) made_mono unfolding server_inv_def by blast
  have log: "d \<in> set (sv_log S) \<Longrightarrow> made qs (lg_time d) (lg_query d)"
    "d \<in> set (sv_log S) \<Longrightarrow> \<not> lg_from_db d \<Longrightarrow> set (sv_log S) \<subseteq> set l \<Longrightarrow> served_rightly l d" for d l
    using assms(1) served_mono unfolding server_inv_def by blast+
  show ?thesis
  proof (cases e)
    case (Ask now c)
    let ?q = "query_of now c"
    have m: "made qs now ?q" "T \<le> now" "?q \<in> qs" using assms(2,3) Ask by (auto simp: made_def)
    show ?thesis
    proof (cases "look_up cget stringify now ?q (sv_cache S)")
      case None
      then show ?thesis
        using Ask m cache [of now] asked log by (auto simp: server_inv_def Let_def)
    next
      case (Some v)
      let ?e = "\<lparr>lg_time = now, lg_query = ?q, lg_value = Inr v, lg_from_db = False\<rparr>"
      have "served_rightly (sv_log S @ [?e]) ?e"
        by (rule served_mono [OF look_up_justified [OF assms(1) m(2) refl m(3) assms(4) Some]]) auto
      have step: "server_step cget cset stringify e S = S\<lparr>sv_log := sv_log S @ [?e]\<rparr>"
        using Ask Some by (simp add: Let_def)
      have "\<exists>d\<in>set (sv_log S @ [?e]). answers_at stringify k v now t d" if "now \<le> t" "cget t k (sv_cache S) = Some v" for t k v
        using cache [OF that m(2)] by auto
      moreover have "made qs (lg_time d) (lg_query d) \<and> (\<not> lg_from_db d \<longrightarrow> served_rightly (sv_log S @ [?e]) d)"
        if "d \<in> set (sv_log S @ [?e])" for d
        using that log(1) [of d] log(2) [of d "sv_log S @ [?e]"] m(1) \<open>served_rightly _ ?e\<close> by auto
      ultimately show ?thesis unfolding step using Ask asked m(2) by (simp add: server_inv_def)
    qed
  next
    case (Reply now i outcome)
    show ?thesis
    proof (cases "i < length (sv_asked S) \<and> sv_asked S ! i \<noteq> None")
      case False
      then have "server_step cget cset stringify e S = S" using Reply by auto
      then show ?thesis using assms(2) Reply cache [of now] asked log by (auto simp: server_inv_def)
    next
      case True
      then obtain q where q: "sv_asked S ! i = Some q" "Some q \<in> set (sv_asked S)" by (metis not_None_eq nth_mem)
      have m: "made qs now q" "T \<le> now" using asked [OF q(2)] assms(2) Reply by auto
      then obtain t0 c where t0: "q = query_of t0 c" by (auto simp: made_def)
      obtain res s where k: "keep cset stringify now q outcome (sv_cache S) = (res, s)" by (cases "keep cset stringify now q outcome (sv_cache S)")
      let ?e = "\<lparr>lg_time = now, lg_query = q, lg_value = res, lg_from_db = True\<rparr>"
      have step: "server_step cget cset stringify e S =
          S\<lparr>sv_cache := s, sv_asked := (sv_asked S)[i := None], sv_log := sv_log S @ [?e]\<rparr>"
        using Reply True q(1) k by simp
      have "\<exists>d\<in>set (sv_log S @ [?e]). answers_at stringify k v now t d" if "now \<le> t" "cget t k s = Some v" for t k v
        using keep_justified [OF assms(1) m(2) t0 k that] answers_mono [OF _ m(2)]
        unfolding set_append list.set by blast
      moreover have "made qs now p" if "Some p \<in> set ((sv_asked S)[i := None])" for p
      proof -
        have "Some p \<in> set (sv_asked S)" using that set_update_subset_insert [of "sv_asked S" i None] by auto
        then show ?thesis using asked m(2) by blast
      qed
      moreover have "made qs (lg_time d) (lg_query d) \<and> (\<not> lg_from_db d \<longrightarrow> served_rightly (sv_log S @ [?e]) d)"
        if "d \<in> set (sv_log S @ [?e])" for d
        using that log(1) [of d] log(2) [of d "sv_log S @ [?e]"] m(1) by auto
      ultimately show ?thesis unfolding step using Reply by (simp add: server_inv_def)
    qed
  qed
qed

lemma server_inv_run:
  assumes "\<And>t k. cget t k s = None" and "sorted (map event_time es)"
    and "inj_on stringify (query_args ` qs)" and "set (concat (map event_queries es)) \<subseteq> qs"
  shows "\<exists>T. (\<forall>e\<in>set es. event_time e \<le> T) \<and> (es = [] \<longrightarrow> T = 0) \<and> (es \<noteq> [] \<longrightarrow> T = event_time (last es)) \<and>
    server_inv cget stringify qs T (server_run cget cset stringify es s)"
  using assms(2,4)
proof (induction es rule: rev_induct)
  case Nil
  show ?case using assms(1) by (simp add: server_run_def server_inv_def)
next
  case (snoc e es)
  then obtain T where T: "\<forall>e\<in>set es. event_time e \<le> T" "es = [] \<longrightarrow> T = 0" "es \<noteq> [] \<longrightarrow> T = event_time (last es)"
      "server_inv cget stringify qs T (server_run cget cset stringify es s)"
    by (auto simp: sorted_append)
  have le: "T \<le> event_time e" "\<forall>x\<in>set es. event_time x \<le> event_time e"
    using T(2,3) snoc(2) by (cases "es = []", auto simp: sorted_append)
  have "server_inv cget stringify qs (event_time e) (server_step cget cset stringify e (server_run cget cset stringify es s))"
    using snoc(3) by (intro server_inv_step [OF T(4) le(1) _ assms(3)]) auto
  with le(2) show ?case by (intro exI [of _ "event_time e"]) (simp add: server_run_def)
qed

end

section \<open>Dated queries\<close>

definition chain_list :: "server_call \<Rightarrow> bool" where
  "chain_list c \<longleftrightarrow> (case c of
     ChainInfos \<Rightarrow> True | ChainName _ \<Rightarrow> True | ChainNames _ \<Rightarrow> True | EvmChains \<Rightarrow> True | ChainsByPrefix _ \<Rightarrow> True
   | ChainSearch _ \<Rightarrow> True | _ \<Rightarrow> False)"

text \<open>The second in which a condition was made, if it holds one.\<close>

fun first_some :: "'a option list \<Rightarrow> 'a option" where
  "first_some [] = None"
| "first_some (None # xs) = first_some xs"
| "first_some (Some x # _) = Some x"

fun dated :: "cond \<Rightarrow> int option" where
  "dated (Gt f n) = (if f = ''expiry_at_epoch'' then Some n else None)"
| "dated (AllOf cs) = first_some (map dated cs)"
| "dated (AnyOf cs) = first_some (map dated cs)"
| "dated _ = None"

lemma dated_query: "chain_list c \<Longrightarrow> dated (q_where (query_of now c)) = Some (unix_time now)"
  by (cases c)
    (simp_all add: chain_list_def getExcludePostponedChainCondition_def getChainInfos_def
      getChainNameByChainId_def getChainNamesByChainIds_def getEvmChainInfo_def getChainInfoByPrefix_def
      searchChainInfoByMultipleFields_def)

lemma undated_query: "\<not> chain_list c \<Longrightarrow> dated (q_where (query_of now c)) = None"
  by (cases c)
    (simp_all add: chain_list_def countAccountTransactions_def getAccountTransactions_def
      getAccountTransactionsWhereCondition_def flag_cond_def getAccount_def getTransactions_def countTransactions_def
      countTransactionsSinceTimestamp_def searchByTxHash_def getTxHashAndChainInfoByTxHashes_def
      getChainIdAndTxHashByHash_def getChainIdAndTxHashByTxHashes_def split: option.splits)

lemma same_second:
  assumes "query_of t c = query_of t' c'" and "chain_list c"
  shows "t div 1000 = t' div 1000"
  using dated_query [OF assms(2), of t] dated_query [of c' t'] undated_query [of c' t'] assms(1)
  by (cases "chain_list c'") (simp_all add: unix_time_def)

section \<open>Properties\<close>

text \<open>
  C17: Whatever the server answers from its cache was an answer of the database to the same query, of the
  same model with the same arguments, at most ten seconds old, however the requests and the answers of
  the database are interleaved.
\<close>

theorem cached_answers_fresh:
  assumes "node_cache cget cset" and "\<And>t k. cget t k s = None" and "sorted (map event_time es)"
    and "inj_on stringify (query_args ` set (concat (map event_queries es)))"
    and "l = sv_log (server_run cget cset stringify es s)" and "e \<in> set l" and "\<not> lg_from_db e"
  shows "\<exists>d\<in>set l. lg_from_db d \<and> lg_query d = lg_query e \<and> lg_value d = lg_value e \<and>
    lg_time d \<le> lg_time e \<and> lg_time e \<le> lg_time d + 10000"
proof -
  obtain T where "server_inv cget stringify (set (concat (map event_queries es))) T (server_run cget cset stringify es s)"
    using node_cache.server_inv_run [OF assms(1,2,3,4) subset_refl] by blast
  then have "served_rightly l e" using assms(5-7) unfolding server_inv_def by blast
  then show ?thesis by (simp add: served_rightly_def cfg_defs)
qed

definition two_counts :: "server_event list" where
  "two_counts = [Ask 0 (TxCount ''nim_1''), Reply 50 0 (Inr (JNumber 7)), Ask 9000 (TxCount ''nim_1'')]"

lemma cached_answers_fresh_witness:
  "\<exists>d\<in>set (sv_log (server_run map_get map_set (\<lambda>_. ''args'') two_counts [])). lg_from_db d \<and>
    lg_value d = Inr (JNumber 7) \<and> lg_time d \<le> 9000 \<and> 9000 \<le> lg_time d + 10000"
proof -
  let ?e = "\<lparr>lg_time = 9000, lg_query = countTransactions ''nim_1'', lg_value = Inr (JNumber 7), lg_from_db = False\<rparr>"
  have "?e \<in> set (sv_log (server_run map_get map_set (\<lambda>_. ''args'') two_counts []))"
    by (simp add: server_run_def two_counts_def look_up_def keep_def plan_of_def countWithCache_def queryWithCache_def
      countTransactions_def cache_start_def cache_finish_def ttl_of_def map_get_def map_set_def cfg_defs Let_def)
  then have "\<exists>d\<in>set (sv_log (server_run map_get map_set (\<lambda>_. ''args'') two_counts [])). lg_from_db d \<and> lg_query d = lg_query ?e \<and>
      lg_value d = lg_value ?e \<and> lg_time d \<le> lg_time ?e \<and> lg_time ?e \<le> lg_time d + 10000"
    by (intro cached_answers_fresh [OF map_cache.node_cache_axioms _ _ _ refl])
      (auto simp: map_get_def two_counts_def)
  then show ?thesis by auto
qed

text \<open>
  C18: For the chains the cache hardly ever serves: the condition that excludes expired chains holds the
  present second, so the text of the arguments, which is the key, is another one in each second, and an
  answer is served only within the second in which the database gave it, not for ten seconds.
\<close>

theorem chain_lists_same_second:
  assumes "node_cache cget cset" and "\<And>t k. cget t k s = None" and "sorted (map event_time es)"
    and "inj_on stringify (query_args ` set (concat (map event_queries es)))"
    and "l = sv_log (server_run cget cset stringify es s)" and "e \<in> set l" and "\<not> lg_from_db e"
    and "lg_query e = query_of t c" and "chain_list c"
  shows "\<exists>d\<in>set l. lg_from_db d \<and> lg_query d = lg_query e \<and> lg_value d = lg_value e \<and>
    lg_time d div 1000 = lg_time e div 1000"
proof -
  obtain T where inv: "server_inv cget stringify (set (concat (map event_queries es))) T (server_run cget cset stringify es s)"
    using node_cache.server_inv_run [OF assms(1,2,3,4) subset_refl] by blast
  then have "served_rightly l e" using assms(5-7) unfolding server_inv_def by blast
  then obtain c' d where d: "d \<in> set l" "lg_from_db d" "lg_query d = lg_query e" "lg_value d = lg_value e"
      "lg_time d \<le> lg_time e" and e: "lg_query e = query_of (lg_time e) c'"
    unfolding served_rightly_def by blast
  obtain t0 c0 where t0: "t0 \<le> lg_time d" "lg_query d = query_of t0 c0"
    using inv d(1) assms(5) unfolding server_inv_def made_def by blast
  have "query_of t c = query_of (lg_time e) c'" "query_of t c = query_of t0 c0"
    using e t0(2) d(3) assms(8) by simp_all
  then have "t div 1000 = lg_time e div 1000" "t div 1000 = t0 div 1000"
    by (blast intro: same_second [OF _ assms(9)])+
  moreover have "t0 div 1000 \<le> lg_time d div 1000" "lg_time d div 1000 \<le> lg_time e div 1000"
    using t0(1) d(5) by (simp_all add: div_le_mono)
  ultimately have "lg_time d div 1000 = lg_time e div 1000" by linarith
  with d show ?thesis by blast
qed

definition two_lists :: "server_event list" where
  "two_lists = [Ask 1000 ChainInfos, Reply 1400 0 (Inr (JArray [JNull])), Ask 1900 ChainInfos]"

lemma chain_lists_same_second_witness:
  "\<exists>d\<in>set (sv_log (server_run map_get map_set (\<lambda>_. ''args'') two_lists [])). lg_from_db d \<and>
    lg_value d = Inr (JArray [JNull]) \<and> lg_time d div 1000 = 1"
proof -
  let ?e = "\<lparr>lg_time = 1900, lg_query = query_of 1900 ChainInfos, lg_value = Inr (JArray [JNull]), lg_from_db = False\<rparr>"
  have same: "query_of 1900 ChainInfos = query_of 1000 ChainInfos" by (simp add: unix_time_def)
  have "?e \<in> set (sv_log (server_run map_get map_set (\<lambda>_. ''args'') two_lists []))"
    unfolding same
    by (simp add: server_run_def two_lists_def look_up_def keep_def plan_of_def findManyWithCache_def queryWithCache_def
      getChainInfos_def cache_start_def cache_finish_def ttl_of_def map_get_def map_set_def cfg_defs Let_def unix_time_def)
  then have "\<exists>d\<in>set (sv_log (server_run map_get map_set (\<lambda>_. ''args'') two_lists [])). lg_from_db d \<and> lg_query d = lg_query ?e \<and>
      lg_value d = lg_value ?e \<and> lg_time d div 1000 = lg_time ?e div 1000"
    by (intro chain_lists_same_second [OF map_cache.node_cache_axioms _ _ _ refl, where t = 1900 and c = ChainInfos])
      (auto simp: map_get_def two_lists_def chain_list_def unix_time_def)
  then show ?thesis by auto
qed

end
