(* ===== verification/Subscribe.thy ===== *)
theory Subscribe
  imports Store
begin

text \<open>
  The components that read the store through \<open>web-app/src/hooks/useStore.ts\<close>: a component reads
  \<open>store.state\<close> when it renders, registers its setter in an effect, after the rendering, and is
  rendered again by each commit while it is registered. \<open>Store\<close> models the dispatches.
\<close>

definition defaultRollappState :: RollappState where
  "defaultRollappState = \<lparr>rollappInfos = [], selectedRollappInfo = None, rpcService = None, denomsMetadata = [],
     hasGottenDenomsMetadata = False\<rparr>"

definition initRollappStore :: "partialState \<Rightarrow> RollappState" where
  "initRollappStore initialState = merge defaultRollappState initialState"

text \<open>\<open>store_seen c\<close> is the state the component \<open>c\<close> was rendered with last.\<close>

record subscribed =
  store_app :: appState
  store_listeners :: "nat list"
  store_seen :: "nat \<Rightarrow> RollappState"

datatype store_event =
    Dispatched action
  | Committed
  | Rendered nat
  | Mounted nat bool
  | Unmounted nat bool

fun subs_step :: "(string \<Rightarrow> string \<Rightarrow> int) \<Rightarrow> store_event \<Rightarrow> subscribed \<Rightarrow> subscribed" where
  "subs_step lc (Dispatched a) V = V\<lparr>store_app := dispatch_start lc a (store_app V)\<rparr>"
| "subs_step lc Committed V =
     (if pending (store_app V) = [] then V
      else
        (let S = dispatch_commit (store_app V)
         in V\<lparr>store_app := S, store_seen := notify (store_listeners V) (state S) (store_seen V)\<rparr>))"
| "subs_step lc (Rendered c) V = V\<lparr>store_seen := (store_seen V)(c := state (store_app V))\<rparr>"
| "subs_step lc (Mounted c shouldListen) V = V\<lparr>store_listeners := listen shouldListen c (store_listeners V)\<rparr>"
| "subs_step lc (Unmounted c shouldListen) V = V\<lparr>store_listeners := unlisten shouldListen c (store_listeners V)\<rparr>"

definition subs_run :: "(string \<Rightarrow> string \<Rightarrow> int) \<Rightarrow> store_event list \<Rightarrow> subscribed \<Rightarrow> subscribed" where
  "subs_run lc es V = foldl (\<lambda>V e. subs_step lc e V) V es"

section \<open>Facts\<close>

lemma notify_apply: "notify ls s seen c = (if c \<in> set ls then s else seen c)"
  by (induction ls arbitrary: seen) (auto simp: notify_def)

lemma subs_run_append: "subs_run lc (xs @ ys) V = subs_run lc ys (subs_run lc xs V)"
  by (simp add: subs_run_def)

lemma subs_run_simps [simp]:
  "subs_run lc [] V = V" "subs_run lc (e # es) V = subs_run lc es (subs_step lc e V)"
  by (simp_all add: subs_run_def)

lemma initRollappStore_full:
  "initRollappStore \<lparr>p_rollappInfos = Some (rollappInfos s), p_selectedRollappInfo = Some (selectedRollappInfo s),
     p_rpcService = Some (rpcService s), p_denomsMetadata = Some (denomsMetadata s),
     p_hasGottenDenomsMetadata = Some (hasGottenDenomsMetadata s)\<rparr> = s"
  by (cases s) (simp add: initRollappStore_def merge_def)

text \<open>A registered component is current, and stays so until it is unmounted.\<close>

definition current :: "nat \<Rightarrow> subscribed \<Rightarrow> bool" where
  "current c V \<longleftrightarrow> c \<in> set (store_listeners V) \<and> store_seen V c = state (store_app V)"

lemma dispatch_start_state [simp]: "state (dispatch_start lc a S) = state S"
  by (simp add: dispatch_start_def case_prod_unfold Let_def)

lemma current_step: "current c V \<Longrightarrow> (\<And>l. e \<noteq> Unmounted c l) \<Longrightarrow> current c (subs_step lc e V)"
  by (cases e) (auto simp: current_def notify_apply listen_def unlisten_def Let_def)

lemma current_run: "current c V \<Longrightarrow> (\<And>l. Unmounted c l \<notin> set es) \<Longrightarrow> current c (subs_run lc es V)"
proof (induction es arbitrary: V)
  case (Cons e es)
  have "current c (subs_step lc e V)"
    using Cons.prems(1) by (rule current_step) (metis Cons.prems(2) list.set_intros(1))
  moreover have "Unmounted c l \<notin> set es" for l using Cons.prems(2) [of l] by simp
  ultimately show ?case using Cons.IH by simp
qed simp

lemma unseen_run:
  "(\<And>e. e \<in> set es \<Longrightarrow> e \<noteq> Committed \<and> e \<noteq> Rendered c) \<Longrightarrow> store_seen (subs_run lc es V) c = store_seen V c"
proof (induction es arbitrary: V)
  case (Cons e es)
  have "store_seen (subs_step lc e V) c = store_seen V c" using Cons.prems [of e] by (cases e) auto
  then show ?case using Cons by simp
qed simp

section \<open>Properties\<close>

text \<open>
  C3: A component that listens shows the state of the store from its mounting on, through all dispatches
  and the mounting of others, when no commit falls between its first rendering and its effect. A
  commit in that gap is missed: the component shows the state from before it until the next one.
\<close>

theorem listeners_current:
  "((\<forall>l. Unmounted c l \<notin> set post) \<longrightarrow>
      store_seen (subs_run lc (pre @ [Rendered c, Mounted c True] @ post) V) c =
        state (store_app (subs_run lc (pre @ [Rendered c, Mounted c True] @ post) V))) \<and>
    (c \<notin> set (store_listeners (subs_run lc pre V)) \<and> Committed \<notin> set post \<and> Rendered c \<notin> set post \<longrightarrow>
      store_seen (subs_run lc (pre @ [Rendered c, Committed, Mounted c True] @ post) V) c =
        state (store_app (subs_run lc pre V)))"
proof (intro conjI impI)
  let ?V = "subs_run lc pre V"
  assume stays: "\<forall>l. Unmounted c l \<notin> set post"
  have "current c (subs_run lc [Rendered c, Mounted c True] ?V)" by (simp add: current_def listen_def)
  from current_run [OF this, of post lc] stays
  show "store_seen (subs_run lc (pre @ [Rendered c, Mounted c True] @ post) V) c =
      state (store_app (subs_run lc (pre @ [Rendered c, Mounted c True] @ post) V))"
    by (simp add: subs_run_append current_def)
next
  let ?V = "subs_run lc pre V"
  assume gap: "c \<notin> set (store_listeners ?V) \<and> Committed \<notin> set post \<and> Rendered c \<notin> set post"
  then have "store_seen (subs_run lc post W) c = store_seen W c" for W by (intro unseen_run) auto
  moreover have "store_seen (subs_run lc [Rendered c, Committed, Mounted c True] ?V) c = state (store_app ?V)"
    using gap by (simp add: notify_apply Let_def)
  ultimately show "store_seen (subs_run lc (pre @ [Rendered c, Committed, Mounted c True] @ post) V) c =
      state (store_app (subs_run lc pre V))"
    by (simp only: subs_run_append)
qed

definition sample_views :: subscribed where
  "sample_views = \<lparr>store_app = sample_store, store_listeners = [], store_seen = (\<lambda>_. defaultRollappState)\<rparr>"

lemma listeners_current_witness:
  "store_seen (subs_run compare_units ([] @ [Rendered 3, Mounted 3 True] @ [Dispatched (PopulateChainData ''/dym''), Committed])
      sample_views) 3 =
    state (store_app (subs_run compare_units ([] @ [Rendered 3, Mounted 3 True] @
      [Dispatched (PopulateChainData ''/dym''), Committed]) sample_views)) \<and>
   store_seen (subs_run compare_units ([Dispatched (PopulateChainData ''/dym'')] @ [Rendered 3, Committed, Mounted 3 True] @ [])
      sample_views) 3 =
    state (store_app (subs_run compare_units [Dispatched (PopulateChainData ''/dym'')] sample_views))"
proof (rule conjI)
  show "store_seen (subs_run compare_units ([] @ [Rendered 3, Mounted 3 True] @ [Dispatched (PopulateChainData ''/dym''), Committed])
      sample_views) 3 =
    state (store_app (subs_run compare_units ([] @ [Rendered 3, Mounted 3 True] @
      [Dispatched (PopulateChainData ''/dym''), Committed]) sample_views))"
    by (rule listeners_current [THEN conjunct1, THEN mp]) simp
  show "store_seen (subs_run compare_units ([Dispatched (PopulateChainData ''/dym'')] @ [Rendered 3, Committed, Mounted 3 True] @ [])
      sample_views) 3 =
    state (store_app (subs_run compare_units [Dispatched (PopulateChainData ''/dym'')] sample_views))"
    by (rule listeners_current [THEN conjunct2, THEN mp]) (simp add: sample_views_def)
qed

end
