(* ===== verification/Session.thy ===== *)
theory Session
  imports Pages FetchHook
begin

text \<open>
  A page of a rollapp in the browser: the store of \<open>Store\<close>, the layout whose effect dispatches the
  path (\<open>components/client/commons/Layout/index.tsx\<close>), and a hook of the page (\<open>FetchHook\<close>), which
  takes its service from the store (\<open>useRollappStore\<close>) and its key from the props. Effects of a child
  run before those of its parents, so after a change of the path the effect of the hook may run with the
  service of the former rollapp, and again when the dispatch of the layout has committed. A dispatch is one
  step here: \<open>Store\<close> and \<open>Subscribe\<close> have what overlapping dispatches do.
\<close>

section \<open>The system\<close>

text \<open>\<open>ss_deps\<close>: the service and the key the effect of the hook ran with last, while it is mounted.\<close>

record ('k, 'r) session =
  ss_store :: appState
  ss_hook :: "('k, 'r) hook"
  ss_deps :: "(RpcService option \<times> 'k) option"

datatype ('k, 'ans) session_event =
    Went string
  | Starred
  | GotMetadata denomsMetadata
  | Effects 'k
  | Answered nat "'ans result"
  | Left

text \<open>The selected rollapp as the header sees it.\<close>

definition selected_info :: "appState \<Rightarrow> RollappInfo option" where
  "selected_info S = map_option ((!) (heap S)) (selectedRollappInfo (state S))"

fun session_step ::
    "(string \<Rightarrow> string \<Rightarrow> int) \<Rightarrow> ('k, 'ans, 'r) hook_cfg \<Rightarrow> ('k, 'ans) session_event \<Rightarrow>
     ('k, 'r) session \<Rightarrow> ('k, 'r) session" where
  "session_step lc C (Went pathname) S =
     (case layout_effect pathname of
        Inr a \<Rightarrow> S\<lparr>ss_store := dispatch lc a (ss_store S)\<rparr>
      | Inl _ \<Rightarrow> S)"
| "session_step lc C Starred S =
     (case handleClickFavorite (selected_info (ss_store S)) of
        Some a \<Rightarrow> S\<lparr>ss_store := dispatch lc a (ss_store S)\<rparr>
      | None \<Rightarrow> S)"
| "session_step lc C (GotMetadata m) S =
     S\<lparr>ss_store := dispatch lc (UpdateDenomsMetadata m) (ss_store S)\<rparr>"
| "session_step lc C (Effects k) S =
     S\<lparr>ss_hook := hook_step C (Change (rpcService (state (ss_store S))) k) (ss_hook S),
       ss_deps := Some (rpcService (state (ss_store S)), k)\<rparr>"
| "session_step lc C (Answered i a) S = S\<lparr>ss_hook := hook_step C (Settle i a) (ss_hook S)\<rparr>"
| "session_step lc C Left S = S\<lparr>ss_hook := hook_step C Unmount (ss_hook S), ss_deps := None\<rparr>"

definition session_run ::
    "(string \<Rightarrow> string \<Rightarrow> int) \<Rightarrow> ('k, 'ans, 'r) hook_cfg \<Rightarrow> ('k, 'ans) session_event list \<Rightarrow>
     ('k, 'r) session \<Rightarrow> ('k, 'r) session" where
  "session_run lc C es S = foldl (\<lambda>S e. session_step lc C e S) S es"

definition session_start :: "('k, 'ans, 'r) hook_cfg \<Rightarrow> appState \<Rightarrow> ('k, 'r) session" where
  "session_start C S0 = \<lparr>ss_store = S0, ss_hook = hook_init C, ss_deps = None\<rparr>"

section \<open>The store of a session\<close>

definition store_ok :: "RollappInfo list \<Rightarrow> appState \<Rightarrow> bool" where
  "store_ok objs S \<longleftrightarrow> pending S = [] \<and> store_inv objs S \<and> service_ok S"

lemma store_ok_dispatch:
  assumes "distinct (map chain_id objs)" and "store_ok objs S"
  shows "store_ok objs (dispatch lc a S)"
proof -
  have S: "pending S = []" "store_inv objs S" "service_ok S" using assms(2) by (simp_all add: store_ok_def)
  have "pending (dispatch lc a S) = []"
    using S(1) by (simp add: dispatch_def dispatch_commit_def dispatch_start_def case_prod_unfold Let_def)
  then show ?thesis
    using store_inv_commit [OF store_inv_start [OF S(2)], of lc a] service_ok_dispatch [OF S(1,2) assms(1) S(3), of lc a]
    by (simp add: store_ok_def dispatch_def)
qed

lemma store_ok_init:
  assumes "init_store objs st pathname = Inr S"
  shows "store_ok objs S"
  using assms store_inv_init [OF assms]
  by (auto simp: store_ok_def service_ok_def init_store_def getInitialRollappState_def result_simps Let_def)

lemma store_ok_mounted:
  assumes "mount_store lc objs st pathname = Inr S" and "distinct (map chain_id objs)"
  shows "store_ok objs S"
  using assms(1) store_ok_dispatch [OF assms(2) store_ok_init]
  by (auto simp: mount_store_def result_simps)

text \<open>The service of the store is that of the first address of its selected rollapp.\<close>

lemma store_ok_service:
  assumes "store_ok objs S" and "rpcService (state S) = Some svc"
  shows "\<exists>r urls. selectedRollappInfo (state S) = Some r \<and> r < length objs \<and>
    be_json_rpc_urls (objs ! r) = rpcUrl svc # urls"
proof -
  have S: "map fixed_part (heap S) = map fixed_part objs" "service_ok S"
    "\<And>r. selectedRollappInfo (state S) = Some r \<Longrightarrow> r < length objs"
    using assms(1) by (simp_all add: store_ok_def store_inv_def)
  obtain r urls where r: "selectedRollappInfo (state S) = Some r" "be_json_rpc_urls (heap S ! r) = rpcUrl svc # urls"
    using S(2) assms(2)
    by (auto simp: service_ok_def getRpcServiceFromSelectedRollappInfo_def split: option.splits list.splits)
  moreover have "be_json_rpc_urls (heap S ! r) = be_json_rpc_urls (objs ! r)"
    using same_fixed(3) [OF S(1)] S(3) [OF r(1)] map_eq_imp_length_eq [OF S(1)] by simp
  ultimately show ?thesis using S(3) by auto
qed

section \<open>The hook of a session\<close>

text \<open>
  The run whose controller the effect holds was made for its dependencies, and when the hook is not
  loading its data are the result of such a run.
\<close>

definition deps_ok :: "('k, 'ans, 'r) hook_cfg \<Rightarrow> RpcService option \<times> 'k \<Rightarrow> ('k, 'r) hook \<Rightarrow> bool" where
  "deps_ok C d H \<longleftrightarrow>
     (case d of
        (None, _) \<Rightarrow> hk_ac H = None
      | (Some svc, k) \<Rightarrow>
          (\<forall>i. hk_ac H = Some i \<longrightarrow> hk_loading H \<and> run_key (hk_runs H ! i) = k \<and>
             cfg_request C svc k = Some (run_request (hk_runs H ! i))) \<and>
          (cfg_request C svc k \<noteq> None \<and> \<not> hk_loading H \<longrightarrow>
             (\<exists>i<length (hk_runs H). run_done (hk_runs H ! i) \<and> run_key (hk_runs H ! i) = k \<and>
                cfg_request C svc k = Some (run_request (hk_runs H ! i)) \<and>
                (\<exists>a. cfg_result C k a = Inr (hk_data H)))))"

definition session_ok :: "('k, 'ans, 'r) hook_cfg \<Rightarrow> RollappInfo list \<Rightarrow> ('k, 'r) session \<Rightarrow> bool" where
  "session_ok C objs S \<longleftrightarrow> store_ok objs (ss_store S) \<and> hook_inv (ss_hook S) \<and>
     (case ss_deps S of None \<Rightarrow> hk_ac (ss_hook S) = None | Some d \<Rightarrow> deps_ok C d (ss_hook S))"

lemma deps_ok_effect:
  assumes "hook_inv H" and "hk_ac H = None"
  shows "deps_ok C (svc, k) (hook_effect C svc k H)"
  using assms by (auto simp: deps_ok_def hook_effect_def split: option.splits)

lemma settle_cases:
  assumes "hook_inv H"
  shows "hk_ac H \<noteq> Some i \<and> hk_data (hook_settle C i a H) = hk_data H \<and> hk_loading (hook_settle C i a H) = hk_loading H \<or>
    hk_ac H = Some i \<and> hk_ac (hook_settle C i a H) = None \<and>
      (if \<exists>v. cfg_result C (run_key (hk_runs H ! i)) a = Inr v \<and> \<not> run_aborted (hk_runs H ! i) \<and> \<not> run_done (hk_runs H ! i)
       then \<not> hk_loading (hook_settle C i a H) \<and> cfg_result C (run_key (hk_runs H ! i)) a = Inr (hk_data (hook_settle C i a H))
       else hk_loading (hook_settle C i a H) = hk_loading H \<and> hk_data (hook_settle C i a H) = hk_data H) \<or>
    hk_ac H = Some i \<and> hook_settle C i a H = H"
proof (cases "hk_ac H = Some i")
  case False
  with stale_settle [OF assms False, of C a] show ?thesis by simp
next
  case True
  then have i: "i < length (hk_runs H)" using hook_invD(2) [OF assms] by blast
  show ?thesis
  proof (cases "run_done (hk_runs H ! i)")
    case True
    then show ?thesis using \<open>hk_ac H = Some i\<close> by (simp add: hook_settle_def)
  next
    case False
    then show ?thesis
      using \<open>hk_ac H = Some i\<close> i
      by (auto simp: hook_settle_def Let_def split: sum.splits js_error.splits option.splits)
  qed
qed

lemma deps_ok_settle:
  assumes "hook_inv H" and "deps_ok C d H"
  shows "deps_ok C d (hook_settle C i a H)"
proof -
  obtain s k where d: "d = (s, k)" by (cases d)
  show ?thesis
  proof (cases s)
    case None
    then show ?thesis using assms(2) d by (simp add: deps_ok_def settle_runs)
  next
    case (Some svc)
    have runs: "length (hk_runs (hook_settle C i a H)) = length (hk_runs H)"
      "run_key (hk_runs (hook_settle C i a H) ! j) = run_key (hk_runs H ! j)"
      "run_request (hk_runs (hook_settle C i a H) ! j) = run_request (hk_runs H ! j)"
      "run_done (hk_runs H ! j) \<Longrightarrow> run_done (hk_runs (hook_settle C i a H) ! j)" for j
      by (cases "i = j"; simp add: settle_runs)+
    have ac: "hk_ac (hook_settle C i a H) = Some j \<Longrightarrow> hk_ac H = Some j" for j
      by (simp add: settle_runs split: if_splits)
    have ok: "\<And>j. hk_ac H = Some j \<Longrightarrow> hk_loading H \<and> run_key (hk_runs H ! j) = k \<and>
          cfg_request C svc k = Some (run_request (hk_runs H ! j))"
      "cfg_request C svc k \<noteq> None \<Longrightarrow> \<not> hk_loading H \<Longrightarrow>
        \<exists>i<length (hk_runs H). run_done (hk_runs H ! i) \<and> run_key (hk_runs H ! i) = k \<and>
          cfg_request C svc k = Some (run_request (hk_runs H ! i)) \<and> (\<exists>a. cfg_result C k a = Inr (hk_data H))"
      using assms(2) by (simp_all add: deps_ok_def d Some)
    consider (stale) "hk_ac H \<noteq> Some i" "hk_data (hook_settle C i a H) = hk_data H"
        "hk_loading (hook_settle C i a H) = hk_loading H"
      | (same) "hook_settle C i a H = H"
      | (failed) "hk_ac H = Some i" "hk_ac (hook_settle C i a H) = None" "hk_loading (hook_settle C i a H) = hk_loading H"
      | (shown) "hk_ac H = Some i" "hk_ac (hook_settle C i a H) = None" "\<not> run_done (hk_runs H ! i)"
        "cfg_result C (run_key (hk_runs H ! i)) a = Inr (hk_data (hook_settle C i a H))"
      using settle_cases [OF assms(1), of i C a] by (auto split: if_splits)
    then show ?thesis
    proof cases
      case stale
      then show ?thesis using ok ac runs by (auto simp: deps_ok_def d Some) blast+
    next
      case same
      then show ?thesis using assms(2) by simp
    next
      case failed
      then show ?thesis using ok(1) [OF failed(1)] by (simp add: deps_ok_def d Some)
    next
      case shown
      have i: "i < length (hk_runs H)" using hook_invD(2) [OF assms(1) shown(1)] .
      then have "run_done (hk_runs (hook_settle C i a H) ! i)" by (simp add: settle_runs)
      then show ?thesis
        using shown ok(1) [OF shown(1)] i runs(1) runs(2,3) [of i]
        by (auto simp: deps_ok_def d Some intro!: exI [of _ i])
    qed
  qed
qed

lemma session_ok_step:
  assumes "distinct (map chain_id objs)" and "session_ok C objs S"
  shows "session_ok C objs (session_step lc C e S)"
proof -
  have S: "store_ok objs (ss_store S)" "hook_inv (ss_hook S)"
    and D: "case ss_deps S of None \<Rightarrow> hk_ac (ss_hook S) = None | Some d \<Rightarrow> deps_ok C d (ss_hook S)"
    using assms(2) by (simp_all add: session_ok_def)
  note disp = store_ok_dispatch [OF assms(1) S(1), of lc]
  note clean = hook_inv_cleanup [OF S(2)]
  show ?thesis
  proof (cases e)
    case (Effects k)
    then show ?thesis
      using S(1) deps_ok_effect [of "hook_cleanup (ss_hook S)" C] clean by (simp add: session_ok_def hook_inv_effect)
  next
    case (Answered i a)
    then show ?thesis
      using S D deps_ok_settle [OF S(2), of C _ i a] hook_inv_settle [OF S(2), of C i a]
      by (auto simp: session_ok_def settle_runs split: option.splits)
  next
    case Left
    then show ?thesis using S(1) clean by (simp add: session_ok_def)
  qed (use S D disp in \<open>auto simp: session_ok_def split: sum.splits option.splits\<close>)
qed

lemma session_ok_run:
  assumes "distinct (map chain_id objs)" and "session_ok C objs S"
  shows "session_ok C objs (session_run lc C es S)"
  using assms(2)
  by (induction es arbitrary: S) (simp_all add: session_run_def session_ok_step [OF assms(1)])

lemma session_ok_start:
  assumes "mount_store lc objs st pathname = Inr S0" and "distinct (map chain_id objs)"
  shows "session_ok C objs (session_start C S0)"
  using store_ok_mounted [OF assms] hook_inv_init [of C]
  by (simp add: session_ok_def session_start_def) (simp add: hook_init_def)

section \<open>Where the hooks send their requests\<close>

definition asks_service :: "('k, 'ans, 'r) hook_cfg \<Rightarrow> bool" where
  "asks_service C \<longleftrightarrow> (\<forall>svc k q. cfg_request C svc k = Some q \<longrightarrow> req_url q = rpcUrl svc)"

lemma rpc_urls [simp]:
  "req_url (rpc_getAccount svc a opts) = rpcUrl svc" "req_url (rpc_getBlockByNumber svc b opts) = rpcUrl svc"
  "req_url (rpc_getChainInfo svc opts) = rpcUrl svc" "req_url (rpc_getGovProposal svc n opts) = rpcUrl svc"
  "req_url (rpc_getGovProposals svc n opts) = rpcUrl svc" "req_url (rpc_getModuleParams svc s opts) = rpcUrl svc"
  "req_url (rpc_getErc20Balance svc s ts opts) = rpcUrl svc" "req_url (rpc_getCw20Balance svc s ts opts) = rpcUrl svc"
  "req_url (rpc_getValidator svc s opts) = rpcUrl svc" "req_url (rpc_getValidators svc opts) = rpcUrl svc"
  by (cases a; cases b; simp add: rpc_getAccount_def rpc_getBlockByNumber_def rpc_getChainInfo_def rpc_getGovProposal_def
      rpc_getGovProposals_def rpc_getModuleParams_def rpc_getErc20Balance_def rpc_getCw20Balance_def rpc_getValidator_def
      rpc_getValidators_def)+

lemma hooks_ask_service:
  "asks_service useAccount" "asks_service useAccounts" "asks_service useBlockDetail" "asks_service useChainInfo"
  "asks_service useGovProposal" "asks_service useGovProposals" "asks_service useModuleParams"
  "asks_service useTokenBalances" "asks_service useValidator" "asks_service useValidators"
  by (auto simp: asks_service_def useAccount_def useAccounts_def useBlockDetail_def useChainInfo_def useGovProposal_def
      useGovProposals_def useModuleParams_def useTokenBalances_def useValidator_def useValidators_def split: if_splits)

section \<open>Properties\<close>


text \<open>Two rollapps; the page asks for the validators, and answers of both nodes arrive.\<close>

definition opened_store :: appState where
  "opened_store = (case mount_store compare_units two_rollapps [] ''/nim/governors'' of Inr S \<Rightarrow> S)"

lemma opened_store:
  "mount_store compare_units two_rollapps [] ''/nim/governors'' = Inr opened_store"
  "distinct (map chain_id two_rollapps)"
proof -
  have "\<exists>S. mount_store compare_units two_rollapps [] ''/nim/governors'' = Inr S"
    by (simp add: mount_store_def init_store_def getInitialRollappState_def rollapp_path_slash)
  then show "mount_store compare_units two_rollapps [] ''/nim/governors'' = Inr opened_store"
    by (auto simp: opened_store_def)
  show "distinct (map chain_id two_rollapps)" by code_simp
qed

definition sample_visit :: "(unit, validatorList rpcResponse) session_event list" where
  "sample_visit = [Effects (), Starred, Went ''/dym/governors'', Effects (), Answered 0 (Inl (Error ''late'')),
     Answered 1 (Inr FetchHook.sample_validators)]"


text \<open>
  C39: The first request of a page goes to the wrong node. When the user goes to another rollapp, the
  effect of the hook runs before the one of the layout, with the service of the former rollapp: its
  request is sent to the former node. It is harmless for what is shown, because the effect that follows
  the dispatch aborts it, and its answer changes nothing whenever it comes.
\<close>

theorem first_request_to_old_node:
  assumes "mount_store lc objs st pathname = Inr S0" and "distinct (map chain_id objs)" and "asks_service C"
    and "S = session_run lc C es (session_start C S0)" and "n = length (hk_runs (ss_hook S))"
    and "rpcService (state (ss_store S)) = Some svc" and "cfg_request C svc k \<noteq> None"
    and "T = session_step lc C (Went new_path) (session_step lc C (Effects k) S)"
    and "U = session_step lc C (Effects k) T"
  shows "\<exists>r. selectedRollappInfo (state (ss_store S)) = Some r \<and>
    req_url (run_request (hk_runs (ss_hook T) ! n)) = hd (be_json_rpc_urls (objs ! r)) \<and>
    run_aborted (hk_runs (ss_hook U) ! n) \<and>
    hk_data (ss_hook (session_step lc C (Answered n a) U)) = hk_data (ss_hook U)"
proof -
  have ok: "session_ok C objs S"
    unfolding assms(4) by (rule session_ok_run [OF assms(2) session_ok_start [OF assms(1,2)]])
  then have S: "store_ok objs (ss_store S)" "hook_inv (ss_hook S)" by (simp_all add: session_ok_def)
  obtain q where q: "cfg_request C svc k = Some q" using assms(7) by blast
  let ?c = "hook_cleanup (ss_hook S)"
  have len: "length (hk_runs ?c) = n"
    using assms(5) by (simp_all add: hook_cleanup_def split: option.splits)
  have hook_T: "ss_hook T = ?c\<lparr>hk_loading := True,
      hk_runs := hk_runs ?c @ [\<lparr>run_key = k, run_request = q, run_aborted = False, run_done = False\<rparr>], hk_ac := Some n\<rparr>"
    unfolding assms(8) using assms(6) q len by (simp add: hook_effect_def split: sum.splits)
  have url: "req_url (run_request (hk_runs (ss_hook T) ! n)) = rpcUrl svc"
    using assms(3) q len unfolding hook_T by (simp add: nth_append asks_service_def)
  have clean_T: "hk_runs (hook_cleanup (ss_hook T)) =
      hk_runs ?c @ [\<lparr>run_key = k, run_request = q, run_aborted = True, run_done = False\<rparr>]"
    using len unfolding hook_T by (simp add: hook_cleanup_def [of "_\<lparr>hk_ac := Some n\<rparr>"] nth_append list_update_append)
  have U: "run_aborted (hk_runs (ss_hook U) ! n)" "n < length (hk_runs (ss_hook U))"
    unfolding assms(9) using len clean_T by (auto simp: hook_effect_def nth_append split: option.splits)
  have "hk_data (ss_hook (session_step lc C (Answered n a) U)) = hk_data (ss_hook U)"
    using U by (simp add: hook_settle_def Let_def)
  obtain r urls where "selectedRollappInfo (state (ss_store S)) = Some r" "be_json_rpc_urls (objs ! r) = rpcUrl svc # urls"
    using store_ok_service [OF S(1) assms(6)] by blast
  then show ?thesis using url U \<open>hk_data (ss_hook (session_step _ _ _ _)) = _\<close> by auto
qed

definition visited :: "(unit, validatorList option) session" where
  "visited = session_run compare_units useValidators [] (session_start useValidators opened_store)"

definition gone :: "(unit, validatorList option) session" where
  "gone = session_step compare_units useValidators (Went ''/dym/governors'')
     (session_step compare_units useValidators (Effects ()) visited)"

lemma first_request_to_old_node_witness:
  "req_url (run_request (hk_runs (ss_hook gone) ! 0)) = ''http://nim_1'' \<and>
   run_aborted (hk_runs (ss_hook (session_step compare_units useValidators (Effects ()) gone)) ! 0)"
proof -
  have n: "0 = length (hk_runs (ss_hook visited))" by code_simp
  obtain svc where svc: "rpcService (state (ss_store visited)) = Some svc"
  proof -
    have "rpcService (state (ss_store visited)) \<noteq> None" by code_simp
    then show ?thesis using that by auto
  qed
  have "cfg_request useValidators svc () \<noteq> None" by (simp add: useValidators_def)
  note first_request_to_old_node [OF opened_store hooks_ask_service(10) visited_def n svc this gone_def refl]
  then have "run_aborted (hk_runs (ss_hook (session_step compare_units useValidators (Effects ()) gone)) ! 0)"
    by blast
  moreover have "req_url (run_request (hk_runs (ss_hook gone) ! 0)) = ''http://nim_1''"
    by code_simp
  ultimately show ?thesis by blast
qed

end
