(* ===== verification/Shell.thy ===== *)
theory Shell
  imports Pages
begin

text \<open>
  What stands around every page whatever it shows: the themes of
  \<open>components/client/commons/ThemeProvider.tsx\<close> and the frame of \<open>app/layout.tsx\<close>, the contexts of
  \<open>contexts/\<close> with their default values, and the sizes that depend on the width of the window
  (\<open>LayoutContainer.tsx\<close>, \<open>RollappErrorContainer.tsx\<close>, the drawers, the columns of lists). The
  breakpoints belong to the component library: of a window the model knows which ones it has reached,
  and the locale \<open>window\<close> says what is documented of them.
\<close>

section \<open>The themes\<close>

text \<open>The options given to \<open>createTheme\<close>, without the font and the link component, which both share.\<close>

record palette =
  pal_mode :: string
  pal_primary :: "string option"
  pal_secondary :: "string option"
  pal_paper :: "string option"
  pal_divider :: "string option"
  pal_text :: "(string \<times> string) option"

definition light_palette :: palette where
  "light_palette = \<lparr>pal_mode = ThemeMode_text LIGHT, pal_primary = None, pal_secondary = None, pal_paper = None,
     pal_divider = None, pal_text = None\<rparr>"

definition dark_palette :: palette where
  "dark_palette = \<lparr>pal_mode = ThemeMode_text DARK, pal_primary = Some ''rgb(241, 225, 212)'',
     pal_secondary = Some ''rgb(220, 77, 37)'', pal_paper = Some ''rgb(33, 30, 29)'',
     pal_divider = Some ''rgba(140, 129, 121, 0.12)'',
     pal_text = Some (''rgb(241, 225, 212)'', ''rgb(140, 129, 121)'')\<rparr>"

definition themes :: "(string \<times> palette) list" where
  "themes = [(ThemeMode_text LIGHT, light_palette), (ThemeMode_text DARK, dark_palette)]"

text \<open>The theme handed to the library and what is rendered below it.\<close>

definition ThemeProvider :: "string \<Rightarrow> view \<Rightarrow> palette option \<times> view" where
  "ThemeProvider theme children = (obj_get themes theme, Frag [Tag ''CssBaseline'' [] [], children])"

text \<open>The frame of \<open>app/layout.tsx\<close> around the pages.\<close>

definition root_frame :: "string \<Rightarrow> view \<Rightarrow> palette option \<times> view" where
  "root_frame themeMode children =
     map_prod id (\<lambda>v. Tag ''html'' [(''lang'', ''en'')]
         [Tag ''body'' [] [Tag ''AppRouterCacheProvider'' [] [Tag ''StoreProvider'' [] [v]]]])
       (ThemeProvider themeMode children)"

text \<open>The mode and the cookie of the browser, under presses of the button and openings of the explorer.\<close>

datatype theme_event = PressToggle | OpenAgain

record theming =
  th_mode :: string
  th_cookie :: "string option"

fun theme_step :: "theme_event \<Rightarrow> theming \<Rightarrow> theming" where
  "theme_step PressToggle S =
     (case handleThemeToggle (th_mode S) of (newTheme, cookie) \<Rightarrow>
        S\<lparr>th_mode := newTheme, th_cookie := cookie_value THEME_COOKIE_NAME cookie\<rparr>)"
| "theme_step OpenAgain S = S\<lparr>th_mode := root_theme (th_cookie S)\<rparr>"

definition theme_start :: "string option \<Rightarrow> theming" where
  "theme_start themeCookie = \<lparr>th_mode = root_theme themeCookie, th_cookie = themeCookie\<rparr>"

definition theme_run :: "theme_event list \<Rightarrow> theming \<Rightarrow> theming" where
  "theme_run es S = foldl (\<lambda>S e. theme_step e S) S es"

text \<open>What the explorer shows agrees with what it would show when opened again.\<close>

definition theme_inv :: "theming \<Rightarrow> bool" where
  "theme_inv S \<longleftrightarrow> th_mode S = root_theme (th_cookie S)"

lemma theme_inv_step: "theme_inv S \<Longrightarrow> theme_inv (theme_step e S)"
proof (cases e)
  case PressToggle
  then show ?thesis
    using theme_roundtrip [of "th_mode S" LIGHT] by (simp add: theme_inv_def case_prod_unfold)
qed (simp add: theme_inv_def)

lemma theme_step_mode:
  assumes "theme_inv S"
  shows "th_mode (theme_step e S) =
    (if e = PressToggle then if th_mode S = ThemeMode_text LIGHT then ThemeMode_text DARK else ThemeMode_text LIGHT
     else th_mode S)"
  using assms by (cases e) (simp_all add: theme_inv_def handleThemeToggle_def Let_def)

lemma theme_run_Cons: "theme_run (e # es) S = theme_run es (theme_step e S)"
  by (simp add: theme_run_def)

lemma theme_inv_run: "theme_inv S \<Longrightarrow> theme_inv (theme_run es S)"
  by (induction es arbitrary: S) (simp_all add: theme_run_Cons theme_inv_step, simp add: theme_run_def)

lemma theme_run_mode:
  assumes "theme_inv S"
  shows "th_mode (theme_run es S) =
      (if count_list es PressToggle = 0 then th_mode S
       else if even (count_list es PressToggle) = (th_mode S = ThemeMode_text LIGHT)
       then ThemeMode_text LIGHT else ThemeMode_text DARK)"
  using assms
proof (induction es arbitrary: S)
  case (Cons e es)
  show ?case
    unfolding theme_run_Cons Cons.IH [OF theme_inv_step [OF Cons.prems]] theme_step_mode [OF Cons.prems]
    by (cases e) auto
qed (simp add: theme_run_def)

section \<open>Contexts\<close>

definition AccountContext_default :: "'a option \<times> bool" where
  "AccountContext_default = (None, True)"

definition LayoutContext_default :: "menu_layout \<Rightarrow> menu_layout" where
  "LayoutContext_default M = M"

definition SearchResultDisplayContext_default :: nat where
  "SearchResultDisplayContext_default = 1"

definition ThemeContext_default :: "string \<Rightarrow> string" where
  "ThemeContext_default theme = theme"

section \<open>Windows\<close>

datatype breakpoint = Xs | Sm | Md | Lg | Xl

fun breakpoint_rank :: "breakpoint \<Rightarrow> nat" where
  "breakpoint_rank Xs = 0"
| "breakpoint_rank Sm = 1"
| "breakpoint_rank Md = 2"
| "breakpoint_rank Lg = 3"
| "breakpoint_rank Xl = 4"

lemma breakpoint_rank_inj: "breakpoint_rank a = breakpoint_rank b \<Longrightarrow> a = b"
  by (cases a; cases b) simp_all

instantiation breakpoint :: linorder
begin

definition less_eq_breakpoint :: "breakpoint \<Rightarrow> breakpoint \<Rightarrow> bool" where
  "a \<le> b \<longleftrightarrow> breakpoint_rank a \<le> breakpoint_rank b"

definition less_breakpoint :: "breakpoint \<Rightarrow> breakpoint \<Rightarrow> bool" where
  "a < b \<longleftrightarrow> breakpoint_rank a < breakpoint_rank b"

instance
  by standard (auto simp: less_eq_breakpoint_def less_breakpoint_def dest: breakpoint_rank_inj)

end

text \<open>
  \<open>up b\<close>: the window has reached the breakpoint \<open>b\<close>; \<open>breakpoints.up\<close> applies then, and
  \<open>breakpoints.down\<close> otherwise.
\<close>

locale window =
  fixes up :: "breakpoint \<Rightarrow> bool"
  assumes up_Xs: "up Xs" and up_below: "a \<le> b \<Longrightarrow> up b \<Longrightarrow> up a"

text \<open>A value per breakpoint, the narrower first: the last one reached applies.\<close>

fun responsive :: "(breakpoint \<Rightarrow> bool) \<Rightarrow> (breakpoint \<times> 'a) list \<Rightarrow> 'a option" where
  "responsive up [] = None"
| "responsive up ((b, v) # r) =
     (case responsive up r of Some u \<Rightarrow> Some u | None \<Rightarrow> if up b then Some v else None)"

context window
begin

text \<open>The value of the widest breakpoint reached, as the library documents it.\<close>

lemma responsive_widest:
  assumes "sorted (map fst r)" and "distinct (map fst r)" and "responsive up r = Some v"
  shows "\<exists>b. (b, v) \<in> set r \<and> up b \<and> (\<forall>(c, w)\<in>set r. up c \<longrightarrow> c \<le> b)"
  using assms
proof (induction r)
  case (Cons p r)
  obtain b u where p: "p = (b, u)" by (cases p)
  have above: "b \<le> c" if "(c, w) \<in> set r" for c w
    using Cons.prems(1) that unfolding p by (force simp: image_iff)
  show ?case
  proof (cases "responsive up r")
    case None
    then have "\<not> up c" if "(c, w) \<in> set r" for c w
      using that by (induction r) (auto split: if_splits option.splits)
    then show ?thesis using Cons.prems(3) None unfolding p by (fastforce split: if_splits)
  next
    case (Some v')
    then have "responsive up r = Some v" using Cons.prems(3) p by simp
    with Cons.IH Cons.prems(1,2) have "\<exists>c. (c, v) \<in> set r \<and> up c \<and> (\<forall>(d, w)\<in>set r. up d \<longrightarrow> d \<le> c)"
      by simp
    then show ?thesis using above p by fastforce
  qed
qed simp

end

section \<open>Sizes\<close>

definition SIDER_WIDTH :: nat where "SIDER_WIDTH = 240"

definition TOOLBAR_HEIGHT :: nat where "TOOLBAR_HEIGHT = 64"

definition TOOLBAR_MOBILE_HEIGHT :: nat where "TOOLBAR_MOBILE_HEIGHT = 128"

definition FOOTER_HEIGHT :: nat where "FOOTER_HEIGHT = 53"

text \<open>The toolbar above a page; \<open>None\<close> is the library's own height.\<close>

definition CustomToolbar_minHeight :: "(breakpoint \<Rightarrow> bool) \<Rightarrow> nat option" where
  "CustomToolbar_minHeight up = (if \<not> up Md then Some TOOLBAR_MOBILE_HEIGHT else None)"

text \<open>\<open>(a, b)\<close> is \<open>calc(100vh - a px - b px)\<close>.\<close>

definition LayoutContainer_minHeight :: "(breakpoint \<Rightarrow> bool) \<Rightarrow> nat \<times> nat" where
  "LayoutContainer_minHeight up =
     (if \<not> up Md then (TOOLBAR_MOBILE_HEIGHT, FOOTER_HEIGHT) else (TOOLBAR_HEIGHT, FOOTER_HEIGHT))"

definition calculateHeight :: "nat \<Rightarrow> nat \<times> nat" where
  "calculateHeight toolbarHeight = (64, toolbarHeight)"

definition ErrorContainer_height :: "(breakpoint \<Rightarrow> bool) \<Rightarrow> (nat \<times> nat) option" where
  "ErrorContainer_height up =
     responsive up [(Xs, calculateHeight TOOLBAR_MOBILE_HEIGHT), (Md, calculateHeight TOOLBAR_HEIGHT)]"

definition StyledCard_size :: "(breakpoint \<Rightarrow> bool) \<Rightarrow> string \<times> string" where
  "StyledCard_size up = (if up Sm then (''600px'', ''650px'') else (''100vw'', ''100vh''))"

definition Home_width :: "(breakpoint \<Rightarrow> bool) \<Rightarrow> string option" where
  "Home_width up =
     responsive up [(Xs, ''100vw''), (Sm, ''90vw''), (Md, ''80vw''), (Lg, ''65vw''), (Xl, ''50vw'')]"

text \<open>What is left out of \<open>100vw\<close> for the page, and the width of the navigation.\<close>

definition main_beside :: "(breakpoint \<Rightarrow> bool) \<Rightarrow> nat option" where
  "main_beside up = responsive up [(Xs, 0), (Md, SIDER_WIDTH)]"

definition nav_width :: "(breakpoint \<Rightarrow> bool) \<Rightarrow> nat \<Rightarrow> nat option" where
  "nav_width up sider_width = responsive up [(Md, sider_width)]"

definition temporary_drawer :: "(breakpoint \<Rightarrow> bool) \<Rightarrow> string option" where
  "temporary_drawer up = responsive up [(Xs, ''block''), (Md, ''none'')]"

definition permanent_drawer :: "(breakpoint \<Rightarrow> bool) \<Rightarrow> string option" where
  "permanent_drawer up = responsive up [(Xs, ''none''), (Md, ''block'')]"

definition menu_button :: "(breakpoint \<Rightarrow> bool) \<Rightarrow> string option" where
  "menu_button up = responsive up [(Md, ''none'')]"

text \<open>Columns of the grids, of twelve: a label and its value, a card of the search, a block.\<close>

definition detail_columns :: "(breakpoint \<Rightarrow> bool) \<Rightarrow> nat option \<times> nat option" where
  "detail_columns up = (responsive up [(Xs, 12), (Lg, 3)], responsive up [(Xs, 12), (Lg, 9)])"

definition result_columns :: "(breakpoint \<Rightarrow> bool) \<Rightarrow> nat \<Rightarrow> nat option" where
  "result_columns up displayColumns = responsive up [(Xs, 12), (Md, 12 div displayColumns)]"

definition block_columns :: "(breakpoint \<Rightarrow> bool) \<Rightarrow> nat option" where
  "block_columns up = responsive up [(Xs, 12), (Md, 6), (Xl, 3)]"

section \<open>The navigation at every width\<close>

definition sider_visible :: "(breakpoint \<Rightarrow> bool) \<Rightarrow> menu_layout \<Rightarrow> bool" where
  "sider_visible up M \<longleftrightarrow>
     permanent_drawer up = Some ''block'' \<or> temporary_drawer up = Some ''block'' \<and> ml_menuOpen M"

context window
begin

lemmas sizes = permanent_drawer_def temporary_drawer_def menu_button_def sider_visible_def main_beside_def nav_width_def
  up_Xs

lemma wide: "up Md \<Longrightarrow> sider_visible up M \<and> menu_button up = Some ''none'' \<and> main_beside up = nav_width up SIDER_WIDTH"
  by (simp add: sizes)

lemma narrow: "\<not> up Md \<Longrightarrow> (sider_visible up M \<longleftrightarrow> ml_menuOpen M) \<and> menu_button up = None \<and> main_beside up = Some 0"
  by (simp add: sizes)

text \<open>At every width the rows of a grid are whole.\<close>

lemma whole_rows:
  assumes "displayColumns \<in> {1, 2}"
  shows "\<exists>a b. detail_columns up = (Some a, Some b) \<and> (a + b = 12 \<or> a = 12 \<and> b = 12)"
    and "\<exists>c. result_columns up displayColumns = Some c \<and> c dvd 12"
    and "\<exists>c. block_columns up = Some c \<and> c dvd 12"
  using assms by (auto simp: detail_columns_def result_columns_def block_columns_def up_Xs)

end

text \<open>A window of so many pixels, with the breakpoints of the library's default theme.\<close>

definition reached :: "nat \<Rightarrow> breakpoint \<Rightarrow> bool" where
  "reached pixels b \<longleftrightarrow> [0, 600, 900, 1200, 1536] ! breakpoint_rank b \<le> pixels"

interpretation pixels: window "reached n" for n
proof
  show "reached n Xs" by (simp add: reached_def)
  fix a b :: breakpoint assume "a \<le> b" "reached n b"
  then show "reached n a" by (cases a; cases b; simp add: reached_def less_eq_breakpoint_def)
qed

section \<open>The frame\<close>

definition Footer :: "string \<Rightarrow> view" where
  "Footer version = Tag ''Box'' [] [Typography [Text (CHR 0xA9 # '' 2024 - Dr.BE v'' @ version)]]"

definition LoadingBackdrop :: view where
  "LoadingBackdrop = Tag ''Backdrop'' [(''open'', ''true'')] [Tag ''CircularProgress'' [] []]"

definition ErrorContainer :: "view \<Rightarrow> view" where
  "ErrorContainer children = Tag ''Box'' [] [Tag ''Box'' [] [children]]"

section \<open>Properties\<close>

text \<open>
  The navigation can be reached at every width of the window. In a wide one the items are always there and
  the button of the menu is not; in a narrow one the button is there, and when the menu is closed only
  while it is open, a press brings the items. But a click on an item in a wide window closes a menu that
  is not open: made narrow afterwards, the window never shows the items again.
\<close>

theorem navigation_reachable:
  assumes "window up" and "closes_open es menu_init"
  shows "(if up Md then sider_visible up (menu_run es menu_init) \<and> menu_button up = Some ''none''
     else menu_button up = None \<and>
       (sider_visible up (menu_run es menu_init) \<or> sider_visible up (menu_run (es @ [TransitionEnd, MenuToggle]) menu_init)) \<and>
       \<not> sider_visible up (menu_run (MenuClose # fs) menu_init))"
  using window.wide [OF assms(1)] window.narrow [OF assms(1)] menu_closed_twice [OF assms(2), of menu_init fs]
  by (auto simp: menu_init_def)

lemma navigation_reachable_witness:
  "sider_visible (reached 1280) (menu_run [MenuToggle, MenuClose] menu_init) \<and>
   sider_visible (reached 400) (menu_run [MenuToggle, MenuClose, TransitionEnd, MenuToggle] menu_init) \<and>
   \<not> sider_visible (reached 400) (menu_run [MenuClose, MenuToggle] menu_init)"
proof -
  have es: "closes_open [MenuToggle, MenuClose] menu_init" by (simp add: menu_init_def set_menu_def)
  note r = navigation_reachable [OF pixels.window_axioms es, of _ "[MenuToggle]"]
  have "\<not> sider_visible (reached 400) (menu_run [MenuToggle, MenuClose] menu_init)" by code_simp
  then show ?thesis using r [of 1280] r [of 400] by (simp add: reached_def)
qed

text \<open>
  The mode of the colours. Pressing the button and opening the explorer again, in any order, shows the
  mode that the cookie was read with while the button has not been pressed, and from then on light and
  dark in turn, the same after an opening as before it. No theme is chosen exactly as long as the cookie
  holds another text and the button has not been pressed.
\<close>

theorem theme_kept:
  "th_mode (theme_run (es @ [OpenAgain]) (theme_start c)) = th_mode (theme_run es (theme_start c)) \<and>
   th_mode (theme_run (replicate n OpenAgain) (theme_start c)) = root_theme c \<and>
   th_mode (theme_run (es @ [PressToggle, PressToggle, PressToggle]) (theme_start c)) =
     th_mode (theme_run (es @ [PressToggle]) (theme_start c)) \<and>
   (fst (root_frame (th_mode (theme_run es (theme_start c))) v) = None \<longleftrightarrow>
     count_list es PressToggle = 0 \<and> root_theme c \<notin> {ThemeMode_text LIGHT, ThemeMode_text DARK})"
proof -
  have "theme_inv (theme_start c)" by (simp add: theme_inv_def theme_start_def)
  note run = theme_run_mode [OF this]
  have "fst (root_frame m v) = None \<longleftrightarrow> m \<notin> {ThemeMode_text LIGHT, ThemeMode_text DARK}" for m
    by (simp add: root_frame_def ThemeProvider_def themes_def)
  moreover have "count_list (replicate n OpenAgain) PressToggle = 0" by (simp add: count_list_0_iff)
  ultimately show ?thesis unfolding run by (auto simp: theme_start_def)
qed

end
