(* ===== verification/DbClient.thy ===== *)
theory DbClient
  imports JsNumber
begin

text \<open>
  \<open>web-app/src/utils/prisma.ts\<close>: how a \<open>bigint\<close> of the database is written in an answer of the server,
  and the one client of the database that every module imports. The client itself belongs to a package:
  it is known by the order of its construction and by the options it was made with.
\<close>

section \<open>Numbers of the database in answers\<close>

datatype json_value = AsNumber jsnum | AsString string

text \<open>\<open>int ?? this.toString()\<close>; \<open>None\<close> stands for \<open>null\<close> and \<open>undefined\<close>.\<close>

definition or_else :: "'a option \<Rightarrow> 'a \<Rightarrow> 'a" where
  "or_else x d = (case x of Some v \<Rightarrow> v | None \<Rightarrow> d)"

definition bigint_toJSON :: "int \<Rightarrow> json_value" where
  "bigint_toJSON this =
     (let i = Some (AsNumber (parseInt (show_int this))) in or_else i (AsString (show_int this)))"

text \<open>\<open>JSON.stringify\<close> of the value: a number that is not finite is \<open>null\<close>.\<close>

fun json_value_text :: "json_value \<Rightarrow> string" where
  "json_value_text (AsNumber (Num i)) = show_int i"
| "json_value_text (AsNumber _) = ''null''"
| "json_value_text (AsString s) = ''\"'' @ s @ ''\"''"

lemma parseInt_show_int: "parseInt (show_int n) = num_of n"
proof (cases "n < 0")
  case False
  then show ?thesis using parseInt_digits [of "show_nat (nat n)"] by (simp add: show_int_def)
next
  case True
  let ?s = "show_nat (nat (- n))"
  have s: "?s \<noteq> []" "list_all is_digit ?s" by simp_all
  then have hex: "startsWith ?s ''0x'' = False" "startsWith ?s ''0X'' = False"
    by (auto simp: startsWith_iff char_class_defs code_def simp del: show_nat_digits)
  have all: "takeWhile is_digit ?s = ?s" using s(2) by (rule takeWhile_all)
  have sp: "dropWhile is_space (''-'' @ ?s) = ''-'' @ ?s" by (simp add: char_class_defs code_def)
  show ?thesis
    using True unfolding parseInt_def show_int_def Let_def
    by (simp add: sp [simplified] hex all s(1) startsWith_def [of "CHR ''-'' # _"])
qed

section \<open>The client\<close>

record prisma_client =
  pc_number :: nat
  pc_log :: "string list"
  pc_logs_queries :: bool
  pc_cached :: bool

text \<open>\<open>prismaClientSingleton\<close>; the number of clients made before tells the new one from the others.\<close>

definition prismaClientSingleton :: "bool \<Rightarrow> nat \<Rightarrow> prisma_client" where
  "prismaClientSingleton isProduction made =
     \<lparr>pc_number = made, pc_log = (if \<not> isProduction then [''query'', ''info''] else []),
      pc_logs_queries = \<not> isProduction, pc_cached = True\<rparr>"

text \<open>The global variable, which outlives the modules, and the number of clients made.\<close>

record prisma_process =
  prismaGlobal :: "prisma_client option"
  clients_made :: nat

definition load_prisma :: "bool \<Rightarrow> prisma_process \<Rightarrow> prisma_client \<times> prisma_process" where
  "load_prisma isProduction P =
     (let (prisma, made) =
        (case prismaGlobal P of
           Some c \<Rightarrow> (c, clients_made P)
         | None \<Rightarrow> (prismaClientSingleton isProduction (clients_made P), Suc (clients_made P)))
      in (prisma, P\<lparr>prismaGlobal := (if \<not> isProduction then Some prisma else prismaGlobal P), clients_made := made\<rparr>))"

text \<open>The clients that the successive loadings of the module export.\<close>

fun load_many :: "bool \<Rightarrow> nat \<Rightarrow> prisma_process \<Rightarrow> prisma_client list \<times> prisma_process" where
  "load_many isProduction 0 P = ([], P)"
| "load_many isProduction (Suc n) P =
     (case load_prisma isProduction P of
        (c, P') \<Rightarrow> (case load_many isProduction n P' of (cs, P'') \<Rightarrow> (c # cs, P'')))"

definition fresh_process :: prisma_process where
  "fresh_process = \<lparr>prismaGlobal = None, clients_made = 0\<rparr>"

lemma load_many_development:
  "prismaGlobal P = Some c \<Longrightarrow> load_many False n P = (replicate n c, P)"
  by (induction n; cases P) (simp_all add: load_prisma_def)

lemma load_many_production:
  "prismaGlobal P = None \<Longrightarrow>
   load_many True n P = (map (prismaClientSingleton True) [clients_made P..<clients_made P + n],
     P\<lparr>clients_made := clients_made P + n\<rparr>)"
  by (induction n arbitrary: P) (simp_all add: load_prisma_def upt_conv_Cons del: upt_Suc)

section \<open>Properties\<close>

text \<open>
  A number of the database is sent as a number and never as text: exactly up to \<open>2^53\<close>, rounded to
  the nearest double beyond it, where the fallback of the source was meant to send the text.
\<close>

theorem bigint_sent_as_number:
  "bigint_toJSON n = AsNumber (num_of n) \<and>
   (\<bar>n\<bar> < 2 ^ 53 \<longrightarrow> json_value_text (bigint_toJSON n) = show_int n) \<and>
   bigint_toJSON (2 ^ 53 + 1) = bigint_toJSON (2 ^ 53)"
proof (intro conjI impI)
  have sent: "bigint_toJSON m = AsNumber (num_of m)" for m
    by (simp only: bigint_toJSON_def or_else_def parseInt_show_int Let_def option.case)
  show "bigint_toJSON n = AsNumber (num_of n)" by (rule sent)
  show "json_value_text (bigint_toJSON n) = show_int n" if "\<bar>n\<bar> < 2 ^ 53"
    by (simp only: sent num_of_safe [OF that] json_value_text.simps)
  have "double_of (2 ^ 53 + 1) = double_of (2 ^ 53)" by (simp add: double_of_def Let_def bit_len.simps)
  then have "num_of (2 ^ 53 + 1) = num_of (2 ^ 53)" by (simp add: num_of_def split: option.split)
  then show "bigint_toJSON (2 ^ 53 + 1) = bigint_toJSON (2 ^ 53)" unfolding sent by (rule arg_cong)
qed

lemma bigint_sent_as_number_witness: "json_value_text (bigint_toJSON 170) = show_int 170"
  by (rule bigint_sent_as_number [of 170, THEN conjunct2, THEN conjunct1, THEN mp]) simp

text \<open>
  Outside production every loading of the module after the first gets the client made by the first,
  also after a reload of the code; in production each loading makes a client of its own and leaves the
  global variable alone. Every client has the cached operations, and only those of the development log
  their queries.
\<close>

theorem one_client:
  "load_many False (Suc n) fresh_process =
     (replicate (Suc n) (prismaClientSingleton False 0),
      \<lparr>prismaGlobal = Some (prismaClientSingleton False 0), clients_made = 1\<rparr>) \<and>
   load_many True n fresh_process =
     (map (prismaClientSingleton True) [0..<n], \<lparr>prismaGlobal = None, clients_made = n\<rparr>) \<and>
   pc_cached (prismaClientSingleton b n) \<and> (pc_logs_queries (prismaClientSingleton b n) \<longleftrightarrow> \<not> b)"
proof -
  have "load_prisma False fresh_process = (prismaClientSingleton False 0,
      \<lparr>prismaGlobal = Some (prismaClientSingleton False 0), clients_made = 1\<rparr>)"
    by (simp add: load_prisma_def fresh_process_def)
  then show ?thesis
    using load_many_production [of fresh_process n]
    by (simp add: load_many_development) (simp add: fresh_process_def prismaClientSingleton_def)
qed

end
