(* ===== verification/Spec2Isabelle.thy ===== *)
theory Spec2Isabelle
  imports Prelude JsString JsRegex JsNumber JsSort JsObject Settings RpcTypes BigNumber NumberFormat Common Address Transaction Rollapp Rpc Store Db Cache Search FetchHook TxDetail DenomsHook View Table AddressView TxTable Polling BlockView AddressPage TxView EvmView Governance Layout Pages TxHook ServerCache Subscribe
    Session Shell DbClient
begin

text \<open>
  A verification library of the rollapp block explorer, the web application under \<open>src/web-app\<close>.

  \<^bold>\<open>The program.\<close> The explorer shows the chains (rollapps) of a database. A server component reads
  the rows of the chains, makes the root layout with them and, for every path, the page. In the
  browser a store holds the rollapps, the selected one, its RPC service and the metadata of its
  denominations; the path of the page selects the rollapp (\<open>/nim/txs\<close> is the list of transactions
  of Nim). The pages ask the node of the selected rollapp over JSON-RPC in hooks; the lists of
  transactions and of accounts come from the database through the server, which caches some of its
  queries. The search looks into the rollapps of the store and into the database.

  \<^bold>\<open>How the code is read.\<close> One definition per function, component or step, in the order of the
  source and under its name; a clash with a HOL constant gets a suffix. An interface is a record, an
  enum or tagged union a datatype. A call that may throw returns a \<open>result\<close>, \<open>Inl\<close> for the throw.
  A component is the function from its props, and from what its hooks return, to the tree it renders
  (\<open>view\<close>: tags with their attributes, texts); what it remembers is a record with a step function.
  An effect or promise is cut at its awaits: each piece is a step of a state machine and a schedule is
  a list of events, so that every interleaving is a list. The mutable objects of the store are
  a heap with references, because a favourite flag is seen through every alias.

  \<^bold>\<open>The theories.\<close>

  \<^item> The language. \<open>Prelude\<close>: results, thrown errors, facts on lists, the collections of rules.
    \<open>JsString\<close>, \<open>JsRegex\<close>, \<open>JsNumber\<close>, \<open>JsSort\<close>, \<open>JsObject\<close>: what the source uses of strings,
    regular expressions (an executable matcher that is proved to decide a relation \<open>matches\<close>),
    numbers, stable sorting (the locale \<open>comparator\<close> and those that extend it) and dictionaries.
  \<^item> Data. \<open>Settings\<close>: \<open>consts/\<close>. \<open>RpcTypes\<close>: \<open>consts/rpcResTypes.ts\<close>.
  \<^item> Pure functions of \<open>utils/\<close>. \<open>BigNumber\<close> (the interface of the package for decimals),
    \<open>NumberFormat\<close> (\<open>number.ts\<close>), \<open>Common\<close> (\<open>common.ts\<close>), \<open>Address\<close> (\<open>address.ts\<close>),
    \<open>Transaction\<close> (\<open>transaction.ts\<close>), \<open>Rollapp\<close> (\<open>rollapp.ts\<close>).
  \<^item> The node. \<open>Rpc\<close>: \<open>utils/rpc.ts\<close>, \<open>services/rpc.service.ts\<close>, what is sent and how answers
    are read.
  \<^item> The store. \<open>Store\<close>: \<open>utils/store.ts\<close>, \<open>hooks/useStore.ts\<close>, \<open>stores/rollappStore.ts\<close>,
    \<open>StoreProvider.tsx\<close>; a dispatch is a start and a later commit, \<open>store_reachable\<close> is the relation
    of all interleavings. \<open>Subscribe\<close>: the components that listen to the store.
  \<^item> The server. \<open>Db\<close>: \<open>services/db/\<close>, \<open>actions/transaction.ts\<close>, the queries as data.
    \<open>Cache\<close>: \<open>utils/cache.ts\<close>, \<open>prismaCache.ts\<close>, the health route. \<open>ServerCache\<close>: queries, cache and
    database as one machine of requests and late answers.
  \<^item> \<open>Search\<close>: \<open>services/search.service.ts\<close>, \<open>services/db/search.ts\<close>, the routes of the search,
    the state of \<open>Search.tsx\<close>.
  \<^item> Hooks. \<open>FetchHook\<close>: the ten hooks that fetch one thing are instances of one machine \<open>hook_step\<close>.
    \<open>TxDetail\<close>: \<open>useTransactionDetail.ts\<close> as one computation, \<open>TxHook\<close>: its effect, cut at the awaits. \<open>DenomsHook\<close>: \<open>useDenomsMetadata.ts\<close>. \<open>Polling\<close>:
    \<open>useLatestBlock.ts\<close> and \<open>useRecentBlocks.ts\<close>, with the interval that starts overlapping fetches.
  \<^item> Components. \<open>View\<close>: \<open>components/commons\<close>. \<open>Table\<close>: \<open>DataTable.tsx\<close>. \<open>AddressView\<close>,
    \<open>AddressPage\<close>: \<open>client/address\<close> and the page of an address. \<open>TxTable\<close>: the lists of
    transactions. \<open>TxView\<close>, \<open>EvmView\<close>: the page of a transaction. \<open>BlockView\<close>: \<open>client/block\<close>.
    \<open>Governance\<close>: \<open>client/governance\<close>, \<open>client/params\<close>. \<open>Layout\<close>: \<open>client/commons/Layout\<close>,
    \<open>RollappSelect.tsx\<close>, \<open>ThemeProvider.tsx\<close>, the results of a search. \<open>Pages\<close>: \<open>app/\<close>, how layouts,
    store, header and pages are put together. \<open>Shell\<close>: the themes and their cookie, the default values of
    the contexts, and what depends on the width of the window (sizes, columns, drawers).
  \<^item> \<open>Session\<close>: a page in the browser as one system, the store, the effect of the layout and a hook of
    the page. Its dispatches do not overlap; \<open>Store\<close> has those that do.
  \<^item> \<open>DbClient\<close>: \<open>utils/prisma.ts\<close>, the client of the database and how its numbers are sent.

  \<^bold>\<open>What is proved.\<close> The properties are the theorems whose text begins with C and a number; the
  theorems that span components stand in the theory of the last of them.

  \<^item> Composition (\<open>Pages\<close>, \<open>Session\<close>): server and browser agree on the rollapp of a page, choosing a
    rollapp selects it, the menu never leaves it, and a page that is not loading shows what the node of
    its rollapp answered.
  \<^item> Store: the invariant under all interleavings, favourites, and the harm of overlapping
    dispatches.
  \<^item> Search: what is shown and in which order, where the links lead.
  \<^item> Server: what is answered from the cache, and what the queries return.
  \<^item> Lists: parameters in range, a click on a page is read back, and the refinement that the pages
    of a list put together are the whole list (transactions, an address, coins, blocks).
  \<^item> Addresses, paths, hashes: round trips and independence of spelling.
  \<^item> Amounts and shares: exact values, percentages that add up to 100, the ranking of validators.
  \<^item> Hooks: what is shown belongs to the present dependencies, which retries happen, when the loop
    over pages ends, the refinement of a computation by its interrupted effect, and the cases where it goes wrong.
  \<^item> Where the code does not do what it means to, the theorem states what it does.

  \<^bold>\<open>Bounds.\<close> A number is a whole number, NaN or infinite; sums beyond \<open>2^53\<close> are not exact in the
  language, so theorems on pages assume lists shorter than \<open>2^52\<close>, and an array length is refused
  from \<open>2^32\<close> on, as in the language. Characters are code units below 256. The loop over the pages of
  denominations may run for ever and is a \<open>partial_function (option)\<close>; there is no fuel elsewhere:
  all other loops are structural or have a termination proof.

  \<^bold>\<open>Parameters.\<close> Code that is not in the repository is an argument, with what is documented of it as a
  locale: decimals of big.js (\<open>big_number\<close>, interpreted on exact rationals), the bech32 and hexadecimal
  codecs (\<open>addr_codec\<close>), the in-memory cache (\<open>node_cache\<close>), the collation of names (\<open>collation\<close>), the
  breakpoints of the component library (\<open>window\<close>), the answers of the node and of the database. Each locale is interpreted on executable functions, which the
  witnesses evaluate.

  \<^bold>\<open>Not modelled.\<close> The Go service \<open>src/indexer\<close> that fills the database (another program); the inside of
  the database client and its schema, whose rows are the records of \<open>Db\<close>; colours, fonts, margins and
  padding of single components; React's scheduling beyond the order of effects and answers;
  configuration of the build.
\<close>

end
